theory Spec2Isabelle
  imports Main "HOL-Library.Word"
begin

unbundle bit_operations_syntax

section \<open>Solidity value types\<close>

type_synonym address = "160 word"
type_synonym bytes32 = "256 word"
type_synonym uint64 = "64 word"
type_synonym uint128 = "128 word"
type_synonym uint256 = "256 word"
type_synonym bytes = "8 word list"

section \<open>Errors\<close>

text \<open>
  The rich errors of \<open>LibNativeOrdersRichErrors\<close> that the settlement and cancellation code
  raises, together with the failures of the language and of the external calls:
  \<open>Panic 17\<close> is Solidity's \<open>Panic(0x11)\<close> (checked arithmetic overflow or underflow),
  \<open>Panic 18\<close> is \<open>Panic(0x12)\<close> (division by zero), \<open>ECDSAInvalidSignature\<close> is the revert
  of \<open>ECDSA.recover\<close>, \<open>TokenCallFailed\<close> the revert of \<open>SafeERC20\<close>, and \<open>RequireFailed\<close>
  a failed \<open>require\<close> with its message.
\<close>

datatype token_call =
  Transfer address address uint256
| TransferFrom address address address uint256

datatype error =
  OrderNotFillableError bytes32 "8 word"
| OrderNotFillableByTakerError bytes32 address address
| OrderNotFillableBySenderError bytes32 address address
| OrderNotFillableByOriginError bytes32 address address
| OrderNotSignedByMakerError bytes32 address address
| OnlyOrderMakerAllowed bytes32 address address
| Panic nat
| ECDSAInvalidSignature
| TokenCallFailed token_call
| RequireFailed string

definition bindE :: "error + 'a \<Rightarrow> ('a \<Rightarrow> error + 'b) \<Rightarrow> error + 'b" where
  "bindE m f = (case m of Inl e \<Rightarrow> Inl e | Inr v \<Rightarrow> f v)"

section \<open>Checked arithmetic of Solidity 0.8\<close>

text \<open>
  The contracts are compiled with \<open>pragma solidity ^0.8.9\<close>: \<open>+\<close>, \<open>-\<close> and \<open>*\<close> on two
  operands of type \<open>uintN\<close> are computed in \<open>uintN\<close> and revert with \<open>Panic(0x11)\<close> when the
  mathematical result does not fit; \<open>/\<close> reverts with \<open>Panic(0x12)\<close> on a zero divisor.
\<close>

definition checked_add :: "'a::len word \<Rightarrow> 'a word \<Rightarrow> error + 'a word" where
  "checked_add a b = (if unat a + unat b < 2 ^ LENGTH('a) then Inr (a + b) else Inl (Panic 17))"

definition checked_sub :: "'a::len word \<Rightarrow> 'a word \<Rightarrow> error + 'a word" where
  "checked_sub a b = (if b \<le> a then Inr (a - b) else Inl (Panic 17))"

definition checked_mul :: "'a::len word \<Rightarrow> 'a word \<Rightarrow> error + 'a word" where
  "checked_mul a b = (if unat a * unat b < 2 ^ LENGTH('a) then Inr (a * b) else Inl (Panic 17))"

definition checked_div :: "'a::len word \<Rightarrow> 'a word \<Rightarrow> error + 'a word" where
  "checked_div a b = (if b = 0 then Inl (Panic 18) else Inr (a div b))"

section \<open>Orders\<close>

text \<open>
  \<open>LibNativeOrder.LimitOrder\<close> and \<open>LibNativeOrder.RfqOrder\<close>, with the field types of the
  struct ABI (\<open>STRUCT_ABI\<close> in the off-chain order classes).
\<close>

record LimitOrder =
  makerToken :: address
  takerToken :: address
  makerAmount :: uint128
  takerAmount :: uint128
  takerTokenFeeAmount :: uint128
  maker :: address
  taker :: address
  sender :: address
  feeRecipient :: address
  pool :: bytes32
  expiry :: uint64
  salt :: uint256

record RfqOrder =
  makerToken :: address
  takerToken :: address
  makerAmount :: uint128
  takerAmount :: uint128
  maker :: address
  taker :: address
  txOrigin :: address
  pool :: bytes32
  expiry :: uint64
  salt :: uint256

datatype OrderStatus = INVALID | FILLABLE | FILLED | CANCELLED | EXPIRED

text \<open>\<open>uint8(orderInfo.status)\<close>, with the numbering of the \<open>OrderStatus\<close> enum.\<close>

fun status_uint8 :: "OrderStatus \<Rightarrow> 8 word" where
  "status_uint8 INVALID = 0"
| "status_uint8 FILLABLE = 1"
| "status_uint8 FILLED = 2"
| "status_uint8 CANCELLED = 3"
| "status_uint8 EXPIRED = 4"

record OrderInfo =
  orderHash :: bytes32
  status :: OrderStatus
  takerTokenFilledAmount :: uint128

section \<open>Contract state, call context and environment\<close>

text \<open>
  \<open>LibNativeOrdersStorage.Storage\<close>: the packed fill record per order hash, the RFQ origin
  registry, and the registry behind \<open>isValidOrderSigner\<close>.
\<close>

record Storage =
  orderHashToTakerTokenFilledAmount :: "bytes32 \<Rightarrow> uint256"
  originRegistry :: "address \<Rightarrow> address \<Rightarrow> bool"
  orderSignerRegistry :: "address \<Rightarrow> address \<Rightarrow> bool"

datatype event =
  OrderCancelled bytes32 address
| LimitOrderFilled bytes32 address address address address address
    uint128 uint128 uint128 uint256 bytes32
| RfqOrderFilled bytes32 address address address address uint128 uint128 bytes32
| RfqOrderOriginsAllowed address "address list" bool

text \<open>
  The world a call runs in: the contract's storage, the state of the external token
  contracts (\<open>ledger\<close>, of a type the settlement code knows nothing about), the external
  calls made so far, each with the contract storage that the callee could observe when it
  was called, and the events emitted.
\<close>

record 'l World =
  stor :: Storage
  ledger :: 'l
  calls :: "(token_call \<times> Storage) list"
  events :: "event list"

record Ctx =
  msg_sender :: address
  tx_origin :: address
  block_timestamp :: uint256

text \<open>
  What the settlement code calls but does not define: the order hashes
  (\<open>getLimitOrderHash\<close>, \<open>getRfqOrderHash\<close> of \<open>NativeOrdersInfo\<close>), \<open>ECDSA.recover\<close>
  (\<open>None\<close> when it reverts), the token contracts reached through \<open>SafeERC20\<close> (\<open>None\<close> when
  the call reverts), and the contract's own address.
\<close>

record 'l Env =
  getLimitOrderHash :: "LimitOrder \<Rightarrow> bytes32"
  getRfqOrderHash :: "RfqOrder \<Rightarrow> bytes32"
  ECDSA_recover :: "bytes32 \<Rightarrow> bytes \<Rightarrow> address option"
  tokenCall :: "token_call \<Rightarrow> 'l \<Rightarrow> 'l option"
  this :: address

definition safeCall :: "'l Env \<Rightarrow> token_call \<Rightarrow> 'l World \<Rightarrow> error + 'l World" where
  "safeCall env c w =
     (case tokenCall env c (ledger w) of
        None \<Rightarrow> Inl (TokenCallFailed c)
      | Some l' \<Rightarrow> Inr (w\<lparr>ledger := l', calls := calls w @ [(c, stor w)]\<rparr>))"

text \<open>\<open>uint256 private constant HIGH_BIT = 1 << 255\<close>\<close>

definition HIGH_BIT :: uint256 where
  "HIGH_BIT = push_bit 255 1"

section \<open>Order info\<close>

text \<open>
  Modelled from the spec: \<open>isValidOrderSigner(maker, signer)\<close> of \<open>NativeOrdersInfo\<close>, which
  is not among the sources; the specification describes it as a single predicate over
  signers that a maker registered.
\<close>

definition isValidOrderSigner :: "Storage \<Rightarrow> address \<Rightarrow> address \<Rightarrow> bool" where
  "isValidOrderSigner st mk signer = orderSignerRegistry st mk signer"

text \<open>
  Modelled from the spec: the order info resolver (\<open>getLimitOrderInfo\<close>, \<open>getRfqOrderInfo\<close> of
  \<open>NativeOrdersInfo\<close>), which is not among the sources. The status is derived in the
  specification's priority order: \<open>Invalid\<close> when the taker amount is zero (before any state
  lookup), \<open>Cancelled\<close> when the top bit of the fill record is set, \<open>Expired\<close> when the current
  time is at or past the expiry, \<open>Filled\<close> when the filled amount has reached the taker
  amount, \<open>Fillable\<close> otherwise. The filled amount is the low 255 bits of the fill record,
  in the \<open>uint128\<close> field of \<open>OrderInfo\<close>.
\<close>

definition resolveOrderInfo ::
  "bytes32 \<Rightarrow> uint128 \<Rightarrow> uint64 \<Rightarrow> Ctx \<Rightarrow> Storage \<Rightarrow> OrderInfo" where
  "resolveOrderInfo h tAmount exp cx st =
     (if tAmount = 0 then
        \<lparr>orderHash = h, status = INVALID, takerTokenFilledAmount = 0\<rparr>
      else
        let raw = orderHashToTakerTokenFilledAmount st h;
            filled = (ucast (take_bit 255 raw) :: uint128)
        in \<lparr>orderHash = h,
            status =
              (if raw AND HIGH_BIT \<noteq> 0 then CANCELLED
               else if unat exp \<le> unat (block_timestamp cx) then EXPIRED
               else if tAmount \<le> filled then FILLED
               else FILLABLE),
            takerTokenFilledAmount = filled\<rparr>)"

definition getLimitOrderInfo :: "'l Env \<Rightarrow> Ctx \<Rightarrow> Storage \<Rightarrow> LimitOrder \<Rightarrow> OrderInfo" where
  "getLimitOrderInfo env cx st order =
     resolveOrderInfo (getLimitOrderHash env order) (LimitOrder.takerAmount order)
       (LimitOrder.expiry order) cx st"

definition getRfqOrderInfo :: "'l Env \<Rightarrow> Ctx \<Rightarrow> Storage \<Rightarrow> RfqOrder \<Rightarrow> OrderInfo" where
  "getRfqOrderInfo env cx st order =
     resolveOrderInfo (getRfqOrderHash env order) (RfqOrder.takerAmount order)
       (RfqOrder.expiry order) cx st"

section \<open>Settlement\<close>

record SettleOrderInfo =
  orderHash :: bytes32
  maker :: address
  payer :: address
  recipient :: address
  makerToken :: address
  takerToken :: address
  makerAmount :: uint128
  takerAmount :: uint128
  takerTokenFillAmount :: uint128
  takerTokenFilledAmount :: uint128

record FillLimitOrderPrivateParams =
  order :: LimitOrder
  signature :: bytes
  takerTokenFillAmount :: uint128
  taker :: address
  sender :: address

record FillRfqOrderPrivateParams =
  order :: RfqOrder
  signature :: bytes
  takerTokenFillAmount :: uint128
  taker :: address
  useSelfBalance :: bool
  recipient :: address

record FillNativeOrderResults =
  ethProtocolFeePaid :: uint256
  takerTokenFilledAmount :: uint128
  makerTokenFilledAmount :: uint128
  takerTokenFeeFilledAmount :: uint128

text \<open>
  \<open>_settleOrder\<close>: the clamp, the proportional maker amount (both in checked \<open>uint128\<close>
  arithmetic), the early return, the write of the fill record, and the two transfers.
\<close>

definition settleOrder ::
  "'l Env \<Rightarrow> SettleOrderInfo \<Rightarrow> 'l World \<Rightarrow> error + ('l World \<times> uint128 \<times> uint128)" where
  "settleOrder env settleInfo w =
     bindE (checked_sub (SettleOrderInfo.takerAmount settleInfo)
              (SettleOrderInfo.takerTokenFilledAmount settleInfo)) (\<lambda>remaining.
     let takerFilled =
           (if SettleOrderInfo.takerTokenFillAmount settleInfo < remaining
            then SettleOrderInfo.takerTokenFillAmount settleInfo else remaining)
     in
     bindE (checked_mul takerFilled (SettleOrderInfo.makerAmount settleInfo)) (\<lambda>product.
     bindE (checked_div product (SettleOrderInfo.takerAmount settleInfo)) (\<lambda>makerFilled.
     if takerFilled = 0 \<or> makerFilled = 0 then Inr (w, 0, 0)
     else
     bindE (checked_add (SettleOrderInfo.takerTokenFilledAmount settleInfo) takerFilled)
       (\<lambda>newFilled.
     let w1 = w\<lparr>stor := (stor w)\<lparr>orderHashToTakerTokenFilledAmount :=
                 (orderHashToTakerTokenFilledAmount (stor w))
                   (SettleOrderInfo.orderHash settleInfo := ucast newFilled)\<rparr>\<rparr>
     in
     bindE (if payer settleInfo = this env
            then safeCall env (Transfer (SettleOrderInfo.takerToken settleInfo)
                                 (SettleOrderInfo.maker settleInfo) (ucast takerFilled)) w1
            else safeCall env (TransferFrom (SettleOrderInfo.takerToken settleInfo)
                                 (payer settleInfo) (SettleOrderInfo.maker settleInfo)
                                 (ucast takerFilled)) w1) (\<lambda>w2.
     bindE (safeCall env (TransferFrom (SettleOrderInfo.makerToken settleInfo)
                            (SettleOrderInfo.maker settleInfo)
                            (SettleOrderInfo.recipient settleInfo) (ucast makerFilled)) w2)
       (\<lambda>w3. Inr (w3, takerFilled, makerFilled)))))))"

text \<open>\<open>_fillLimitOrderPrivate\<close>\<close>

definition fillLimitOrderPrivate ::
  "'l Env \<Rightarrow> Ctx \<Rightarrow> FillLimitOrderPrivateParams \<Rightarrow> 'l World
     \<Rightarrow> error + ('l World \<times> FillNativeOrderResults)" where
  "fillLimitOrderPrivate env cx params w =
     (let ord = FillLimitOrderPrivateParams.order params;
          orderInfo = getLimitOrderInfo env cx (stor w) ord
      in
      if OrderInfo.status orderInfo \<noteq> FILLABLE then
        Inl (OrderNotFillableError (OrderInfo.orderHash orderInfo)
               (status_uint8 (OrderInfo.status orderInfo)))
      else if LimitOrder.taker ord \<noteq> 0
           \<and> LimitOrder.taker ord \<noteq> FillLimitOrderPrivateParams.taker params then
        Inl (OrderNotFillableByTakerError (OrderInfo.orderHash orderInfo)
               (FillLimitOrderPrivateParams.taker params) (LimitOrder.taker ord))
      else if LimitOrder.sender ord \<noteq> 0
           \<and> LimitOrder.sender ord \<noteq> FillLimitOrderPrivateParams.sender params then
        Inl (OrderNotFillableBySenderError (OrderInfo.orderHash orderInfo)
               (FillLimitOrderPrivateParams.sender params) (LimitOrder.sender ord))
      else
        (case ECDSA_recover env (OrderInfo.orderHash orderInfo)
                (FillLimitOrderPrivateParams.signature params) of
           None \<Rightarrow> Inl ECDSAInvalidSignature
         | Some signer \<Rightarrow>
             if signer \<noteq> LimitOrder.maker ord
                \<and> \<not> isValidOrderSigner (stor w) (LimitOrder.maker ord) signer then
               Inl (OrderNotSignedByMakerError (OrderInfo.orderHash orderInfo) signer
                      (LimitOrder.maker ord))
             else
               bindE (settleOrder env
                        \<lparr>SettleOrderInfo.orderHash = OrderInfo.orderHash orderInfo,
                         SettleOrderInfo.maker = LimitOrder.maker ord,
                         payer = FillLimitOrderPrivateParams.taker params,
                         SettleOrderInfo.recipient = FillLimitOrderPrivateParams.taker params,
                         SettleOrderInfo.makerToken = LimitOrder.makerToken ord,
                         SettleOrderInfo.takerToken = LimitOrder.takerToken ord,
                         SettleOrderInfo.makerAmount = LimitOrder.makerAmount ord,
                         SettleOrderInfo.takerAmount = LimitOrder.takerAmount ord,
                         SettleOrderInfo.takerTokenFillAmount =
                           FillLimitOrderPrivateParams.takerTokenFillAmount params,
                         SettleOrderInfo.takerTokenFilledAmount =
                           OrderInfo.takerTokenFilledAmount orderInfo\<rparr> w)
                 (\<lambda>(w1, takerFilled, makerFilled).
               let results =
                     \<lparr>ethProtocolFeePaid = 0,
                      FillNativeOrderResults.takerTokenFilledAmount = takerFilled,
                      makerTokenFilledAmount = makerFilled,
                      takerTokenFeeFilledAmount = 0\<rparr>
               in
               bindE (if 0 < takerTokenFeeAmount ord then
                        bindE (checked_mul takerFilled (takerTokenFeeAmount ord)) (\<lambda>product.
                        bindE (checked_div product (LimitOrder.takerAmount ord)) (\<lambda>feeFilled.
                        bindE (safeCall env
                                 (TransferFrom (LimitOrder.takerToken ord)
                                    (FillLimitOrderPrivateParams.taker params)
                                    (feeRecipient ord) (ucast feeFilled)) w1)
                          (\<lambda>w2. Inr (w2, results\<lparr>takerTokenFeeFilledAmount := feeFilled\<rparr>))))
                      else Inr (w1, results))
                 (\<lambda>(w3, results).
               Inr (w3\<lparr>events := events w3 @
                      [LimitOrderFilled (OrderInfo.orderHash orderInfo) (LimitOrder.maker ord)
                         (FillLimitOrderPrivateParams.taker params) (feeRecipient ord)
                         (LimitOrder.makerToken ord) (LimitOrder.takerToken ord)
                         (FillNativeOrderResults.takerTokenFilledAmount results)
                         (makerTokenFilledAmount results)
                         (takerTokenFeeFilledAmount results)
                         (ethProtocolFeePaid results) (LimitOrder.pool ord)]\<rparr>,
                    results)))))"

text \<open>\<open>_fillRfqOrderPrivate\<close>\<close>

definition fillRfqOrderPrivate ::
  "'l Env \<Rightarrow> Ctx \<Rightarrow> FillRfqOrderPrivateParams \<Rightarrow> 'l World
     \<Rightarrow> error + ('l World \<times> FillNativeOrderResults)" where
  "fillRfqOrderPrivate env cx params w =
     (let ord = FillRfqOrderPrivateParams.order params;
          orderInfo = getRfqOrderInfo env cx (stor w) ord
      in
      if OrderInfo.status orderInfo \<noteq> FILLABLE then
        Inl (OrderNotFillableError (OrderInfo.orderHash orderInfo)
               (status_uint8 (OrderInfo.status orderInfo)))
      else if txOrigin ord \<noteq> tx_origin cx
           \<and> \<not> originRegistry (stor w) (txOrigin ord) (tx_origin cx) then
        Inl (OrderNotFillableByOriginError (OrderInfo.orderHash orderInfo)
               (tx_origin cx) (txOrigin ord))
      else if RfqOrder.taker ord \<noteq> 0
           \<and> RfqOrder.taker ord \<noteq> FillRfqOrderPrivateParams.taker params then
        Inl (OrderNotFillableByTakerError (OrderInfo.orderHash orderInfo)
               (FillRfqOrderPrivateParams.taker params) (RfqOrder.taker ord))
      else
        (case ECDSA_recover env (OrderInfo.orderHash orderInfo)
                (FillRfqOrderPrivateParams.signature params) of
           None \<Rightarrow> Inl ECDSAInvalidSignature
         | Some signer \<Rightarrow>
             if signer \<noteq> RfqOrder.maker ord
                \<and> \<not> isValidOrderSigner (stor w) (RfqOrder.maker ord) signer then
               Inl (OrderNotSignedByMakerError (OrderInfo.orderHash orderInfo) signer
                      (RfqOrder.maker ord))
             else
               bindE (settleOrder env
                        \<lparr>SettleOrderInfo.orderHash = OrderInfo.orderHash orderInfo,
                         SettleOrderInfo.maker = RfqOrder.maker ord,
                         payer = (if useSelfBalance params then this env
                                  else FillRfqOrderPrivateParams.taker params),
                         SettleOrderInfo.recipient = FillRfqOrderPrivateParams.recipient params,
                         SettleOrderInfo.makerToken = RfqOrder.makerToken ord,
                         SettleOrderInfo.takerToken = RfqOrder.takerToken ord,
                         SettleOrderInfo.makerAmount = RfqOrder.makerAmount ord,
                         SettleOrderInfo.takerAmount = RfqOrder.takerAmount ord,
                         SettleOrderInfo.takerTokenFillAmount =
                           FillRfqOrderPrivateParams.takerTokenFillAmount params,
                         SettleOrderInfo.takerTokenFilledAmount =
                           OrderInfo.takerTokenFilledAmount orderInfo\<rparr> w)
                 (\<lambda>(w1, takerFilled, makerFilled).
               Inr (w1\<lparr>events := events w1 @
                      [RfqOrderFilled (OrderInfo.orderHash orderInfo) (RfqOrder.maker ord)
                         (FillRfqOrderPrivateParams.taker params)
                         (RfqOrder.makerToken ord) (RfqOrder.takerToken ord)
                         takerFilled makerFilled (RfqOrder.pool ord)]\<rparr>,
                    \<lparr>ethProtocolFeePaid = 0,
                     FillNativeOrderResults.takerTokenFilledAmount = takerFilled,
                     makerTokenFilledAmount = makerFilled,
                     takerTokenFeeFilledAmount = 0\<rparr>))))"

text \<open>The public entry points: the taker (and sender, and recipient) is the caller.\<close>

definition fillLimitOrder ::
  "'l Env \<Rightarrow> Ctx \<Rightarrow> LimitOrder \<Rightarrow> bytes \<Rightarrow> uint128 \<Rightarrow> 'l World
     \<Rightarrow> error + ('l World \<times> uint128 \<times> uint128)" where
  "fillLimitOrder env cx ord sig fillAmount w =
     bindE (fillLimitOrderPrivate env cx
              \<lparr>FillLimitOrderPrivateParams.order = ord,
               FillLimitOrderPrivateParams.signature = sig,
               FillLimitOrderPrivateParams.takerTokenFillAmount = fillAmount,
               FillLimitOrderPrivateParams.taker = msg_sender cx,
               FillLimitOrderPrivateParams.sender = msg_sender cx\<rparr> w)
       (\<lambda>(w', results).
          Inr (w', FillNativeOrderResults.takerTokenFilledAmount results,
               makerTokenFilledAmount results))"

definition fillRfqOrder ::
  "'l Env \<Rightarrow> Ctx \<Rightarrow> RfqOrder \<Rightarrow> bytes \<Rightarrow> uint128 \<Rightarrow> 'l World
     \<Rightarrow> error + ('l World \<times> uint128 \<times> uint128)" where
  "fillRfqOrder env cx ord sig fillAmount w =
     bindE (fillRfqOrderPrivate env cx
              \<lparr>FillRfqOrderPrivateParams.order = ord,
               FillRfqOrderPrivateParams.signature = sig,
               FillRfqOrderPrivateParams.takerTokenFillAmount = fillAmount,
               FillRfqOrderPrivateParams.taker = msg_sender cx,
               useSelfBalance = False,
               FillRfqOrderPrivateParams.recipient = msg_sender cx\<rparr> w)
       (\<lambda>(w', results).
          Inr (w', FillNativeOrderResults.takerTokenFilledAmount results,
               makerTokenFilledAmount results))"

text \<open>\<open>registerAllowedRfqOrigins\<close>\<close>

definition registerAllowedRfqOrigins ::
  "Ctx \<Rightarrow> address list \<Rightarrow> bool \<Rightarrow> 'l World \<Rightarrow> error + 'l World" where
  "registerAllowedRfqOrigins cx origins allowed w =
     (if msg_sender cx \<noteq> tx_origin cx then
        Inl (RequireFailed ''NativeOrdersFeature/NO_CONTRACT_ORIGINS'')
      else
        Inr (w\<lparr>stor := (stor w)\<lparr>originRegistry :=
                 foldl (\<lambda>reg origin. reg(msg_sender cx := (reg (msg_sender cx))(origin := allowed)))
                   (originRegistry (stor w)) origins\<rparr>,
               events := events w @ [RfqOrderOriginsAllowed (msg_sender cx) origins allowed]\<rparr>))"

section \<open>Cancellation\<close>

text \<open>\<open>_cancelOrderHash\<close>: \<open>stor.orderHashToTakerTokenFilledAmount[orderHash] |= HIGH_BIT\<close>\<close>

definition cancelOrderHash :: "bytes32 \<Rightarrow> address \<Rightarrow> 'l World \<Rightarrow> 'l World" where
  "cancelOrderHash h mk w =
     w\<lparr>stor := (stor w)\<lparr>orderHashToTakerTokenFilledAmount :=
          (orderHashToTakerTokenFilledAmount (stor w))
            (h := orderHashToTakerTokenFilledAmount (stor w) h OR HIGH_BIT)\<rparr>,
       events := events w @ [OrderCancelled h mk]\<rparr>"

definition cancelLimitOrder ::
  "'l Env \<Rightarrow> Ctx \<Rightarrow> LimitOrder \<Rightarrow> 'l World \<Rightarrow> error + 'l World" where
  "cancelLimitOrder env cx ord w =
     (let h = getLimitOrderHash env ord in
      if msg_sender cx \<noteq> LimitOrder.maker ord
         \<and> \<not> isValidOrderSigner (stor w) (LimitOrder.maker ord) (msg_sender cx) then
        Inl (OnlyOrderMakerAllowed h (msg_sender cx) (LimitOrder.maker ord))
      else Inr (cancelOrderHash h (LimitOrder.maker ord) w))"

definition cancelRfqOrder ::
  "'l Env \<Rightarrow> Ctx \<Rightarrow> RfqOrder \<Rightarrow> 'l World \<Rightarrow> error + 'l World" where
  "cancelRfqOrder env cx ord w =
     (let h = getRfqOrderHash env ord in
      if msg_sender cx \<noteq> RfqOrder.maker ord
         \<and> \<not> isValidOrderSigner (stor w) (RfqOrder.maker ord) (msg_sender cx) then
        Inl (OnlyOrderMakerAllowed h (msg_sender cx) (RfqOrder.maker ord))
      else Inr (cancelOrderHash h (RfqOrder.maker ord) w))"

fun batchCancelLimitOrders ::
  "'l Env \<Rightarrow> Ctx \<Rightarrow> LimitOrder list \<Rightarrow> 'l World \<Rightarrow> error + 'l World" where
  "batchCancelLimitOrders env cx [] w = Inr w"
| "batchCancelLimitOrders env cx (ord # orders) w =
     bindE (cancelLimitOrder env cx ord w) (batchCancelLimitOrders env cx orders)"

fun batchCancelRfqOrders ::
  "'l Env \<Rightarrow> Ctx \<Rightarrow> RfqOrder list \<Rightarrow> 'l World \<Rightarrow> error + 'l World" where
  "batchCancelRfqOrders env cx [] w = Inr w"
| "batchCancelRfqOrders env cx (ord # orders) w =
     bindE (cancelRfqOrder env cx ord w) (batchCancelRfqOrders env cx orders)"

section \<open>Transactions\<close>

text \<open>
  A call of one of the contract's state-changing entry points. A call that reverts leaves
  the world as it was before the call: the EVM discards every effect of a reverted call.
\<close>

datatype call =
  FillLimitOrder LimitOrder bytes uint128
| FillRfqOrder RfqOrder bytes uint128
| CancelLimitOrder LimitOrder
| CancelRfqOrder RfqOrder
| BatchCancelLimitOrders "LimitOrder list"
| BatchCancelRfqOrders "RfqOrder list"
| RegisterAllowedRfqOrigins "address list" bool

fun execute :: "'l Env \<Rightarrow> Ctx \<Rightarrow> call \<Rightarrow> 'l World \<Rightarrow> error + 'l World" where
  "execute env cx (FillLimitOrder ord sig amt) w =
     bindE (fillLimitOrder env cx ord sig amt w) (\<lambda>(w', _). Inr w')"
| "execute env cx (FillRfqOrder ord sig amt) w =
     bindE (fillRfqOrder env cx ord sig amt w) (\<lambda>(w', _). Inr w')"
| "execute env cx (CancelLimitOrder ord) w = cancelLimitOrder env cx ord w"
| "execute env cx (CancelRfqOrder ord) w = cancelRfqOrder env cx ord w"
| "execute env cx (BatchCancelLimitOrders orders) w = batchCancelLimitOrders env cx orders w"
| "execute env cx (BatchCancelRfqOrders orders) w = batchCancelRfqOrders env cx orders w"
| "execute env cx (RegisterAllowedRfqOrigins origins allowed) w =
     registerAllowedRfqOrigins cx origins allowed w"

definition transact :: "'l Env \<Rightarrow> Ctx \<times> call \<Rightarrow> 'l World \<Rightarrow> 'l World" where
  "transact env tx w = (case execute env (fst tx) (snd tx) w of Inl e \<Rightarrow> w | Inr w' \<Rightarrow> w')"

definition transactAll :: "'l Env \<Rightarrow> (Ctx \<times> call) list \<Rightarrow> 'l World \<Rightarrow> 'l World" where
  "transactAll env txs w = foldl (\<lambda>w' tx. transact env tx w') w txs"

section \<open>A concrete deployment for evaluation\<close>

text \<open>
  An environment to run the model in: the order hash is read off the salt, a signature
  recovers to the address given by its first byte (and does not recover when it is empty),
  and the token ledger is the list of the token calls executed, every call succeeding.
\<close>

definition demo_env :: "token_call list Env" where
  "demo_env =
     \<lparr>getLimitOrderHash = (\<lambda>ord. LimitOrder.salt ord),
      getRfqOrderHash = (\<lambda>ord. RfqOrder.salt ord),
      ECDSA_recover = (\<lambda>h sig. case sig of [] \<Rightarrow> None | b # _ \<Rightarrow> Some (ucast b)),
      tokenCall = (\<lambda>c l. Some (l @ [c])),
      this = 238\<rparr>"

definition demo_storage :: Storage where
  "demo_storage =
     \<lparr>orderHashToTakerTokenFilledAmount = (\<lambda>_. 0),
      originRegistry = (\<lambda>_ _. False),
      orderSignerRegistry = (\<lambda>_ _. False)\<rparr>"

definition demo_world :: "token_call list World" where
  "demo_world = \<lparr>stor = demo_storage, ledger = [], calls = [], events = []\<rparr>"

text \<open>The caller \<open>187\<close> at time \<open>500\<close>; the maker of the orders below is \<open>170\<close>.\<close>

definition demo_ctx :: Ctx where
  "demo_ctx = \<lparr>msg_sender = 187, tx_origin = 187, block_timestamp = 500\<rparr>"

definition maker_ctx :: Ctx where
  "maker_ctx = \<lparr>msg_sender = 170, tx_origin = 170, block_timestamp = 500\<rparr>"

definition demo_limit_order :: "uint128 \<Rightarrow> uint128 \<Rightarrow> uint128 \<Rightarrow> LimitOrder" where
  "demo_limit_order mAmount tAmount fee =
     \<lparr>LimitOrder.makerToken = 1, LimitOrder.takerToken = 2,
      LimitOrder.makerAmount = mAmount, LimitOrder.takerAmount = tAmount,
      takerTokenFeeAmount = fee,
      LimitOrder.maker = 170, LimitOrder.taker = 0, sender = 0, feeRecipient = 254,
      LimitOrder.pool = 0, LimitOrder.expiry = 1000, LimitOrder.salt = 7\<rparr>"

definition demo_rfq_order :: "uint128 \<Rightarrow> uint128 \<Rightarrow> RfqOrder" where
  "demo_rfq_order mAmount tAmount =
     \<lparr>RfqOrder.makerToken = 1, RfqOrder.takerToken = 2,
      RfqOrder.makerAmount = mAmount, RfqOrder.takerAmount = tAmount,
      RfqOrder.maker = 170, RfqOrder.taker = 0, txOrigin = 187,
      RfqOrder.pool = 0, RfqOrder.expiry = 1000, RfqOrder.salt = 9\<rparr>"

section \<open>Auxiliary notions for the statements\<close>

text \<open>
  The clamp of the specification, \<open>min(requestedAmount, takerAmount - alreadyFilled)\<close>,
  on \<open>uint128\<close>; it is the value of the conditional expression of \<open>_settleOrder\<close>.
\<close>

definition clampedFillAmount :: "uint128 \<Rightarrow> uint128 \<Rightarrow> uint128 \<Rightarrow> uint128" where
  "clampedFillAmount R T F = min R (T - F)"

text \<open>
  The \<open>SettleOrderInfo\<close> that \<open>_fillLimitOrderPrivate\<close> passes to \<open>_settleOrder\<close>, as a
  function of the order info and the parameters.
\<close>

definition limitSettleInfo :: "OrderInfo \<Rightarrow> FillLimitOrderPrivateParams \<Rightarrow> SettleOrderInfo" where
  "limitSettleInfo orderInfo params =
     (let ord = FillLimitOrderPrivateParams.order params in
      \<lparr>SettleOrderInfo.orderHash = OrderInfo.orderHash orderInfo,
       SettleOrderInfo.maker = LimitOrder.maker ord,
       payer = FillLimitOrderPrivateParams.taker params,
       SettleOrderInfo.recipient = FillLimitOrderPrivateParams.taker params,
       SettleOrderInfo.makerToken = LimitOrder.makerToken ord,
       SettleOrderInfo.takerToken = LimitOrder.takerToken ord,
       SettleOrderInfo.makerAmount = LimitOrder.makerAmount ord,
       SettleOrderInfo.takerAmount = LimitOrder.takerAmount ord,
       SettleOrderInfo.takerTokenFillAmount =
         FillLimitOrderPrivateParams.takerTokenFillAmount params,
       SettleOrderInfo.takerTokenFilledAmount = OrderInfo.takerTokenFilledAmount orderInfo\<rparr>)"

text \<open>
  The storage after the write of \<open>_settleOrder\<close>, and the two token calls it makes, for a
  settled taker amount \<open>t\<close> and maker amount \<open>m\<close>.
\<close>

definition settleWrite :: "SettleOrderInfo \<Rightarrow> uint128 \<Rightarrow> Storage \<Rightarrow> Storage" where
  "settleWrite si t st = st\<lparr>orderHashToTakerTokenFilledAmount :=
      (orderHashToTakerTokenFilledAmount st)
        (SettleOrderInfo.orderHash si := ucast (SettleOrderInfo.takerTokenFilledAmount si + t))\<rparr>"

definition takerCall :: "'l Env \<Rightarrow> SettleOrderInfo \<Rightarrow> uint128 \<Rightarrow> token_call" where
  "takerCall env si t =
     (if payer si = this env
      then Transfer (SettleOrderInfo.takerToken si) (SettleOrderInfo.maker si) (ucast t)
      else TransferFrom (SettleOrderInfo.takerToken si) (payer si) (SettleOrderInfo.maker si)
             (ucast t))"

definition makerCall :: "SettleOrderInfo \<Rightarrow> uint128 \<Rightarrow> token_call" where
  "makerCall si m = TransferFrom (SettleOrderInfo.makerToken si) (SettleOrderInfo.maker si)
     (SettleOrderInfo.recipient si) (ucast m)"

text \<open>Short names for the amounts of a settlement request.\<close>

abbreviation "siT si \<equiv> SettleOrderInfo.takerAmount si"

abbreviation "siF si \<equiv> SettleOrderInfo.takerTokenFilledAmount si"

abbreviation "siR si \<equiv> SettleOrderInfo.takerTokenFillAmount si"

abbreviation "siM si \<equiv> SettleOrderInfo.makerAmount si"

text \<open>The \<open>SettleOrderInfo\<close> that \<open>_fillRfqOrderPrivate\<close> passes to \<open>_settleOrder\<close>.\<close>

definition rfqSettleInfo :: "'l Env \<Rightarrow> OrderInfo \<Rightarrow> FillRfqOrderPrivateParams \<Rightarrow> SettleOrderInfo" where
  "rfqSettleInfo env orderInfo params =
     (let ord = FillRfqOrderPrivateParams.order params in
      \<lparr>SettleOrderInfo.orderHash = OrderInfo.orderHash orderInfo,
       SettleOrderInfo.maker = RfqOrder.maker ord,
       payer = (if useSelfBalance params then this env
                else FillRfqOrderPrivateParams.taker params),
       SettleOrderInfo.recipient = FillRfqOrderPrivateParams.recipient params,
       SettleOrderInfo.makerToken = RfqOrder.makerToken ord,
       SettleOrderInfo.takerToken = RfqOrder.takerToken ord,
       SettleOrderInfo.makerAmount = RfqOrder.makerAmount ord,
       SettleOrderInfo.takerAmount = RfqOrder.takerAmount ord,
       SettleOrderInfo.takerTokenFillAmount =
         FillRfqOrderPrivateParams.takerTokenFillAmount params,
       SettleOrderInfo.takerTokenFilledAmount = OrderInfo.takerTokenFilledAmount orderInfo\<rparr>)"

text \<open>
  None of the rejections of a fill fires: the order is \<open>Fillable\<close>, the restrictions on
  taker and sender (for an RFQ order: on origin and taker) are met, and the signature
  recovers to the maker or to a valid order signer of the maker.
\<close>

definition limitOrderChecksPass ::
  "'l Env \<Rightarrow> Ctx \<Rightarrow> FillLimitOrderPrivateParams \<Rightarrow> 'l World \<Rightarrow> bool" where
  "limitOrderChecksPass env cx params w =
     (let ord = FillLimitOrderPrivateParams.order params in
      OrderInfo.status (getLimitOrderInfo env cx (stor w) ord) = FILLABLE
      \<and> (LimitOrder.taker ord = 0
           \<or> LimitOrder.taker ord = FillLimitOrderPrivateParams.taker params)
      \<and> (LimitOrder.sender ord = 0
           \<or> LimitOrder.sender ord = FillLimitOrderPrivateParams.sender params)
      \<and> (case ECDSA_recover env (OrderInfo.orderHash (getLimitOrderInfo env cx (stor w) ord))
                 (FillLimitOrderPrivateParams.signature params) of
            None \<Rightarrow> False
          | Some signer \<Rightarrow>
              signer = LimitOrder.maker ord
              \<or> isValidOrderSigner (stor w) (LimitOrder.maker ord) signer))"

definition rfqOrderChecksPass ::
  "'l Env \<Rightarrow> Ctx \<Rightarrow> FillRfqOrderPrivateParams \<Rightarrow> 'l World \<Rightarrow> bool" where
  "rfqOrderChecksPass env cx params w =
     (let ord = FillRfqOrderPrivateParams.order params in
      OrderInfo.status (getRfqOrderInfo env cx (stor w) ord) = FILLABLE
      \<and> (txOrigin ord = tx_origin cx \<or> originRegistry (stor w) (txOrigin ord) (tx_origin cx))
      \<and> (RfqOrder.taker ord = 0
           \<or> RfqOrder.taker ord = FillRfqOrderPrivateParams.taker params)
      \<and> (case ECDSA_recover env (OrderInfo.orderHash (getRfqOrderInfo env cx (stor w) ord))
                 (FillRfqOrderPrivateParams.signature params) of
            None \<Rightarrow> False
          | Some signer \<Rightarrow>
              signer = RfqOrder.maker ord
              \<or> isValidOrderSigner (stor w) (RfqOrder.maker ord) signer))"

text \<open>The fee transfer of \<open>_fillLimitOrderPrivate\<close>.\<close>

definition feeCall :: "FillLimitOrderPrivateParams \<Rightarrow> uint128 \<Rightarrow> token_call" where
  "feeCall params fee =
     TransferFrom (LimitOrder.takerToken (FillLimitOrderPrivateParams.order params))
       (FillLimitOrderPrivateParams.taker params)
       (feeRecipient (FillLimitOrderPrivateParams.order params)) (ucast fee)"

text \<open>Short name for the taker amount in the fill results.\<close>

abbreviation "rTaken res \<equiv> FillNativeOrderResults.takerTokenFilledAmount res"

text \<open>
  What \<open>_fillLimitOrderPrivate\<close> does after \<open>_settleOrder\<close> has returned: the fee and the
  event.
\<close>

definition limitFinish ::
  "'l Env \<Rightarrow> FillLimitOrderPrivateParams \<Rightarrow> bytes32 \<Rightarrow> 'l World \<times> uint128 \<times> uint128
     \<Rightarrow> error + ('l World \<times> FillNativeOrderResults)" where
  "limitFinish env params h settled =
     (case settled of (w1, takerFilled, makerFilled) \<Rightarrow>
      let ord = FillLimitOrderPrivateParams.order params;
          results =
            \<lparr>ethProtocolFeePaid = 0,
             FillNativeOrderResults.takerTokenFilledAmount = takerFilled,
             makerTokenFilledAmount = makerFilled,
             takerTokenFeeFilledAmount = 0\<rparr>
      in
      bindE (if 0 < takerTokenFeeAmount ord then
               bindE (checked_mul takerFilled (takerTokenFeeAmount ord)) (\<lambda>product.
               bindE (checked_div product (LimitOrder.takerAmount ord)) (\<lambda>feeFilled.
               bindE (safeCall env (feeCall params feeFilled) w1)
                 (\<lambda>w2. Inr (w2, results\<lparr>takerTokenFeeFilledAmount := feeFilled\<rparr>))))
             else Inr (w1, results))
        (\<lambda>(w3, results).
      Inr (w3\<lparr>events := events w3 @
             [LimitOrderFilled h (LimitOrder.maker ord)
                (FillLimitOrderPrivateParams.taker params) (feeRecipient ord)
                (LimitOrder.makerToken ord) (LimitOrder.takerToken ord)
                (FillNativeOrderResults.takerTokenFilledAmount results)
                (makerTokenFilledAmount results)
                (takerTokenFeeFilledAmount results)
                (ethProtocolFeePaid results) (LimitOrder.pool ord)]\<rparr>,
           results)))"

text \<open>The cumulative filled amount in a fill record: its low 255 bits.\<close>

definition recordedFilled :: "Storage \<Rightarrow> bytes32 \<Rightarrow> uint256" where
  "recordedFilled st h = take_bit 255 (orderHashToTakerTokenFilledAmount st h)"

text \<open>
  The parameters with which \<open>fillLimitOrder\<close> and \<open>fillRfqOrder\<close> call the private
  functions.
\<close>

definition limitFillParams :: "Ctx \<Rightarrow> LimitOrder \<Rightarrow> bytes \<Rightarrow> uint128 \<Rightarrow> FillLimitOrderPrivateParams" where
  "limitFillParams cx ord sig fillAmount =
     \<lparr>FillLimitOrderPrivateParams.order = ord,
      FillLimitOrderPrivateParams.signature = sig,
      FillLimitOrderPrivateParams.takerTokenFillAmount = fillAmount,
      FillLimitOrderPrivateParams.taker = msg_sender cx,
      FillLimitOrderPrivateParams.sender = msg_sender cx\<rparr>"

definition rfqFillParams :: "Ctx \<Rightarrow> RfqOrder \<Rightarrow> bytes \<Rightarrow> uint128 \<Rightarrow> FillRfqOrderPrivateParams" where
  "rfqFillParams cx ord sig fillAmount =
     \<lparr>FillRfqOrderPrivateParams.order = ord,
      FillRfqOrderPrivateParams.signature = sig,
      FillRfqOrderPrivateParams.takerTokenFillAmount = fillAmount,
      FillRfqOrderPrivateParams.taker = msg_sender cx,
      useSelfBalance = False,
      FillRfqOrderPrivateParams.recipient = msg_sender cx\<rparr>"

text \<open>
  A sequence of \<open>fillLimitOrder\<close> calls of one order, each with its own call context,
  signature and requested amount, run as transactions: a call that reverts leaves the
  world as it was and settles nothing. The result is the final world together with the
  sum of the taker amounts that the calls returned. \<open>runRfqFills\<close> is the same for
  \<open>fillRfqOrder\<close>.
\<close>

fun runLimitFills ::
  "'l Env \<Rightarrow> LimitOrder \<Rightarrow> (Ctx \<times> bytes \<times> uint128) list \<Rightarrow> 'l World \<Rightarrow> 'l World \<times> nat" where
  "runLimitFills env ord [] w = (w, 0)"
| "runLimitFills env ord (f # fs) w =
     (case fillLimitOrder env (fst f) ord (fst (snd f)) (snd (snd f)) w of
        Inl e \<Rightarrow> runLimitFills env ord fs w
      | Inr r \<Rightarrow>
          (fst (runLimitFills env ord fs (fst r)),
           unat (fst (snd r)) + snd (runLimitFills env ord fs (fst r))))"

fun runRfqFills ::
  "'l Env \<Rightarrow> RfqOrder \<Rightarrow> (Ctx \<times> bytes \<times> uint128) list \<Rightarrow> 'l World \<Rightarrow> 'l World \<times> nat" where
  "runRfqFills env ord [] w = (w, 0)"
| "runRfqFills env ord (f # fs) w =
     (case fillRfqOrder env (fst f) ord (fst (snd f)) (snd (snd f)) w of
        Inl e \<Rightarrow> runRfqFills env ord fs w
      | Inr r \<Rightarrow>
          (fst (runRfqFills env ord fs (fst r)),
           unat (fst (snd r)) + snd (runRfqFills env ord fs (fst r))))"

text \<open>The demonstration world in which one unit of each demonstration order is filled.\<close>

definition demo_partly_filled_world :: "token_call list World" where
  "demo_partly_filled_world =
     demo_world\<lparr>stor := demo_storage
        \<lparr>orderHashToTakerTokenFilledAmount := (\<lambda>_. 0)(7 := 1, 9 := 1)\<rparr>\<rparr>"

text \<open>A call by \<open>187\<close> after the expiry of the demonstration orders.\<close>

definition late_ctx :: Ctx where
  "late_ctx = \<lparr>msg_sender = 187, tx_origin = 187, block_timestamp = 2000\<rparr>"

text \<open>The caller is the maker or a valid order signer of the maker.\<close>

definition authorizedToCancel :: "Storage \<Rightarrow> address \<Rightarrow> address \<Rightarrow> bool" where
  "authorizedToCancel st caller mk = (caller = mk \<or> isValidOrderSigner st mk caller)"

text \<open>The world in which the maker has cancelled both demonstration orders.\<close>

definition demo_cancelled_world :: "token_call list World" where
  "demo_cancelled_world = cancelOrderHash 9 170 (cancelOrderHash 7 170 demo_world)"

definition demo_txs :: "(Ctx \<times> call) list" where
  "demo_txs =
     [(demo_ctx, FillLimitOrder (demo_limit_order 10 3 0) [170] 1),
      (maker_ctx, CancelRfqOrder (demo_rfq_order 10 3)),
      (demo_ctx, FillRfqOrder (demo_rfq_order 10 3) [170] 2),
      (maker_ctx, RegisterAllowedRfqOrigins [187] True)]"

section \<open>Typed-data hashing, off chain and on chain\<close>

text \<open>
  The hash function itself is a parameter: \<open>keccak256\<close> maps a byte string to a digest, and
  \<open>bytes32_bytes\<close> gives the 32 bytes of a digest where it is hashed again. Everything below
  holds for every such pair, Keccak-256 among them.
\<close>

record 'h Hasher =
  keccak256 :: "bytes \<Rightarrow> 'h"
  bytes32_bytes :: "'h \<Rightarrow> bytes"

text \<open>The bytes of an ASCII string (\<open>Buffer.from(s)\<close>, and a Solidity string literal).\<close>

definition ascii :: "string \<Rightarrow> bytes" where
  "ascii s = map (\<lambda>c. of_nat (of_char c)) s"

text \<open>The \<open>n\<close> low-order bytes of a word, most significant first.\<close>

definition be_bytes :: "nat \<Rightarrow> 'a::len word \<Rightarrow> bytes" where
  "be_bytes n w = map (\<lambda>i. ucast (drop_bit (8 * i) w)) (rev [0..<n])"

text \<open>\<open>Array.prototype.join\<close>\<close>

fun join :: "string \<Rightarrow> string list \<Rightarrow> string" where
  "join sep [] = []"
| "join sep [x] = x"
| "join sep (x # y # ys) = x @ sep @ join sep (y # ys)"

text \<open>
  Hex strings as \<open>ethers\<close> reads them: \<open>isHexString\<close> accepts \<open>0x\<close> followed by hex digits,
  \<open>arrayify\<close> turns an even number of digits into bytes and throws otherwise (\<open>None\<close>),
  \<open>hexZeroPad\<close> pads the digits with zeros on the left up to the given number of bytes and
  throws on a value that is not a hex string or is too long.
\<close>

definition hexDigit :: "char \<Rightarrow> nat option" where
  "hexDigit c =
     (let n = of_char c :: nat in
      if 48 \<le> n \<and> n \<le> 57 then Some (n - 48)
      else if 97 \<le> n \<and> n \<le> 102 then Some (n - 87)
      else if 65 \<le> n \<and> n \<le> 70 then Some (n - 55)
      else None)"

fun hexBytes :: "string \<Rightarrow> bytes option" where
  "hexBytes [] = Some []"
| "hexBytes [c] = None"
| "hexBytes (a # b # r) =
     (case hexDigit a of None \<Rightarrow> None
      | Some x \<Rightarrow> (case hexDigit b of None \<Rightarrow> None
         | Some y \<Rightarrow> (case hexBytes r of None \<Rightarrow> None
            | Some bs \<Rightarrow> Some (of_nat (16 * x + y) # bs))))"

definition isHexString :: "string \<Rightarrow> bool" where
  "isHexString s = (take 2 s = ''0x'' \<and> list_all (\<lambda>c. hexDigit c \<noteq> None) (drop 2 s))"

definition arrayify :: "string \<Rightarrow> bytes option" where
  "arrayify s = (if isHexString s then hexBytes (drop 2 s) else None)"

definition hexZeroPad :: "string \<Rightarrow> nat \<Rightarrow> string option" where
  "hexZeroPad v len =
     (if \<not> isHexString v then None
      else if 2 * len + 2 < length v then None
      else Some (''0x'' @ replicate (2 * len + 2 - length v) (CHR ''0'') @ drop 2 v))"

text \<open>
  The values that \<open>solidityKeccak256\<close> is given here: a digest or a hex string for the type
  \<open>bytes32\<close>, a number for \<open>uint256\<close>. Each is packed into 32 bytes; a hex string that is
  not 32 bytes long is rejected, and so is a number that \<open>BigNumber.from\<close> does not accept
  as a safe integer, that is, one from \<open>0x1fffffffffffff\<close> on. Numbers are modelled as
  naturals.
\<close>

datatype 'h sol_value = Bytes32Digest 'h | Bytes32Hex string | Uint256 nat

fun pack_value :: "'h Hasher \<Rightarrow> 'h sol_value \<Rightarrow> bytes option" where
  "pack_value H (Bytes32Digest d) = Some (bytes32_bytes H d)"
| "pack_value H (Bytes32Hex s) =
     (case arrayify s of None \<Rightarrow> None
      | Some bs \<Rightarrow> if length bs = 32 then Some bs else None)"
| "pack_value H (Uint256 n) =
     (if n < 9007199254740991 then Some (be_bytes 32 (word_of_nat n :: uint256)) else None)"

fun solidityPack :: "'h Hasher \<Rightarrow> 'h sol_value list \<Rightarrow> bytes option" where
  "solidityPack H [] = Some []"
| "solidityPack H (v # vs) =
     (case pack_value H v of None \<Rightarrow> None
      | Some bs \<Rightarrow> (case solidityPack H vs of None \<Rightarrow> None | Some r \<Rightarrow> Some (bs @ r)))"

definition solidityKeccak256 :: "'h Hasher \<Rightarrow> 'h sol_value list \<Rightarrow> 'h option" where
  "solidityKeccak256 H vs = map_option (keccak256 H) (solidityPack H vs)"

text \<open>The off-chain hasher (\<open>eip712_utils\<close>).\<close>

record EIP712Domain =
  name :: string
  version :: string
  chainId :: nat
  verifyingContract :: string

definition AddressZero :: string where
  "AddressZero = ''0x0000000000000000000000000000000000000000''"

definition EXCHANGE_PROXY_EIP712_DOMAIN_DEFAULT :: EIP712Domain where
  "EXCHANGE_PROXY_EIP712_DOMAIN_DEFAULT =
     \<lparr>name = ''Exchange'', version = ''1.0.0'', chainId = 1,
      verifyingContract = AddressZero\<rparr>"

definition EXCHANGE_PROXY_DOMAIN_TYPEHASH :: "'h Hasher \<Rightarrow> 'h" where
  "EXCHANGE_PROXY_DOMAIN_TYPEHASH H =
     keccak256 H (ascii (concat
       [''EIP712Domain('',
        join '','' [''string name'', ''string version'', ''uint256 chainId'',
                  ''address verifyingContract''],
        '')'']))"

text \<open>
  \<open>createExchangeProxyEIP712Domain\<close>: the optional arguments override the defaults only
  when they are truthy, which an absent argument, the number 0 and the empty string are
  not.
\<close>

definition createExchangeProxyEIP712Domain :: "nat option \<Rightarrow> string option \<Rightarrow> EIP712Domain" where
  "createExchangeProxyEIP712Domain chainId' verifyingContract' =
     (let d0 = EXCHANGE_PROXY_EIP712_DOMAIN_DEFAULT;
          d1 = (case chainId' of
                  Some c \<Rightarrow> if c \<noteq> 0 then d0\<lparr>chainId := c\<rparr> else d0
                | None \<Rightarrow> d0)
      in case verifyingContract' of
           Some v \<Rightarrow> if v \<noteq> [] then d1\<lparr>verifyingContract := v\<rparr> else d1
         | None \<Rightarrow> d1)"

definition getExchangeProxyEIP712DomainHash ::
  "'h Hasher \<Rightarrow> nat option \<Rightarrow> string option \<Rightarrow> 'h option" where
  "getExchangeProxyEIP712DomainHash H chainId' verifyingContract' =
     (let domain = createExchangeProxyEIP712Domain chainId' verifyingContract' in
      case hexZeroPad (verifyingContract domain) 32 of
        None \<Rightarrow> None
      | Some padded \<Rightarrow>
          solidityKeccak256 H
            [Bytes32Digest (EXCHANGE_PROXY_DOMAIN_TYPEHASH H),
             Bytes32Digest (keccak256 H (ascii (name domain))),
             Bytes32Digest (keccak256 H (ascii (version domain))),
             Uint256 (chainId domain),
             Bytes32Hex padded])"

definition getExchangeProxyEIP712Hash ::
  "'h Hasher \<Rightarrow> 'h \<Rightarrow> nat option \<Rightarrow> string option \<Rightarrow> 'h option" where
  "getExchangeProxyEIP712Hash H structHash chainId' verifyingContract' =
     (case getExchangeProxyEIP712DomainHash H chainId' verifyingContract' of
        None \<Rightarrow> None
      | Some domainHash \<Rightarrow>
          Some (keccak256 H ([25, 1] @ bytes32_bytes H domainHash @ bytes32_bytes H structHash)))"

text \<open>
  The on-chain hasher (\<open>FixinEIP712\<close>): the domain separator that the constructor computes
  from \<open>chainid()\<close> and the exchange address with \<open>abi.encode\<close> (five 32-byte slots, the
  address left-padded), and \<open>_getEIP712Hash\<close>.
\<close>

definition EIP712_DOMAIN_SEPARATOR :: "'h Hasher \<Rightarrow> uint256 \<Rightarrow> address \<Rightarrow> 'h" where
  "EIP712_DOMAIN_SEPARATOR H chainid exchangeAddress =
     keccak256 H
       (bytes32_bytes H (keccak256 H (ascii
            (''EIP712Domain('' @ ''string name,'' @ ''string version,'' @ ''uint256 chainId,''
             @ ''address verifyingContract'' @ '')'')))
        @ bytes32_bytes H (keccak256 H (ascii ''Exchange''))
        @ bytes32_bytes H (keccak256 H (ascii ''1.0.0''))
        @ be_bytes 32 chainid
        @ be_bytes 32 (ucast exchangeAddress :: uint256))"

definition getEIP712Hash :: "'h Hasher \<Rightarrow> 'h \<Rightarrow> 'h \<Rightarrow> 'h" where
  "getEIP712Hash H separator structHash =
     keccak256 H ([25, 1] @ bytes32_bytes H separator @ bytes32_bytes H structHash)"

text \<open>The ideal hash, which never collides: the digest is the byte string itself.\<close>

definition ideal_hasher :: "bytes Hasher" where
  "ideal_hasher = \<lparr>keccak256 = (\<lambda>bs. bs), bytes32_bytes = (\<lambda>d. d)\<rparr>"

section \<open>The error monad and checked arithmetic\<close>

lemma bindE_Inr_iff: "bindE m f = Inr r \<longleftrightarrow> (\<exists>v. m = Inr v \<and> f v = Inr r)"
  by (cases m) (simp_all add: bindE_def)

lemma bindE_Inr [simp]: "bindE (Inr v) f = f v"
  by (simp add: bindE_def)

lemma bindE_Inl [simp]: "bindE (Inl e) f = Inl e"
  by (simp add: bindE_def)

lemma checked_sub_Inr: "checked_sub a b = Inr r \<longleftrightarrow> b \<le> a \<and> r = a - b"
  by (auto simp: checked_sub_def)

lemma checked_mul_Inr:
  "checked_mul a b = Inr r \<longleftrightarrow> unat a * unat b < 2 ^ LENGTH('a) \<and> r = a * b"
  for a :: "'a::len word"
  by (auto simp: checked_mul_def)

lemma checked_add_Inr:
  "checked_add a b = Inr r \<longleftrightarrow> unat a + unat b < 2 ^ LENGTH('a) \<and> r = a + b"
  for a :: "'a::len word"
  by (auto simp: checked_add_def)

lemma checked_div_Inr: "checked_div a b = Inr r \<longleftrightarrow> b \<noteq> 0 \<and> r = a div b"
  by (auto simp: checked_div_def)

lemma unat_mul_exact:
  "unat a * unat b < 2 ^ LENGTH('a) \<Longrightarrow> unat (a * b) = unat a * unat b"
  for a :: "'a::len word"
  by (simp add: unat_word_ariths)

lemma unat_add_exact:
  "unat a + unat b < 2 ^ LENGTH('a) \<Longrightarrow> unat (a + b) = unat a + unat b"
  for a :: "'a::len word"
  by (simp add: unat_word_ariths)

lemma clamp_if: "(if R < T - F then R else T - F) = clampedFillAmount R T F"
  by (auto simp: min_def clampedFillAmount_def)

lemma unat_clamped:
  "F \<le> T \<Longrightarrow> unat (clampedFillAmount R T F) = min (unat R) (unat T - unat F)"
  by (simp add: clampedFillAmount_def min_def word_le_nat_alt unat_sub)

lemma prop_div:
  fixes c M T :: "'a::len word"
  assumes "unat c * unat M < 2 ^ LENGTH('a)"
  shows "unat (c * M div T) = unat c * unat M div unat T"
  using assms by (simp add: unat_div unat_mul_exact)

lemma prop_zero_no_overflow:
  fixes c M T :: "'a::len word"
  assumes "T \<noteq> 0" "unat c * unat M div unat T = 0"
  shows "unat c * unat M < 2 ^ LENGTH('a)"
proof -
  have "unat T \<noteq> 0" using assms(1) by (simp add: unat_eq_0)
  with assms(2) have "unat c * unat M < unat T" by (simp add: div_eq_0_iff)
  also have "unat T < 2 ^ LENGTH('a)" by simp
  finally show ?thesis .
qed

section \<open>The settlement step\<close>

lemma settleOrder_noop:
  assumes "siF si \<le> siT si" "siT si \<noteq> 0"
    and "unat (clampedFillAmount (siR si) (siT si) (siF si)) * unat (siM si) div unat (siT si) = 0"
  shows "settleOrder env si w = Inr (w, 0, 0)"
proof -
  let ?c = "clampedFillAmount (siR si) (siT si) (siF si)"
  have ov: "unat ?c * unat (siM si) < 2 ^ 128"
    using prop_zero_no_overflow [OF assms(2) assms(3)] by simp
  have "unat (?c * siM si div siT si) = 0"
    using prop_div [of ?c "siM si" "siT si"] ov assms(3) by simp
  then have z: "?c * siM si div siT si = 0" by (simp add: unat_eq_0)
  show ?thesis
    using assms(1,2) ov z
    by (simp add: settleOrder_def checked_sub_def checked_mul_def checked_div_def clamp_if Let_def)
qed

lemma settleOrder_Inr_D:
  assumes "settleOrder env si w = Inr (w', t, m)"
  shows "siF si \<le> siT si"
    and "siT si \<noteq> 0"
    and "unat (clampedFillAmount (siR si) (siT si) (siF si)) * unat (siM si) < 2 ^ 128"
  using assms
  by (auto simp: settleOrder_def bindE_Inr_iff checked_sub_Inr checked_mul_Inr checked_div_Inr
      Let_def clamp_if split: if_splits)

lemma settleOrder_Inr_settle:
  assumes "settleOrder env si w = Inr (w', t, m)"
    and "unat (clampedFillAmount (siR si) (siT si) (siF si)) * unat (siM si) div unat (siT si) \<noteq> 0"
  shows "t = clampedFillAmount (siR si) (siT si) (siF si)"
    and "unat m = unat t * unat (siM si) div unat (siT si)"
    and "stor w' = settleWrite si t (stor w)"
    and "calls w' = calls w @ [(takerCall env si t, settleWrite si t (stor w)),
                               (makerCall si m, settleWrite si t (stor w))]"
    and "events w' = events w"
    and "unat (siF si) + unat t \<le> unat (siT si)"
proof -
  let ?c = "clampedFillAmount (siR si) (siT si) (siF si)"
  note D = settleOrder_Inr_D [OF assms(1)]
  have pd: "unat (?c * siM si div siT si) = unat ?c * unat (siM si) div unat (siT si)"
    using prop_div [of ?c "siM si" "siT si"] D(3) by simp
  with assms(2) have nz: "?c * siM si div siT si \<noteq> 0" by (auto simp: unat_eq_0)
  have cnz: "?c \<noteq> 0" using assms(2) by auto
  have le: "unat (siF si) + unat ?c \<le> unat (siT si)"
    using D(1) by (simp add: unat_clamped word_le_nat_alt)
  have lt: "unat (siF si) + unat ?c < 2 ^ 128"
    using le unsigned_less [of "siT si", where 'a = nat] by simp
  from assms(1) D(1,2) D(3) nz cnz lt
  have R: "bindE (safeCall env (takerCall env si ?c) (w\<lparr>stor := settleWrite si ?c (stor w)\<rparr>))
            (\<lambda>w2. bindE (safeCall env (makerCall si (?c * siM si div siT si)) w2)
               (\<lambda>w3. Inr (w3, ?c, ?c * siM si div siT si))) = Inr (w', t, m)"
    by (simp add: settleOrder_def checked_sub_def checked_mul_def checked_div_def
        checked_add_def clamp_if Let_def takerCall_def makerCall_def settleWrite_def
        split: if_splits)
  then show "t = ?c"
    by (auto simp: bindE_Inr_iff)
  from R show "unat m = unat t * unat (siM si) div unat (siT si)"
    using pd by (auto simp: bindE_Inr_iff)
  from R show "stor w' = settleWrite si t (stor w)"
    by (auto simp: bindE_Inr_iff safeCall_def split: option.splits)
  from R show "calls w' = calls w @ [(takerCall env si t, settleWrite si t (stor w)),
                               (makerCall si m, settleWrite si t (stor w))]"
    by (auto simp: bindE_Inr_iff safeCall_def split: option.splits)
  from R show "events w' = events w"
    by (auto simp: bindE_Inr_iff safeCall_def split: option.splits)
  from R le show "unat (siF si) + unat t \<le> unat (siT si)"
    by (auto simp: bindE_Inr_iff)
qed

lemma settleOrder_Inr_noop:
  assumes "settleOrder env si w = Inr (w', t, m)"
    and "unat (clampedFillAmount (siR si) (siT si) (siF si)) * unat (siM si) div unat (siT si) = 0"
  shows "w' = w \<and> t = 0 \<and> m = 0"
  using settleOrder_noop [OF settleOrder_Inr_D(1,2) [OF assms(1)] assms(2), of env w] assms(1)
  by simp

section \<open>Fills that pass the checks\<close>

lemma fillRfqOrderPrivate_Inr_D:
  assumes "fillRfqOrderPrivate env cx params w = Inr (w', res)"
  shows "rfqOrderChecksPass env cx params w"
    and "\<exists>w1. settleOrder env
            (rfqSettleInfo env (getRfqOrderInfo env cx (stor w)
               (FillRfqOrderPrivateParams.order params)) params) w
          = Inr (w1, rTaken res, makerTokenFilledAmount res)
          \<and> stor w' = stor w1 \<and> calls w' = calls w1 \<and> ledger w' = ledger w1"
  using assms
  by (auto simp: fillRfqOrderPrivate_def rfqOrderChecksPass_def rfqSettleInfo_def Let_def
      bindE_Inr_iff split: if_splits option.splits)

lemma bindE_cong_Inr: "(\<And>v. m = Inr v \<Longrightarrow> f v = g v) \<Longrightarrow> bindE m f = bindE m g"
  by (cases m) simp_all

lemma fillLimitOrderPrivate_pass:
  assumes "limitOrderChecksPass env cx params w"
  shows "fillLimitOrderPrivate env cx params w =
     bindE (settleOrder env
              (limitSettleInfo (getLimitOrderInfo env cx (stor w)
                 (FillLimitOrderPrivateParams.order params)) params) w)
       (limitFinish env params
          (OrderInfo.orderHash (getLimitOrderInfo env cx (stor w)
             (FillLimitOrderPrivateParams.order params))))"
proof -
  let ?ord = "FillLimitOrderPrivateParams.order params"
  let ?info = "getLimitOrderInfo env cx (stor w) ?ord"
  obtain signer where
    sg: "ECDSA_recover env (OrderInfo.orderHash ?info)
       (FillLimitOrderPrivateParams.signature params) = Some signer"
    and c4: "(signer \<noteq> LimitOrder.maker ?ord
         \<and> \<not> isValidOrderSigner (stor w) (LimitOrder.maker ?ord) signer) = False"
    using assms by (auto simp: limitOrderChecksPass_def Let_def split: option.splits)
  have c1: "(OrderInfo.status ?info \<noteq> FILLABLE) = False"
    and c2: "(LimitOrder.taker ?ord \<noteq> 0
           \<and> LimitOrder.taker ?ord \<noteq> FillLimitOrderPrivateParams.taker params) = False"
    and c3: "(LimitOrder.sender ?ord \<noteq> 0
           \<and> LimitOrder.sender ?ord \<noteq> FillLimitOrderPrivateParams.sender params) = False"
    using assms by (auto simp: limitOrderChecksPass_def Let_def)
  have "fillLimitOrderPrivate env cx params w =
     bindE (settleOrder env (limitSettleInfo ?info params) w)
       (\<lambda>settled. limitFinish env params (OrderInfo.orderHash ?info) settled)"
    unfolding fillLimitOrderPrivate_def Let_def limitSettleInfo_def
    apply (simp only: c1 c2 c3 c4 sg if_False option.case)
    apply (rule bindE_cong_Inr)
    apply (simp add: limitFinish_def feeCall_def Let_def split: prod.splits)
    done
  then show ?thesis by simp
qed

lemma fillRfqOrderPrivate_pass:
  assumes "rfqOrderChecksPass env cx params w"
  shows "fillRfqOrderPrivate env cx params w =
     bindE (settleOrder env
              (rfqSettleInfo env (getRfqOrderInfo env cx (stor w)
                 (FillRfqOrderPrivateParams.order params)) params) w)
       (\<lambda>(w1, takerFilled, makerFilled).
          Inr (w1\<lparr>events := events w1 @
                 [RfqOrderFilled
                    (OrderInfo.orderHash (getRfqOrderInfo env cx (stor w)
                       (FillRfqOrderPrivateParams.order params)))
                    (RfqOrder.maker (FillRfqOrderPrivateParams.order params))
                    (FillRfqOrderPrivateParams.taker params)
                    (RfqOrder.makerToken (FillRfqOrderPrivateParams.order params))
                    (RfqOrder.takerToken (FillRfqOrderPrivateParams.order params))
                    takerFilled makerFilled
                    (RfqOrder.pool (FillRfqOrderPrivateParams.order params))]\<rparr>,
               \<lparr>ethProtocolFeePaid = 0,
                FillNativeOrderResults.takerTokenFilledAmount = takerFilled,
                makerTokenFilledAmount = makerFilled,
                takerTokenFeeFilledAmount = 0\<rparr>))"
proof -
  let ?ord = "FillRfqOrderPrivateParams.order params"
  let ?info = "getRfqOrderInfo env cx (stor w) ?ord"
  obtain signer where
    sg: "ECDSA_recover env (OrderInfo.orderHash ?info)
       (FillRfqOrderPrivateParams.signature params) = Some signer"
    and c4: "(signer \<noteq> RfqOrder.maker ?ord
         \<and> \<not> isValidOrderSigner (stor w) (RfqOrder.maker ?ord) signer) = False"
    using assms by (auto simp: rfqOrderChecksPass_def Let_def split: option.splits)
  have c1: "(OrderInfo.status ?info \<noteq> FILLABLE) = False"
    and c2: "(txOrigin ?ord \<noteq> tx_origin cx
           \<and> \<not> originRegistry (stor w) (txOrigin ?ord) (tx_origin cx)) = False"
    and c3: "(RfqOrder.taker ?ord \<noteq> 0
           \<and> RfqOrder.taker ?ord \<noteq> FillRfqOrderPrivateParams.taker params) = False"
    using assms by (auto simp: rfqOrderChecksPass_def Let_def)
  show ?thesis
    unfolding fillRfqOrderPrivate_def Let_def rfqSettleInfo_def
    by (simp only: c1 c2 c3 c4 sg if_False option.case)
qed

lemma fillLimitOrderPrivate_Inr_pass:
  assumes "fillLimitOrderPrivate env cx params w = Inr r"
  shows "limitOrderChecksPass env cx params w"
  using assms
  by (auto simp: fillLimitOrderPrivate_def limitOrderChecksPass_def Let_def
      split: if_splits option.splits)

lemma limitFinish_Inr_D:
  assumes "limitFinish env params h (w1, t, m) = Inr (w', res)"
  shows "rTaken res = t" "makerTokenFilledAmount res = m"
    and "stor w' = stor w1"
    and "unat (takerTokenFeeFilledAmount res)
              = unat t * unat (takerTokenFeeAmount (FillLimitOrderPrivateParams.order params))
                div unat (LimitOrder.takerAmount (FillLimitOrderPrivateParams.order params))"
    and "calls w' = calls w1 @
               (if 0 < takerTokenFeeAmount (FillLimitOrderPrivateParams.order params)
                then [(feeCall params (takerTokenFeeFilledAmount res), stor w1)] else [])"
proof -
  let ?P = "takerTokenFeeAmount (FillLimitOrderPrivateParams.order params)"
  let ?T = "LimitOrder.takerAmount (FillLimitOrderPrivateParams.order params)"
  show "rTaken res = t" "makerTokenFilledAmount res = m" "stor w' = stor w1"
    using assms
    by (auto simp: limitFinish_def Let_def bindE_Inr_iff safeCall_def
        split: if_splits option.splits)
  show "unat (takerTokenFeeFilledAmount res) = unat t * unat ?P div unat ?T"
  proof (cases "0 < ?P")
    case True
    with assms have "unat t * unat ?P < 2 ^ 128" "takerTokenFeeFilledAmount res = t * ?P div ?T"
      by (auto simp: limitFinish_def Let_def bindE_Inr_iff checked_mul_Inr checked_div_Inr
          safeCall_def split: option.splits)
    then show ?thesis using prop_div [of t ?P ?T] by simp
  next
    case False
    then have "?P = 0" by (simp add: word_gt_0)
    with assms show ?thesis
      by (auto simp: limitFinish_def Let_def)
  qed
  show "calls w' = calls w1 @
               (if 0 < ?P then [(feeCall params (takerTokenFeeFilledAmount res), stor w1)] else [])"
    using assms
    by (auto simp: limitFinish_def Let_def bindE_Inr_iff safeCall_def
        split: if_splits option.splits)
qed

section \<open>The recorded amount stays within the taker amount\<close>

lemma resolve_hash [simp]: "OrderInfo.orderHash (resolveOrderInfo h T e cx st) = h"
  by (simp add: resolveOrderInfo_def Let_def)

lemma resolve_FILLABLE_D:
  assumes "OrderInfo.status (resolveOrderInfo h T e cx st) = FILLABLE"
  shows "T \<noteq> 0"
    and "orderHashToTakerTokenFilledAmount st h AND HIGH_BIT = 0"
    and "OrderInfo.takerTokenFilledAmount (resolveOrderInfo h T e cx st) < T"
    and "OrderInfo.takerTokenFilledAmount (resolveOrderInfo h T e cx st)
           = ucast (take_bit 255 (orderHashToTakerTokenFilledAmount st h))"
    and "unat (block_timestamp cx) < unat e"
  using assms
  by (auto simp: resolveOrderInfo_def Let_def split: if_splits)

lemma recorded_after_write:
  fixes x :: uint128
  shows "unat (take_bit 255 (ucast x :: uint256)) = unat x"
proof -
  have "unat x < 2 ^ 128"
    using unsigned_less [of x, where 'a = nat] by simp
  then have "unat x < 2 ^ 255" "unat x < 2 ^ 256"
    by simp_all
  then show ?thesis
    by (simp add: unsigned_take_bit_eq unsigned_ucast_eq take_bit_nat_eq_self)
qed

lemma settleOrder_bound:
  assumes "settleOrder env si w = Inr (w', t, m)"
    and "unat (recordedFilled (stor w) (SettleOrderInfo.orderHash si)) \<le> unat (siT si)"
  shows "unat (recordedFilled (stor w') (SettleOrderInfo.orderHash si)) \<le> unat (siT si)"
proof (cases "unat (clampedFillAmount (siR si) (siT si) (siF si)) * unat (siM si)
               div unat (siT si) = 0")
  case True
  then show ?thesis using settleOrder_Inr_noop [OF assms(1)] assms(2) by simp
next
  case False
  note S = settleOrder_Inr_settle [OF assms(1) False]
  have "unat (siF si + t) = unat (siF si) + unat t"
    using S(6) unsigned_less [of "siT si", where 'a = nat]
    by (intro unat_add_exact) simp
  then show ?thesis
    using S(3) S(6)
    by (simp add: recordedFilled_def settleWrite_def recorded_after_write)
qed

lemma fillLimitOrder_unfold:
  "fillLimitOrder env cx ord sig amt w =
     bindE (fillLimitOrderPrivate env cx (limitFillParams cx ord sig amt) w)
       (\<lambda>(w', results). Inr (w', rTaken results, makerTokenFilledAmount results))"
  by (simp add: fillLimitOrder_def limitFillParams_def)

lemma fillRfqOrder_unfold:
  "fillRfqOrder env cx ord sig amt w =
     bindE (fillRfqOrderPrivate env cx (rfqFillParams cx ord sig amt) w)
       (\<lambda>(w', results). Inr (w', rTaken results, makerTokenFilledAmount results))"
  by (simp add: fillRfqOrder_def rfqFillParams_def)

lemma limit_si_simps [simp]:
  "SettleOrderInfo.orderHash (limitSettleInfo info params) = OrderInfo.orderHash info"
  "siT (limitSettleInfo info params) = LimitOrder.takerAmount (FillLimitOrderPrivateParams.order params)"
  "siM (limitSettleInfo info params) = LimitOrder.makerAmount (FillLimitOrderPrivateParams.order params)"
  "siF (limitSettleInfo info params) = OrderInfo.takerTokenFilledAmount info"
  "siR (limitSettleInfo info params) = FillLimitOrderPrivateParams.takerTokenFillAmount params"
  by (simp_all add: limitSettleInfo_def Let_def)

lemma rfq_si_simps [simp]:
  "SettleOrderInfo.orderHash (rfqSettleInfo env info params) = OrderInfo.orderHash info"
  "siT (rfqSettleInfo env info params) = RfqOrder.takerAmount (FillRfqOrderPrivateParams.order params)"
  "siM (rfqSettleInfo env info params) = RfqOrder.makerAmount (FillRfqOrderPrivateParams.order params)"
  "siF (rfqSettleInfo env info params) = OrderInfo.takerTokenFilledAmount info"
  "siR (rfqSettleInfo env info params) = FillRfqOrderPrivateParams.takerTokenFillAmount params"
  by (simp_all add: rfqSettleInfo_def Let_def)

lemma fillLimitOrderPrivate_bound:
  assumes "fillLimitOrderPrivate env cx params w = Inr (w', res)"
    and "unat (recordedFilled (stor w) (getLimitOrderHash env (FillLimitOrderPrivateParams.order params)))
          \<le> unat (LimitOrder.takerAmount (FillLimitOrderPrivateParams.order params))"
  shows "unat (recordedFilled (stor w') (getLimitOrderHash env (FillLimitOrderPrivateParams.order params)))
          \<le> unat (LimitOrder.takerAmount (FillLimitOrderPrivateParams.order params))"
proof -
  let ?info = "getLimitOrderInfo env cx (stor w) (FillLimitOrderPrivateParams.order params)"
  have h: "OrderInfo.orderHash ?info = getLimitOrderHash env (FillLimitOrderPrivateParams.order params)"
    by (simp add: getLimitOrderInfo_def)
  from assms(1) fillLimitOrderPrivate_pass [OF fillLimitOrderPrivate_Inr_pass [OF assms(1)]]
  obtain w1 t m where s: "settleOrder env (limitSettleInfo ?info params) w = Inr (w1, t, m)"
    and f: "limitFinish env params (OrderInfo.orderHash ?info) (w1, t, m) = Inr (w', res)"
    by (auto simp: bindE_Inr_iff)
  from settleOrder_bound [OF s] assms(2) h limitFinish_Inr_D(3) [OF f]
  show ?thesis by simp
qed

lemma fillRfqOrderPrivate_bound:
  assumes "fillRfqOrderPrivate env cx params w = Inr (w', res)"
    and "unat (recordedFilled (stor w) (getRfqOrderHash env (FillRfqOrderPrivateParams.order params)))
          \<le> unat (RfqOrder.takerAmount (FillRfqOrderPrivateParams.order params))"
  shows "unat (recordedFilled (stor w') (getRfqOrderHash env (FillRfqOrderPrivateParams.order params)))
          \<le> unat (RfqOrder.takerAmount (FillRfqOrderPrivateParams.order params))"
proof -
  let ?info = "getRfqOrderInfo env cx (stor w) (FillRfqOrderPrivateParams.order params)"
  have h: "OrderInfo.orderHash ?info = getRfqOrderHash env (FillRfqOrderPrivateParams.order params)"
    by (simp add: getRfqOrderInfo_def)
  from fillRfqOrderPrivate_Inr_D(2) [OF assms(1)]
  obtain w1 where s: "settleOrder env (rfqSettleInfo env ?info params) w
       = Inr (w1, rTaken res, makerTokenFilledAmount res)" and "stor w' = stor w1"
    by auto
  from settleOrder_bound [OF s] assms(2) h \<open>stor w' = stor w1\<close>
  show ?thesis by simp
qed

lemma transact_fillLimit_bound:
  assumes "unat (recordedFilled (stor w) (getLimitOrderHash env ord)) \<le> unat (LimitOrder.takerAmount ord)"
  shows "unat (recordedFilled (stor (transact env (cx, FillLimitOrder ord sig amt) w))
           (getLimitOrderHash env ord)) \<le> unat (LimitOrder.takerAmount ord)"
proof (cases "fillLimitOrderPrivate env cx (limitFillParams cx ord sig amt) w")
  case (Inl e)
  then show ?thesis using assms by (simp add: transact_def fillLimitOrder_unfold)
next
  case (Inr r)
  obtain w' res where r: "r = (w', res)" by (cases r)
  have "unat (recordedFilled (stor w') (getLimitOrderHash env ord)) \<le> unat (LimitOrder.takerAmount ord)"
    using fillLimitOrderPrivate_bound [OF Inr [unfolded r]] assms
    by (simp add: limitFillParams_def)
  then show ?thesis using Inr r by (simp add: transact_def fillLimitOrder_unfold)
qed

lemma transact_fillRfq_bound:
  assumes "unat (recordedFilled (stor w) (getRfqOrderHash env ord)) \<le> unat (RfqOrder.takerAmount ord)"
  shows "unat (recordedFilled (stor (transact env (cx, FillRfqOrder ord sig amt) w))
           (getRfqOrderHash env ord)) \<le> unat (RfqOrder.takerAmount ord)"
proof (cases "fillRfqOrderPrivate env cx (rfqFillParams cx ord sig amt) w")
  case (Inl e)
  then show ?thesis using assms by (simp add: transact_def fillRfqOrder_unfold)
next
  case (Inr r)
  obtain w' res where r: "r = (w', res)" by (cases r)
  have "unat (recordedFilled (stor w') (getRfqOrderHash env ord)) \<le> unat (RfqOrder.takerAmount ord)"
    using fillRfqOrderPrivate_bound [OF Inr [unfolded r]] assms
    by (simp add: rfqFillParams_def)
  then show ?thesis using Inr r by (simp add: transact_def fillRfqOrder_unfold)
qed

lemma limit_fills_bound:
  assumes "unat (recordedFilled (stor w) (getLimitOrderHash env ord)) \<le> unat (LimitOrder.takerAmount ord)"
  shows "unat (recordedFilled
           (stor (transactAll env (map (\<lambda>(cx, sig, amt). (cx, FillLimitOrder ord sig amt)) fills) w))
           (getLimitOrderHash env ord)) \<le> unat (LimitOrder.takerAmount ord)"
  using assms
proof (induction fills arbitrary: w)
  case Nil
  then show ?case by (simp add: transactAll_def)
next
  case (Cons f fills)
  obtain cx sig amt where f: "f = (cx, sig, amt)" by (cases f)
  from Cons.IH [OF transact_fillLimit_bound [OF Cons.prems, of cx sig amt]]
  show ?case by (simp add: transactAll_def f)
qed

lemma rfq_fills_bound:
  assumes "unat (recordedFilled (stor w) (getRfqOrderHash env ord)) \<le> unat (RfqOrder.takerAmount ord)"
  shows "unat (recordedFilled
           (stor (transactAll env (map (\<lambda>(cx, sig, amt). (cx, FillRfqOrder ord sig amt)) fills) w))
           (getRfqOrderHash env ord)) \<le> unat (RfqOrder.takerAmount ord)"
  using assms
proof (induction fills arbitrary: w)
  case Nil
  then show ?case by (simp add: transactAll_def)
next
  case (Cons f fills)
  obtain cx sig amt where f: "f = (cx, sig, amt)" by (cases f)
  from Cons.IH [OF transact_fillRfq_bound [OF Cons.prems, of cx sig amt]]
  show ?case by (simp add: transactAll_def f)
qed

section \<open>Claim C1: the clamp\<close>

lemmas demo_defs = demo_env_def demo_storage_def demo_world_def demo_ctx_def maker_ctx_def
  demo_limit_order_def demo_rfq_order_def
lemmas eval_defs = fillLimitOrder_def fillLimitOrderPrivate_def getLimitOrderInfo_def
  resolveOrderInfo_def settleOrder_def bindE_def checked_add_def checked_sub_def
  checked_mul_def checked_div_def safeCall_def Let_def HIGH_BIT_def isValidOrderSigner_def
  fillRfqOrder_def fillRfqOrderPrivate_def getRfqOrderInfo_def

text \<open>
  Claim C1 as stated fails where the clamped amount is positive but the proportional maker
  amount rounds down to zero: with taker amount 3, maker amount 1, nothing filled and a
  request of 1, the clamp \<open>min(1, 3 - 0)\<close> is 1, yet the fill returns a taker amount of 0.
\<close>

theorem C1_counterexample:
  "fillLimitOrder demo_env demo_ctx (demo_limit_order 1 3 0) [170] 1 demo_world
     = Inr (demo_world\<lparr>events := [LimitOrderFilled 7 170 187 254 1 2 0 0 0 0 0]\<rparr>, 0, 0)
   \<and> OrderInfo.takerTokenFilledAmount
        (getLimitOrderInfo demo_env demo_ctx (stor demo_world) (demo_limit_order 1 3 0)) = 0
   \<and> min (1 :: uint128) (3 - 0) = 1"
  by (simp add: eval_defs demo_defs)

lemma fillLimitOrder_Inr_D:
  assumes "fillLimitOrder env cx ord sig amt w = Inr (w', t, m)"
  shows "\<exists>res. fillLimitOrderPrivate env cx (limitFillParams cx ord sig amt) w = Inr (w', res)
           \<and> FillNativeOrderResults.takerTokenFilledAmount res = t
           \<and> makerTokenFilledAmount res = m"
  using assms by (auto simp: fillLimitOrder_unfold bindE_Inr_iff)

lemma fillRfqOrder_Inr_D:
  assumes "fillRfqOrder env cx ord sig amt w = Inr (w', t, m)"
  shows "\<exists>res. fillRfqOrderPrivate env cx (rfqFillParams cx ord sig amt) w = Inr (w', res)
           \<and> FillNativeOrderResults.takerTokenFilledAmount res = t
           \<and> makerTokenFilledAmount res = m"
  using assms by (auto simp: fillRfqOrder_unfold bindE_Inr_iff)

lemma settleOrder_result:
  assumes s: "settleOrder env si w = Inr (w', t, m)"
  shows "t = (if unat (clampedFillAmount (siR si) (siT si) (siF si)) * unat (siM si)
                 div unat (siT si) = 0
              then 0 else clampedFillAmount (siR si) (siT si) (siF si))"
    and "unat (siF si) + unat t \<le> unat (siT si)"
    and "orderHashToTakerTokenFilledAmount (stor w') (SettleOrderInfo.orderHash si)
          = (if t = 0
             then orderHashToTakerTokenFilledAmount (stor w) (SettleOrderInfo.orderHash si)
             else ucast (siF si + t))"
    and "t = 0 \<longrightarrow> stor w' = stor w"
proof -
  let ?c = "clampedFillAmount (siR si) (siT si) (siF si)"
  have le: "siF si \<le> siT si" by (rule settleOrder_Inr_D(1) [OF s])
  show "t = (if unat ?c * unat (siM si) div unat (siT si) = 0 then 0 else ?c)"
    using settleOrder_Inr_noop [OF s] settleOrder_Inr_settle(1) [OF s] by auto
  show "unat (siF si) + unat t \<le> unat (siT si)"
    using settleOrder_Inr_noop [OF s] settleOrder_Inr_settle(6) [OF s] le
    by (cases "unat ?c * unat (siM si) div unat (siT si) = 0") (auto simp: word_le_nat_alt)
  show "orderHashToTakerTokenFilledAmount (stor w') (SettleOrderInfo.orderHash si)
        = (if t = 0
           then orderHashToTakerTokenFilledAmount (stor w) (SettleOrderInfo.orderHash si)
           else ucast (siF si + t))"
  proof (cases "unat ?c * unat (siM si) div unat (siT si) = 0")
    case True
    then show ?thesis using settleOrder_Inr_noop [OF s] by simp
  next
    case False
    then have "?c \<noteq> 0" by auto
    then show ?thesis
      using settleOrder_Inr_settle(1,3) [OF s False] by (simp add: settleWrite_def)
  qed
  show "t = 0 \<longrightarrow> stor w' = stor w"
  proof (cases "unat ?c * unat (siM si) div unat (siT si) = 0")
    case True
    then show ?thesis using settleOrder_Inr_noop [OF s] by simp
  next
    case False
    then have "?c \<noteq> 0" by auto
    then show ?thesis
      using settleOrder_Inr_settle(1) [OF s False] by simp
  qed
qed

lemma fillLimitOrder_result:
  assumes a: "fillLimitOrder env cx ord sig R w = Inr (w', t, m)"
  defines "F \<equiv> OrderInfo.takerTokenFilledAmount (getLimitOrderInfo env cx (stor w) ord)"
  shows "F = ucast (take_bit 255
               (orderHashToTakerTokenFilledAmount (stor w) (getLimitOrderHash env ord)))"
    and "F < LimitOrder.takerAmount ord"
    and "t = (if unat (clampedFillAmount R (LimitOrder.takerAmount ord) F)
                  * unat (LimitOrder.makerAmount ord) div unat (LimitOrder.takerAmount ord) = 0
              then 0 else clampedFillAmount R (LimitOrder.takerAmount ord) F)"
    and "unat F + unat t \<le> unat (LimitOrder.takerAmount ord)"
    and "orderHashToTakerTokenFilledAmount (stor w') (getLimitOrderHash env ord)
          = (if t = 0
             then orderHashToTakerTokenFilledAmount (stor w) (getLimitOrderHash env ord)
             else ucast (F + t))"
proof -
  let ?p = "limitFillParams cx ord sig R"
  have o: "FillLimitOrderPrivateParams.order ?p = ord"
    "FillLimitOrderPrivateParams.takerTokenFillAmount ?p = R"
    by (simp_all add: limitFillParams_def)
  let ?info = "getLimitOrderInfo env cx (stor w) ord"
  let ?si = "limitSettleInfo ?info ?p"
  from fillLimitOrder_Inr_D [OF a] obtain res
    where p: "fillLimitOrderPrivate env cx ?p w = Inr (w', res)"
      and t: "FillNativeOrderResults.takerTokenFilledAmount res = t" by blast
  from p fillLimitOrderPrivate_pass [OF fillLimitOrderPrivate_Inr_pass [OF p]] o
  obtain w1 t1 m1 where s: "settleOrder env ?si w = Inr (w1, t1, m1)"
    and f: "limitFinish env ?p (OrderInfo.orderHash ?info) (w1, t1, m1) = Inr (w', res)"
    by (auto simp: bindE_Inr_iff)
  from limitFinish_Inr_D(1,3) [OF f] t have t1: "t1 = t" and st: "stor w' = stor w1"
    by simp_all
  have "OrderInfo.status ?info = FILLABLE"
    using fillLimitOrderPrivate_Inr_pass [OF p] o
    by (simp add: limitOrderChecksPass_def Let_def)
  note D = resolve_FILLABLE_D [OF this [unfolded getLimitOrderInfo_def]]
  show "F = ucast (take_bit 255
               (orderHashToTakerTokenFilledAmount (stor w) (getLimitOrderHash env ord)))"
    using D(4) by (simp add: F_def getLimitOrderInfo_def)
  show "F < LimitOrder.takerAmount ord"
    using D(3) by (simp add: F_def getLimitOrderInfo_def)
  note S = settleOrder_result [OF s]
  have h: "OrderInfo.orderHash ?info = getLimitOrderHash env ord"
    by (simp add: getLimitOrderInfo_def)
  show "t = (if unat (clampedFillAmount R (LimitOrder.takerAmount ord) F)
                  * unat (LimitOrder.makerAmount ord) div unat (LimitOrder.takerAmount ord) = 0
              then 0 else clampedFillAmount R (LimitOrder.takerAmount ord) F)"
    using S(1) by (simp add: o t1 F_def)
  show "unat F + unat t \<le> unat (LimitOrder.takerAmount ord)"
    using S(2) by (simp add: o t1 F_def)
  show "orderHashToTakerTokenFilledAmount (stor w') (getLimitOrderHash env ord)
          = (if t = 0
             then orderHashToTakerTokenFilledAmount (stor w) (getLimitOrderHash env ord)
             else ucast (F + t))"
    using S(3) by (cases "t = 0") (simp_all add: o t1 F_def st h)
qed

lemma fillRfqOrder_result:
  assumes a: "fillRfqOrder env cx ord sig R w = Inr (w', t, m)"
  defines "F \<equiv> OrderInfo.takerTokenFilledAmount (getRfqOrderInfo env cx (stor w) ord)"
  shows "F = ucast (take_bit 255
               (orderHashToTakerTokenFilledAmount (stor w) (getRfqOrderHash env ord)))"
    and "F < RfqOrder.takerAmount ord"
    and "t = (if unat (clampedFillAmount R (RfqOrder.takerAmount ord) F)
                  * unat (RfqOrder.makerAmount ord) div unat (RfqOrder.takerAmount ord) = 0
              then 0 else clampedFillAmount R (RfqOrder.takerAmount ord) F)"
    and "unat F + unat t \<le> unat (RfqOrder.takerAmount ord)"
    and "orderHashToTakerTokenFilledAmount (stor w') (getRfqOrderHash env ord)
          = (if t = 0
             then orderHashToTakerTokenFilledAmount (stor w) (getRfqOrderHash env ord)
             else ucast (F + t))"
proof -
  let ?p = "rfqFillParams cx ord sig R"
  have o: "FillRfqOrderPrivateParams.order ?p = ord"
    "FillRfqOrderPrivateParams.takerTokenFillAmount ?p = R"
    by (simp_all add: rfqFillParams_def)
  let ?info = "getRfqOrderInfo env cx (stor w) ord"
  let ?si = "rfqSettleInfo env ?info ?p"
  from fillRfqOrder_Inr_D [OF a] obtain res
    where p: "fillRfqOrderPrivate env cx ?p w = Inr (w', res)"
      and t: "FillNativeOrderResults.takerTokenFilledAmount res = t" by blast
  from fillRfqOrderPrivate_Inr_D(2) [OF p] o t
  obtain w1 where s: "settleOrder env ?si w = Inr (w1, t, makerTokenFilledAmount res)"
    and st: "stor w' = stor w1"
    by auto
  have "OrderInfo.status ?info = FILLABLE"
    using fillRfqOrderPrivate_Inr_D(1) [OF p] o
    by (simp add: rfqOrderChecksPass_def Let_def)
  note D = resolve_FILLABLE_D [OF this [unfolded getRfqOrderInfo_def]]
  show "F = ucast (take_bit 255
               (orderHashToTakerTokenFilledAmount (stor w) (getRfqOrderHash env ord)))"
    using D(4) by (simp add: F_def getRfqOrderInfo_def)
  show "F < RfqOrder.takerAmount ord"
    using D(3) by (simp add: F_def getRfqOrderInfo_def)
  note S = settleOrder_result [OF s]
  have h: "OrderInfo.orderHash ?info = getRfqOrderHash env ord"
    by (simp add: getRfqOrderInfo_def)
  show "t = (if unat (clampedFillAmount R (RfqOrder.takerAmount ord) F)
                  * unat (RfqOrder.makerAmount ord) div unat (RfqOrder.takerAmount ord) = 0
              then 0 else clampedFillAmount R (RfqOrder.takerAmount ord) F)"
    using S(1) by (simp add: o F_def)
  show "unat F + unat t \<le> unat (RfqOrder.takerAmount ord)"
    using S(2) by (simp add: o F_def)
  show "orderHashToTakerTokenFilledAmount (stor w') (getRfqOrderHash env ord)
          = (if t = 0
             then orderHashToTakerTokenFilledAmount (stor w) (getRfqOrderHash env ord)
             else ucast (F + t))"
    using S(3) by (cases "t = 0") (simp_all add: o F_def st h)
qed

lemma recorded_step:
  fixes F t T :: uint128 and raw raw' :: uint256
  assumes F: "F = ucast (take_bit 255 raw)"
    and b: "unat (take_bit 255 raw) \<le> unat T"
    and le: "unat F + unat t \<le> unat T"
    and r: "raw' = (if t = 0 then raw else ucast (F + t))"
  shows "unat (take_bit 255 raw') = unat (take_bit 255 raw) + unat t"
proof (cases "t = 0")
  case True
  with r show ?thesis by simp
next
  case False
  have T: "unat T < 2 ^ 128"
    using unsigned_less [of T, where 'a = nat] by simp
  with b have "unat (take_bit 255 raw) < 2 ^ 128" by simp
  then have uF: "unat F = unat (take_bit 255 raw)"
    by (simp add: F unsigned_ucast_eq take_bit_nat_eq_self)
  have "unat (F + t) = unat F + unat t"
    using le T by (intro unat_add_exact) simp
  with False r uF show ?thesis
    by (simp add: recorded_after_write)
qed

lemma fillLimitOrder_recorded:
  assumes a: "fillLimitOrder env cx ord sig R w = Inr (w', t, m)"
    and b: "unat (recordedFilled (stor w) (getLimitOrderHash env ord))
              \<le> unat (LimitOrder.takerAmount ord)"
  shows "unat (recordedFilled (stor w') (getLimitOrderHash env ord))
           = unat (recordedFilled (stor w) (getLimitOrderHash env ord)) + unat t"
  using recorded_step [OF fillLimitOrder_result(1) [OF a] b [unfolded recordedFilled_def]
      fillLimitOrder_result(4) [OF a] fillLimitOrder_result(5) [OF a]]
  by (simp add: recordedFilled_def)

lemma fillRfqOrder_recorded:
  assumes a: "fillRfqOrder env cx ord sig R w = Inr (w', t, m)"
    and b: "unat (recordedFilled (stor w) (getRfqOrderHash env ord))
              \<le> unat (RfqOrder.takerAmount ord)"
  shows "unat (recordedFilled (stor w') (getRfqOrderHash env ord))
           = unat (recordedFilled (stor w) (getRfqOrderHash env ord)) + unat t"
  using recorded_step [OF fillRfqOrder_result(1) [OF a] b [unfolded recordedFilled_def]
      fillRfqOrder_result(4) [OF a] fillRfqOrder_result(5) [OF a]]
  by (simp add: recordedFilled_def)

lemma runLimitFills_world:
  "fst (runLimitFills env ord fs w)
     = transactAll env (map (\<lambda>(cx, sig, amt). (cx, FillLimitOrder ord sig amt)) fs) w"
proof (induction fs arbitrary: w)
  case Nil
  show ?case by (simp add: transactAll_def)
next
  case (Cons f fs)
  obtain cx sig amt where f: "f = (cx, sig, amt)" by (cases f)
  have IH: "fst (runLimitFills env ord fs v)
     = foldl (\<lambda>w' tx. transact env tx w') v
         (map (\<lambda>(cx, sig, amt). (cx, FillLimitOrder ord sig amt)) fs)" for v
    using Cons.IH [of v] by (simp add: transactAll_def)
  show ?case
    by (cases "fillLimitOrder env cx ord sig amt w")
      (auto simp: f transactAll_def transact_def IH)
qed

lemma runRfqFills_world:
  "fst (runRfqFills env ord fs w)
     = transactAll env (map (\<lambda>(cx, sig, amt). (cx, FillRfqOrder ord sig amt)) fs) w"
proof (induction fs arbitrary: w)
  case Nil
  show ?case by (simp add: transactAll_def)
next
  case (Cons f fs)
  obtain cx sig amt where f: "f = (cx, sig, amt)" by (cases f)
  have IH: "fst (runRfqFills env ord fs v)
     = foldl (\<lambda>w' tx. transact env tx w') v
         (map (\<lambda>(cx, sig, amt). (cx, FillRfqOrder ord sig amt)) fs)" for v
    using Cons.IH [of v] by (simp add: transactAll_def)
  show ?case
    by (cases "fillRfqOrder env cx ord sig amt w")
      (auto simp: f transactAll_def transact_def IH)
qed

lemma runLimitFills_total:
  assumes "unat (recordedFilled (stor w) (getLimitOrderHash env ord))
              \<le> unat (LimitOrder.takerAmount ord)"
  shows "unat (recordedFilled (stor (fst (runLimitFills env ord fs w))) (getLimitOrderHash env ord))
           = unat (recordedFilled (stor w) (getLimitOrderHash env ord))
             + snd (runLimitFills env ord fs w)"
  using assms
proof (induction fs arbitrary: w)
  case Nil
  show ?case by simp
next
  case (Cons f fs)
  show ?case
  proof (cases "fillLimitOrder env (fst f) ord (fst (snd f)) (snd (snd f)) w")
    case (Inl e)
    then show ?thesis using Cons.IH [OF Cons.prems] by simp
  next
    case (Inr r)
    obtain w' t m where r: "r = (w', t, m)" by (cases r)
    note a = Inr [unfolded r]
    note st = fillLimitOrder_recorded [OF a Cons.prems]
    have le: "unat (recordedFilled (stor w') (getLimitOrderHash env ord))
                \<le> unat (LimitOrder.takerAmount ord)"
      using fillLimitOrderPrivate_bound [of env "fst f" "limitFillParams (fst f) ord (fst (snd f)) (snd (snd f))" w w']
        fillLimitOrder_Inr_D [OF a] Cons.prems
      by (auto simp: limitFillParams_def)
    from Cons.IH [OF le] st show ?thesis by (simp add: Inr r)
  qed
qed

lemma runRfqFills_total:
  assumes "unat (recordedFilled (stor w) (getRfqOrderHash env ord))
              \<le> unat (RfqOrder.takerAmount ord)"
  shows "unat (recordedFilled (stor (fst (runRfqFills env ord fs w))) (getRfqOrderHash env ord))
           = unat (recordedFilled (stor w) (getRfqOrderHash env ord))
             + snd (runRfqFills env ord fs w)"
  using assms
proof (induction fs arbitrary: w)
  case Nil
  show ?case by simp
next
  case (Cons f fs)
  show ?case
  proof (cases "fillRfqOrder env (fst f) ord (fst (snd f)) (snd (snd f)) w")
    case (Inl e)
    then show ?thesis using Cons.IH [OF Cons.prems] by simp
  next
    case (Inr r)
    obtain w' t m where r: "r = (w', t, m)" by (cases r)
    note a = Inr [unfolded r]
    note st = fillRfqOrder_recorded [OF a Cons.prems]
    have le: "unat (recordedFilled (stor w') (getRfqOrderHash env ord))
                \<le> unat (RfqOrder.takerAmount ord)"
      using fillRfqOrderPrivate_bound [of env "fst f" "rfqFillParams (fst f) ord (fst (snd f)) (snd (snd f))" w w']
        fillRfqOrder_Inr_D [OF a] Cons.prems
      by (auto simp: rfqFillParams_def)
    from Cons.IH [OF le] st show ?thesis by (simp add: Inr r)
  qed
qed

text \<open>
  Claim C1, amended. Let a call of \<open>fillLimitOrder\<close> with requested amount \<open>R\<close> return,
  for an order with taker amount \<open>T\<close> and maker amount \<open>M\<close>, and let \<open>F\<close> be the
  cumulative filled amount in the fill record of the order when the call is made (the low
  255 bits of the record, as a 128-bit amount). Then \<open>F\<close> is the already-filled amount that
  the fill works with, \<open>F < T\<close>, and the returned taker amount is \<open>min(R, T - F)\<close> if the
  maker amount \<open>floor(min(R, T - F) * M / T)\<close> is non-zero, and 0 otherwise; \<open>F\<close> plus the
  returned amount does not exceed \<open>T\<close>, and the fill record afterwards is untouched if the
  returned amount is 0 and holds \<open>F\<close> plus the returned amount otherwise. The same holds
  for \<open>fillRfqOrder\<close>. Consequently, for a limit order and for an RFQ order whose recorded
  filled amount is within \<open>T\<close>, after any sequence of fill calls of that order (whoever
  calls, with whatever signature and amount, reverting or not) the recorded filled amount
  is the one before the sequence plus the sum of the taker amounts that the calls returned,
  and it is still within \<open>T\<close>.
\<close>

theorem C1_clamped_fill:
  "(fillLimitOrder env cx lord lsig R wl = Inr (wl', t, m) \<longrightarrow>
      OrderInfo.takerTokenFilledAmount (getLimitOrderInfo env cx (stor wl) lord)
        = ucast (recordedFilled (stor wl) (getLimitOrderHash env lord))
    \<and> ucast (recordedFilled (stor wl) (getLimitOrderHash env lord))
        < LimitOrder.takerAmount lord
    \<and> t = (if unat (clampedFillAmount R (LimitOrder.takerAmount lord)
                     (ucast (recordedFilled (stor wl) (getLimitOrderHash env lord))))
               * unat (LimitOrder.makerAmount lord)
               div unat (LimitOrder.takerAmount lord) = 0
            then 0
            else clampedFillAmount R (LimitOrder.takerAmount lord)
                   (ucast (recordedFilled (stor wl) (getLimitOrderHash env lord))))
    \<and> unat (ucast (recordedFilled (stor wl) (getLimitOrderHash env lord)) :: uint128)
        + unat t \<le> unat (LimitOrder.takerAmount lord)
    \<and> orderHashToTakerTokenFilledAmount (stor wl') (getLimitOrderHash env lord)
        = (if t = 0
           then orderHashToTakerTokenFilledAmount (stor wl) (getLimitOrderHash env lord)
           else ucast ((ucast (recordedFilled (stor wl) (getLimitOrderHash env lord))
                         :: uint128) + t)))
   \<and> (fillRfqOrder env cxr rord rsig Rr wr = Inr (wr', tr, mr) \<longrightarrow>
      OrderInfo.takerTokenFilledAmount (getRfqOrderInfo env cxr (stor wr) rord)
        = ucast (recordedFilled (stor wr) (getRfqOrderHash env rord))
    \<and> ucast (recordedFilled (stor wr) (getRfqOrderHash env rord))
        < RfqOrder.takerAmount rord
    \<and> tr = (if unat (clampedFillAmount Rr (RfqOrder.takerAmount rord)
                     (ucast (recordedFilled (stor wr) (getRfqOrderHash env rord))))
               * unat (RfqOrder.makerAmount rord)
               div unat (RfqOrder.takerAmount rord) = 0
            then 0
            else clampedFillAmount Rr (RfqOrder.takerAmount rord)
                   (ucast (recordedFilled (stor wr) (getRfqOrderHash env rord))))
    \<and> unat (ucast (recordedFilled (stor wr) (getRfqOrderHash env rord)) :: uint128)
        + unat tr \<le> unat (RfqOrder.takerAmount rord)
    \<and> orderHashToTakerTokenFilledAmount (stor wr') (getRfqOrderHash env rord)
        = (if tr = 0
           then orderHashToTakerTokenFilledAmount (stor wr) (getRfqOrderHash env rord)
           else ucast ((ucast (recordedFilled (stor wr) (getRfqOrderHash env rord))
                         :: uint128) + tr)))
   \<and> (unat (recordedFilled (stor ws) (getLimitOrderHash env sord))
         \<le> unat (LimitOrder.takerAmount sord) \<longrightarrow>
       fst (runLimitFills env sord lfills ws)
         = transactAll env (map (\<lambda>(cx, sig, amt). (cx, FillLimitOrder sord sig amt)) lfills) ws
     \<and> unat (recordedFilled (stor (fst (runLimitFills env sord lfills ws)))
               (getLimitOrderHash env sord))
         = unat (recordedFilled (stor ws) (getLimitOrderHash env sord))
           + snd (runLimitFills env sord lfills ws)
     \<and> unat (recordedFilled (stor (fst (runLimitFills env sord lfills ws)))
               (getLimitOrderHash env sord))
         \<le> unat (LimitOrder.takerAmount sord))
   \<and> (unat (recordedFilled (stor wq) (getRfqOrderHash env qord))
         \<le> unat (RfqOrder.takerAmount qord) \<longrightarrow>
       fst (runRfqFills env qord rfills wq)
         = transactAll env (map (\<lambda>(cx, sig, amt). (cx, FillRfqOrder qord sig amt)) rfills) wq
     \<and> unat (recordedFilled (stor (fst (runRfqFills env qord rfills wq)))
               (getRfqOrderHash env qord))
         = unat (recordedFilled (stor wq) (getRfqOrderHash env qord))
           + snd (runRfqFills env qord rfills wq)
     \<and> unat (recordedFilled (stor (fst (runRfqFills env qord rfills wq)))
               (getRfqOrderHash env qord))
         \<le> unat (RfqOrder.takerAmount qord))"
proof (intro conjI impI)
  assume a: "fillLimitOrder env cx lord lsig R wl = Inr (wl', t, m)"
  note r = fillLimitOrder_result [OF a]
  show F: "OrderInfo.takerTokenFilledAmount (getLimitOrderInfo env cx (stor wl) lord)
        = ucast (recordedFilled (stor wl) (getLimitOrderHash env lord))"
    using r(1) by (simp add: recordedFilled_def)
  show "ucast (recordedFilled (stor wl) (getLimitOrderHash env lord))
        < LimitOrder.takerAmount lord"
    using r(2) unfolding F .
  show "t = (if unat (clampedFillAmount R (LimitOrder.takerAmount lord)
                     (ucast (recordedFilled (stor wl) (getLimitOrderHash env lord))))
               * unat (LimitOrder.makerAmount lord)
               div unat (LimitOrder.takerAmount lord) = 0
            then 0
            else clampedFillAmount R (LimitOrder.takerAmount lord)
                   (ucast (recordedFilled (stor wl) (getLimitOrderHash env lord))))"
    using r(3) unfolding F .
  show "unat (ucast (recordedFilled (stor wl) (getLimitOrderHash env lord)) :: uint128)
        + unat t \<le> unat (LimitOrder.takerAmount lord)"
    using r(4) unfolding F .
  show "orderHashToTakerTokenFilledAmount (stor wl') (getLimitOrderHash env lord)
        = (if t = 0
           then orderHashToTakerTokenFilledAmount (stor wl) (getLimitOrderHash env lord)
           else ucast ((ucast (recordedFilled (stor wl) (getLimitOrderHash env lord))
                         :: uint128) + t))"
    using r(5) unfolding F .
next
  assume a: "fillRfqOrder env cxr rord rsig Rr wr = Inr (wr', tr, mr)"
  note r = fillRfqOrder_result [OF a]
  show F: "OrderInfo.takerTokenFilledAmount (getRfqOrderInfo env cxr (stor wr) rord)
        = ucast (recordedFilled (stor wr) (getRfqOrderHash env rord))"
    using r(1) by (simp add: recordedFilled_def)
  show "ucast (recordedFilled (stor wr) (getRfqOrderHash env rord))
        < RfqOrder.takerAmount rord"
    using r(2) unfolding F .
  show "tr = (if unat (clampedFillAmount Rr (RfqOrder.takerAmount rord)
                     (ucast (recordedFilled (stor wr) (getRfqOrderHash env rord))))
               * unat (RfqOrder.makerAmount rord)
               div unat (RfqOrder.takerAmount rord) = 0
            then 0
            else clampedFillAmount Rr (RfqOrder.takerAmount rord)
                   (ucast (recordedFilled (stor wr) (getRfqOrderHash env rord))))"
    using r(3) unfolding F .
  show "unat (ucast (recordedFilled (stor wr) (getRfqOrderHash env rord)) :: uint128)
        + unat tr \<le> unat (RfqOrder.takerAmount rord)"
    using r(4) unfolding F .
  show "orderHashToTakerTokenFilledAmount (stor wr') (getRfqOrderHash env rord)
        = (if tr = 0
           then orderHashToTakerTokenFilledAmount (stor wr) (getRfqOrderHash env rord)
           else ucast ((ucast (recordedFilled (stor wr) (getRfqOrderHash env rord))
                         :: uint128) + tr))"
    using r(5) unfolding F .
next
  assume b: "unat (recordedFilled (stor ws) (getLimitOrderHash env sord))
         \<le> unat (LimitOrder.takerAmount sord)"
  show w: "fst (runLimitFills env sord lfills ws)
         = transactAll env (map (\<lambda>(cx, sig, amt). (cx, FillLimitOrder sord sig amt)) lfills) ws"
    by (rule runLimitFills_world)
  show "unat (recordedFilled (stor (fst (runLimitFills env sord lfills ws)))
               (getLimitOrderHash env sord))
         = unat (recordedFilled (stor ws) (getLimitOrderHash env sord))
           + snd (runLimitFills env sord lfills ws)"
    by (rule runLimitFills_total [OF b])
  show "unat (recordedFilled (stor (fst (runLimitFills env sord lfills ws)))
               (getLimitOrderHash env sord))
         \<le> unat (LimitOrder.takerAmount sord)"
    unfolding w by (rule limit_fills_bound [OF b])
next
  assume b: "unat (recordedFilled (stor wq) (getRfqOrderHash env qord))
         \<le> unat (RfqOrder.takerAmount qord)"
  show w: "fst (runRfqFills env qord rfills wq)
         = transactAll env (map (\<lambda>(cx, sig, amt). (cx, FillRfqOrder qord sig amt)) rfills) wq"
    by (rule runRfqFills_world)
  show "unat (recordedFilled (stor (fst (runRfqFills env qord rfills wq)))
               (getRfqOrderHash env qord))
         = unat (recordedFilled (stor wq) (getRfqOrderHash env qord))
           + snd (runRfqFills env qord rfills wq)"
    by (rule runRfqFills_total [OF b])
  show "unat (recordedFilled (stor (fst (runRfqFills env qord rfills wq)))
               (getRfqOrderHash env qord))
         \<le> unat (RfqOrder.takerAmount qord)"
    unfolding w by (rule rfq_fills_bound [OF b])
qed

theorem C1_clamped_fill_witness:
  "(case fillLimitOrder demo_env demo_ctx (demo_limit_order 10 3 0) [170] 5
           demo_partly_filled_world of
      Inl e \<Rightarrow> False
    | Inr (w', t, m) \<Rightarrow>
        t = 2 \<and> t = clampedFillAmount 5 3 1
        \<and> orderHashToTakerTokenFilledAmount (stor w') 7 = 3)
   \<and> recordedFilled (stor demo_partly_filled_world) 7 = 1
   \<and> (case fillRfqOrder demo_env demo_ctx (demo_rfq_order 10 3) [170] 5
           demo_partly_filled_world of
      Inl e \<Rightarrow> False
    | Inr (w', t, m) \<Rightarrow>
        t = 2 \<and> t = clampedFillAmount 5 3 1
        \<and> orderHashToTakerTokenFilledAmount (stor w') 9 = 3)
   \<and> recordedFilled (stor demo_partly_filled_world) 9 = 1
   \<and> recordedFilled (stor demo_world) 7 = 0
   \<and> snd (runLimitFills demo_env (demo_limit_order 10 3 0)
            [(demo_ctx, [170], 2), (late_ctx, [170], 1), (demo_ctx, [170], 5),
             (demo_ctx, [170], 1)] demo_world) = 3
   \<and> unat (recordedFilled
        (stor (transactAll demo_env
           (map (\<lambda>(cx, sig, amt). (cx, FillLimitOrder (demo_limit_order 10 3 0) sig amt))
              [(demo_ctx, [170], 2), (late_ctx, [170], 1), (demo_ctx, [170], 5),
               (demo_ctx, [170], 1)]) demo_world)) 7) = 3
   \<and> recordedFilled (stor demo_world) 9 = 0
   \<and> snd (runRfqFills demo_env (demo_rfq_order 10 3)
            [(demo_ctx, [170], 2), (late_ctx, [170], 1), (demo_ctx, [170], 5),
             (demo_ctx, [170], 1)] demo_world) = 3
   \<and> unat (recordedFilled
        (stor (transactAll demo_env
           (map (\<lambda>(cx, sig, amt). (cx, FillRfqOrder (demo_rfq_order 10 3) sig amt))
              [(demo_ctx, [170], 2), (late_ctx, [170], 1), (demo_ctx, [170], 5),
               (demo_ctx, [170], 1)]) demo_world)) 9) = 3"
proof -
  let ?l = "fillLimitOrder demo_env demo_ctx (demo_limit_order 10 3 0) [170] 5
              demo_partly_filled_world"
  let ?r = "fillRfqOrder demo_env demo_ctx (demo_rfq_order 10 3) [170] 5
              demo_partly_filled_world"
  let ?fs = "[(demo_ctx, [170], 2), (late_ctx, [170], 1), (demo_ctx, [170], 5),
              (demo_ctx, [170], 1 :: uint128)]"
  have l: "?l = Inr (fst (projr ?l), 2, 6)"
    by (simp add: eval_defs demo_defs demo_partly_filled_world_def word_le_nat_alt)
  have r: "?r = Inr (fst (projr ?r), 2, 6)"
    by (simp add: eval_defs demo_defs demo_partly_filled_world_def word_le_nat_alt)
  have f: "getLimitOrderHash demo_env (demo_limit_order 10 3 0) = 7"
    "LimitOrder.takerAmount (demo_limit_order 10 3 0) = 3"
    "getRfqOrderHash demo_env (demo_rfq_order 10 3) = 9"
    "RfqOrder.takerAmount (demo_rfq_order 10 3) = 3"
    "recordedFilled (stor demo_partly_filled_world) 7 = 1"
    "recordedFilled (stor demo_partly_filled_world) 9 = 1"
    "recordedFilled (stor demo_world) 7 = 0"
    "recordedFilled (stor demo_world) 9 = 0"
    by (simp_all add: demo_defs demo_partly_filled_world_def recordedFilled_def)
  have sl: "snd (runLimitFills demo_env (demo_limit_order 10 3 0) ?fs demo_world) = 3"
    by (simp add: eval_defs demo_defs late_ctx_def word_le_nat_alt)
  have sr: "snd (runRfqFills demo_env (demo_rfq_order 10 3) ?fs demo_world) = 3"
    by (simp add: eval_defs demo_defs late_ctx_def word_le_nat_alt)
  note c = C1_clamped_fill [where env = demo_env and cx = demo_ctx and lord = "demo_limit_order 10 3 0"
        and lsig = "[170]" and R = 5 and wl = demo_partly_filled_world
        and wl' = "fst (projr ?l)" and t = 2 and m = 6
        and cxr = demo_ctx and rord = "demo_rfq_order 10 3" and rsig = "[170]" and Rr = 5
        and wr = demo_partly_filled_world and wr' = "fst (projr ?r)" and tr = 2 and mr = 6
        and ws = demo_world and sord = "demo_limit_order 10 3 0" and lfills = ?fs
        and wq = demo_world and qord = "demo_rfq_order 10 3" and rfills = ?fs]
  have bl: "unat (recordedFilled (stor demo_world)
              (getLimitOrderHash demo_env (demo_limit_order 10 3 0)))
            \<le> unat (LimitOrder.takerAmount (demo_limit_order 10 3 0))"
    and br: "unat (recordedFilled (stor demo_world)
              (getRfqOrderHash demo_env (demo_rfq_order 10 3)))
            \<le> unat (RfqOrder.takerAmount (demo_rfq_order 10 3))"
    by (simp_all add: f)
  note c1 = c [THEN conjunct1, THEN mp, OF l]
  note c2 = c [THEN conjunct2, THEN conjunct1, THEN mp, OF r]
  note c3 = c [THEN conjunct2, THEN conjunct2, THEN conjunct1, THEN mp, OF bl]
  note c4 = c [THEN conjunct2, THEN conjunct2, THEN conjunct2, THEN mp, OF br]
  have s1: "orderHashToTakerTokenFilledAmount (stor (fst (projr ?l))) 7 = 3"
    using c1 by (simp add: f)
  have s2: "orderHashToTakerTokenFilledAmount (stor (fst (projr ?r))) 9 = 3"
    using c2 by (simp add: f)
  have s3: "unat (recordedFilled
        (stor (transactAll demo_env
           (map (\<lambda>(cx, sig, amt). (cx, FillLimitOrder (demo_limit_order 10 3 0) sig amt))
              ?fs) demo_world)) 7) = 3"
    using c3 [THEN conjunct2, THEN conjunct1]
    unfolding c3 [THEN conjunct1] f sl by simp
  have s4: "unat (recordedFilled
        (stor (transactAll demo_env
           (map (\<lambda>(cx, sig, amt). (cx, FillRfqOrder (demo_rfq_order 10 3) sig amt))
              ?fs) demo_world)) 9) = 3"
    using c4 [THEN conjunct2, THEN conjunct1]
    unfolding c4 [THEN conjunct1] f sr by simp
  show ?thesis
    apply (subst l, subst r)
    apply (simp only: sum.case prod.case f sl sr)
    apply (intro conjI s1 s2 s3 s4 refl)
     apply (simp_all add: clampedFillAmount_def)
    done
qed

section \<open>Claim C2: proportional amounts\<close>

lemma settle_summary:
  assumes "settleOrder env si w = Inr (w1, t, m)"
  shows "unat m = unat t * unat (siM si) div unat (siT si)
         \<and> map fst (calls w1) = map fst (calls w)
              @ (if t = 0 then [] else [takerCall env si t, makerCall si m])"
proof (cases "unat (clampedFillAmount (siR si) (siT si) (siF si)) * unat (siM si)
               div unat (siT si) = 0")
  case True
  then show ?thesis using settleOrder_Inr_noop [OF assms] by simp
next
  case False
  note S = settleOrder_Inr_settle [OF assms False]
  from False have "clampedFillAmount (siR si) (siT si) (siF si) \<noteq> 0" by auto
  with S(1) have "t \<noteq> 0" by simp
  then show ?thesis using S(2,4) by simp
qed

text \<open>
  Claim C2. A limit-order fill that returns reports a maker amount of
  \<open>floor(t * M / T)\<close> and a fee of \<open>floor(t * P / T)\<close> for the taker amount \<open>t\<close> it settled,
  and the token calls it made are exactly the taker transfer of \<open>t\<close> and the maker transfer
  of that maker amount (none when nothing was settled), followed by the fee transfer of
  that fee when the order declares one. An RFQ fill that returns reports and transfers
  the maker amount \<open>floor(t * M / T)\<close> in the same way.
\<close>

theorem C2_proportional_amounts:
  "(fillLimitOrderPrivate env cx params w = Inr (w', res) \<longrightarrow>
      unat (makerTokenFilledAmount res)
        = unat (FillNativeOrderResults.takerTokenFilledAmount res)
          * unat (LimitOrder.makerAmount (FillLimitOrderPrivateParams.order params))
          div unat (LimitOrder.takerAmount (FillLimitOrderPrivateParams.order params))
    \<and> unat (takerTokenFeeFilledAmount res)
        = unat (FillNativeOrderResults.takerTokenFilledAmount res)
          * unat (takerTokenFeeAmount (FillLimitOrderPrivateParams.order params))
          div unat (LimitOrder.takerAmount (FillLimitOrderPrivateParams.order params))
    \<and> LimitOrder.takerAmount (FillLimitOrderPrivateParams.order params) \<noteq> 0
    \<and> map fst (calls w')
        = map fst (calls w)
          @ (if FillNativeOrderResults.takerTokenFilledAmount res = 0 then []
             else [takerCall env
                     (limitSettleInfo (getLimitOrderInfo env cx (stor w)
                        (FillLimitOrderPrivateParams.order params)) params)
                     (FillNativeOrderResults.takerTokenFilledAmount res),
                   makerCall
                     (limitSettleInfo (getLimitOrderInfo env cx (stor w)
                        (FillLimitOrderPrivateParams.order params)) params)
                     (makerTokenFilledAmount res)])
          @ (if 0 < takerTokenFeeAmount (FillLimitOrderPrivateParams.order params)
             then [feeCall params (takerTokenFeeFilledAmount res)] else []))
   \<and> (fillRfqOrderPrivate env cx rparams wr = Inr (wr', rres) \<longrightarrow>
      unat (makerTokenFilledAmount rres)
        = unat (FillNativeOrderResults.takerTokenFilledAmount rres)
          * unat (RfqOrder.makerAmount (FillRfqOrderPrivateParams.order rparams))
          div unat (RfqOrder.takerAmount (FillRfqOrderPrivateParams.order rparams))
    \<and> RfqOrder.takerAmount (FillRfqOrderPrivateParams.order rparams) \<noteq> 0
    \<and> map fst (calls wr')
        = map fst (calls wr)
          @ (if FillNativeOrderResults.takerTokenFilledAmount rres = 0 then []
             else [takerCall env
                     (rfqSettleInfo env (getRfqOrderInfo env cx (stor wr)
                        (FillRfqOrderPrivateParams.order rparams)) rparams)
                     (FillNativeOrderResults.takerTokenFilledAmount rres),
                   makerCall
                     (rfqSettleInfo env (getRfqOrderInfo env cx (stor wr)
                        (FillRfqOrderPrivateParams.order rparams)) rparams)
                     (makerTokenFilledAmount rres)]))"
proof (intro conjI impI)
  assume a: "fillLimitOrderPrivate env cx params w = Inr (w', res)"
  let ?ord = "FillLimitOrderPrivateParams.order params"
  let ?info = "getLimitOrderInfo env cx (stor w) ?ord"
  let ?si = "limitSettleInfo ?info params"
  from a fillLimitOrderPrivate_pass [OF fillLimitOrderPrivate_Inr_pass [OF a]]
  obtain w1 t m where s: "settleOrder env ?si w = Inr (w1, t, m)"
    and f: "limitFinish env params (OrderInfo.orderHash ?info) (w1, t, m) = Inr (w', res)"
    by (auto simp: bindE_Inr_iff)
  note F = limitFinish_Inr_D [OF f]
  have sm: "unat m = unat t * unat (siM ?si) div unat (siT ?si)
            \<and> map fst (calls w1) = map fst (calls w)
                 @ (if t = 0 then [] else [takerCall env ?si t, makerCall ?si m])"
    by (rule settle_summary [OF s])
  show "unat (makerTokenFilledAmount res)
        = unat (rTaken res) * unat (LimitOrder.makerAmount ?ord)
          div unat (LimitOrder.takerAmount ?ord)"
    using sm F(1,2) by simp
  show "unat (takerTokenFeeFilledAmount res)
        = unat (rTaken res) * unat (takerTokenFeeAmount ?ord)
          div unat (LimitOrder.takerAmount ?ord)"
    using F(1,4) by simp
  show "LimitOrder.takerAmount ?ord \<noteq> 0"
    using settleOrder_Inr_D(2) [OF s] by simp
  show "map fst (calls w')
        = map fst (calls w)
          @ (if rTaken res = 0 then []
             else [takerCall env ?si (rTaken res), makerCall ?si (makerTokenFilledAmount res)])
          @ (if 0 < takerTokenFeeAmount ?ord
             then [feeCall params (takerTokenFeeFilledAmount res)] else [])"
    using sm F(1,2,5) by simp
next
  assume a: "fillRfqOrderPrivate env cx rparams wr = Inr (wr', rres)"
  let ?ord = "FillRfqOrderPrivateParams.order rparams"
  let ?si = "rfqSettleInfo env (getRfqOrderInfo env cx (stor wr) ?ord) rparams"
  from fillRfqOrderPrivate_Inr_D(2) [OF a]
  obtain w1 where s: "settleOrder env ?si wr
       = Inr (w1, rTaken rres, makerTokenFilledAmount rres)" and c: "calls wr' = calls w1"
    by auto
  note sm = settle_summary [OF s]
  show "unat (makerTokenFilledAmount rres)
        = unat (rTaken rres) * unat (RfqOrder.makerAmount ?ord)
          div unat (RfqOrder.takerAmount ?ord)"
    using sm by simp
  show "RfqOrder.takerAmount ?ord \<noteq> 0"
    using settleOrder_Inr_D(2) [OF s] by simp
  show "map fst (calls wr')
        = map fst (calls wr)
          @ (if rTaken rres = 0 then []
             else [takerCall env ?si (rTaken rres), makerCall ?si (makerTokenFilledAmount rres)])"
    using sm c by simp
qed

theorem C2_proportional_amounts_witness:
  "(case fillLimitOrderPrivate demo_env demo_ctx
           (limitFillParams demo_ctx (demo_limit_order 10 3 5) [170] 1) demo_world of
      Inl e \<Rightarrow> False
    | Inr (w', res) \<Rightarrow>
        FillNativeOrderResults.takerTokenFilledAmount res = 1
        \<and> unat (makerTokenFilledAmount res) = 1 * 10 div 3
        \<and> unat (takerTokenFeeFilledAmount res) = 1 * 5 div 3
        \<and> map fst (calls w')
            = [TransferFrom 2 187 170 1, TransferFrom 1 170 187 3, TransferFrom 2 187 254 1])
   \<and> (case fillRfqOrderPrivate demo_env demo_ctx
           (rfqFillParams demo_ctx (demo_rfq_order 10 4) [170] 3) demo_world of
      Inl e \<Rightarrow> False
    | Inr (w', res) \<Rightarrow>
        FillNativeOrderResults.takerTokenFilledAmount res = 3
        \<and> unat (makerTokenFilledAmount res) = 3 * 10 div 4
        \<and> map fst (calls w') = [TransferFrom 2 187 170 3, TransferFrom 1 170 187 7])"
proof -
  let ?l = "fillLimitOrderPrivate demo_env demo_ctx
           (limitFillParams demo_ctx (demo_limit_order 10 3 5) [170] 1) demo_world"
  let ?r = "fillRfqOrderPrivate demo_env demo_ctx
           (rfqFillParams demo_ctx (demo_rfq_order 10 4) [170] 3) demo_world"
  have l: "?l = Inr (fst (projr ?l), snd (projr ?l))"
    by (simp add: eval_defs demo_defs limitFillParams_def)
  have r: "?r = Inr (fst (projr ?r), snd (projr ?r))"
    by (simp add: eval_defs demo_defs rfqFillParams_def)
  have t: "FillNativeOrderResults.takerTokenFilledAmount (snd (projr ?l)) = 1"
    "FillNativeOrderResults.takerTokenFilledAmount (snd (projr ?r)) = 3"
    by (simp_all add: eval_defs demo_defs limitFillParams_def rfqFillParams_def)
  have c: "calls demo_world = []"
    "takerTokenFeeAmount (demo_limit_order 10 3 5) = 5"
    "LimitOrder.makerAmount (demo_limit_order 10 3 5) = 10"
    "LimitOrder.takerAmount (demo_limit_order 10 3 5) = 3"
    "RfqOrder.makerAmount (demo_rfq_order 10 4) = 10"
    "RfqOrder.takerAmount (demo_rfq_order 10 4) = 4"
    "FillLimitOrderPrivateParams.order (limitFillParams demo_ctx (demo_limit_order 10 3 5) [170] 1)
       = demo_limit_order 10 3 5"
    "FillRfqOrderPrivateParams.order (rfqFillParams demo_ctx (demo_rfq_order 10 4) [170] 3)
       = demo_rfq_order 10 4"
    by (simp_all add: demo_defs limitFillParams_def rfqFillParams_def)
  have k: "takerCall demo_env (limitSettleInfo (getLimitOrderInfo demo_env demo_ctx (stor demo_world)
              (demo_limit_order 10 3 5))
              (limitFillParams demo_ctx (demo_limit_order 10 3 5) [170] 1)) x
           = TransferFrom 2 187 170 (ucast x)"
    "makerCall (limitSettleInfo (getLimitOrderInfo demo_env demo_ctx (stor demo_world)
              (demo_limit_order 10 3 5))
              (limitFillParams demo_ctx (demo_limit_order 10 3 5) [170] 1)) y
           = TransferFrom 1 170 187 (ucast y)"
    "feeCall (limitFillParams demo_ctx (demo_limit_order 10 3 5) [170] 1) z
           = TransferFrom 2 187 254 (ucast z)"
    "takerCall demo_env (rfqSettleInfo demo_env (getRfqOrderInfo demo_env demo_ctx (stor demo_world)
              (demo_rfq_order 10 4))
              (rfqFillParams demo_ctx (demo_rfq_order 10 4) [170] 3)) x
           = TransferFrom 2 187 170 (ucast x)"
    "makerCall (rfqSettleInfo demo_env (getRfqOrderInfo demo_env demo_ctx (stor demo_world)
              (demo_rfq_order 10 4))
              (rfqFillParams demo_ctx (demo_rfq_order 10 4) [170] 3)) y
           = TransferFrom 1 170 187 (ucast y)"
    for x y z
    by (simp_all add: takerCall_def makerCall_def feeCall_def limitSettleInfo_def
        rfqSettleInfo_def demo_defs limitFillParams_def rfqFillParams_def Let_def)
  have m: "makerTokenFilledAmount (snd (projr ?l)) = 3"
    "takerTokenFeeFilledAmount (snd (projr ?l)) = 1"
    "makerTokenFilledAmount (snd (projr ?r)) = 7"
    by (simp_all add: eval_defs demo_defs limitFillParams_def rfqFillParams_def)
  from C2_proportional_amounts [of demo_env demo_ctx
        "limitFillParams demo_ctx (demo_limit_order 10 3 5) [170] 1" demo_world
        "fst (projr ?l)" "snd (projr ?l)"
        "rfqFillParams demo_ctx (demo_rfq_order 10 4) [170] 3" demo_world
        "fst (projr ?r)" "snd (projr ?r)"] l r
  have "map fst (calls (fst (projr ?l)))
            = [TransferFrom 2 187 170 1, TransferFrom 1 170 187 3, TransferFrom 2 187 254 1]
        \<and> map fst (calls (fst (projr ?r)))
            = [TransferFrom 2 187 170 3, TransferFrom 1 170 187 7]"
    by (simp add: t c k m)
  then show ?thesis
    by (subst l, subst r) (simp add: t m case_prod_unfold)
qed

section \<open>Claim C3: overflow of the proportional amounts\<close>

text \<open>
  Claim C3: the arithmetic of the proportional amounts can abort. The multiplication of
  the clamped fill amount by the maker amount is carried out in \<open>uint128\<close>, under the checked
  arithmetic of Solidity 0.8, so it reverts with \<open>Panic(0x11)\<close> as soon as the product
  reaches \<open>2^128\<close>, although every operand fits in 128 bits. A full fill of a limit order
  of \<open>10^21\<close> maker units for \<open>10^21\<close> taker units passes every check of steps 1 to 3 and
  then aborts.
\<close>

theorem C3_overflow_reverts:
  "limitOrderChecksPass demo_env demo_ctx
     (limitFillParams demo_ctx
        (demo_limit_order 1000000000000000000000 1000000000000000000000 0) [170]
        1000000000000000000000) demo_world
   \<and> fillLimitOrder demo_env demo_ctx
       (demo_limit_order 1000000000000000000000 1000000000000000000000 0) [170]
       1000000000000000000000 demo_world = Inl (Panic 17)"
  by (simp add: eval_defs demo_defs limitOrderChecksPass_def limitFillParams_def)

section \<open>Claim C9: the no-op fill\<close>

lemma limit_FILLABLE_D:
  assumes "limitOrderChecksPass env cx params w"
  shows "siF (limitSettleInfo (getLimitOrderInfo env cx (stor w)
               (FillLimitOrderPrivateParams.order params)) params)
         \<le> siT (limitSettleInfo (getLimitOrderInfo env cx (stor w)
               (FillLimitOrderPrivateParams.order params)) params)"
    and "LimitOrder.takerAmount (FillLimitOrderPrivateParams.order params) \<noteq> 0"
proof -
  from assms have "OrderInfo.status (getLimitOrderInfo env cx (stor w)
               (FillLimitOrderPrivateParams.order params)) = FILLABLE"
    by (simp add: limitOrderChecksPass_def Let_def)
  note D = resolve_FILLABLE_D [OF this [unfolded getLimitOrderInfo_def]]
  show "LimitOrder.takerAmount (FillLimitOrderPrivateParams.order params) \<noteq> 0" by (rule D(1))
  show "siF (limitSettleInfo (getLimitOrderInfo env cx (stor w)
               (FillLimitOrderPrivateParams.order params)) params)
         \<le> siT (limitSettleInfo (getLimitOrderInfo env cx (stor w)
               (FillLimitOrderPrivateParams.order params)) params)"
    using D(3) by (simp add: getLimitOrderInfo_def)
qed

lemma rfq_FILLABLE_D:
  assumes "rfqOrderChecksPass env cx params w"
  shows "siF (rfqSettleInfo env (getRfqOrderInfo env cx (stor w)
               (FillRfqOrderPrivateParams.order params)) params)
         \<le> siT (rfqSettleInfo env (getRfqOrderInfo env cx (stor w)
               (FillRfqOrderPrivateParams.order params)) params)"
    and "RfqOrder.takerAmount (FillRfqOrderPrivateParams.order params) \<noteq> 0"
proof -
  from assms have "OrderInfo.status (getRfqOrderInfo env cx (stor w)
               (FillRfqOrderPrivateParams.order params)) = FILLABLE"
    by (simp add: rfqOrderChecksPass_def Let_def)
  note D = resolve_FILLABLE_D [OF this [unfolded getRfqOrderInfo_def]]
  show "RfqOrder.takerAmount (FillRfqOrderPrivateParams.order params) \<noteq> 0" by (rule D(1))
  show "siF (rfqSettleInfo env (getRfqOrderInfo env cx (stor w)
               (FillRfqOrderPrivateParams.order params)) params)
         \<le> siT (rfqSettleInfo env (getRfqOrderInfo env cx (stor w)
               (FillRfqOrderPrivateParams.order params)) params)"
    using D(3) by (simp add: getRfqOrderInfo_def)
qed

lemma limitFinish_noop:
  assumes "LimitOrder.takerAmount (FillLimitOrderPrivateParams.order params) \<noteq> 0"
  shows "limitFinish env params h (w, 0, 0) =
     bindE (if 0 < takerTokenFeeAmount (FillLimitOrderPrivateParams.order params)
            then safeCall env (feeCall params 0) w else Inr w)
       (\<lambda>w2. Inr (w2\<lparr>events := events w2 @
          [LimitOrderFilled h (LimitOrder.maker (FillLimitOrderPrivateParams.order params))
             (FillLimitOrderPrivateParams.taker params)
             (feeRecipient (FillLimitOrderPrivateParams.order params))
             (LimitOrder.makerToken (FillLimitOrderPrivateParams.order params))
             (LimitOrder.takerToken (FillLimitOrderPrivateParams.order params))
             0 0 0 0 (LimitOrder.pool (FillLimitOrderPrivateParams.order params))]\<rparr>,
          \<lparr>ethProtocolFeePaid = 0,
           FillNativeOrderResults.takerTokenFilledAmount = 0,
           makerTokenFilledAmount = 0,
           takerTokenFeeFilledAmount = 0\<rparr>))"
  using assms
  by (cases "safeCall env (feeCall params 0) w")
    (simp_all add: limitFinish_def Let_def checked_mul_def checked_div_def)

text \<open>
  Claim C9 as stated fails for a limit order that declares a fee: the settlement is a
  no-op, but the fill still calls the taker token to transfer the fee, of amount 0, to the
  fee recipient. With taker amount 3, maker amount 1, fee 5 and a request of 1 the maker
  amount \<open>floor(1 * 1 / 3)\<close> is zero, the fill returns \<open>(0, 0)\<close>, and one token call is made.
\<close>

theorem C9_counterexample:
  "fillLimitOrder demo_env demo_ctx (demo_limit_order 1 3 5) [170] 1 demo_world
     = Inr (demo_world
              \<lparr>ledger := [TransferFrom 2 187 254 0],
               calls := [(TransferFrom 2 187 254 0, demo_storage)],
               events := [LimitOrderFilled 7 170 187 254 1 2 0 0 0 0 0]\<rparr>, 0, 0)
   \<and> unat (clampedFillAmount 1 3 0) * unat (1 :: uint128) div unat (3 :: uint128) = 0"
  by (simp add: eval_defs demo_defs clampedFillAmount_def)

text \<open>
  Claim C9, amended. When a fill has passed the checks of steps 1 to 3 and the clamped
  taker amount is zero or the maker amount \<open>floor(fillAmount * makerAmount / takerAmount)\<close>
  is zero, the settlement writes nothing and transfers nothing: an RFQ fill, and a
  limit-order fill of an order without fee, succeed with \<open>(0, 0)\<close> and change nothing but
  the event log; a limit-order fill of an order with a non-zero fee is exactly the fee
  transfer of amount 0 from the taker to the fee recipient followed by the event, so it
  returns \<open>(0, 0)\<close> if that call succeeds and leaves the fill record as it was.
\<close>

theorem C9_noop_fill:
  "(rfqOrderChecksPass env cx (rfqFillParams cx rord rsig R) wr
    \<and> (clampedFillAmount R (RfqOrder.takerAmount rord)
          (OrderInfo.takerTokenFilledAmount (getRfqOrderInfo env cx (stor wr) rord)) = 0
       \<or> unat (clampedFillAmount R (RfqOrder.takerAmount rord)
                 (OrderInfo.takerTokenFilledAmount (getRfqOrderInfo env cx (stor wr) rord)))
           * unat (RfqOrder.makerAmount rord) div unat (RfqOrder.takerAmount rord) = 0)
    \<longrightarrow> fillRfqOrder env cx rord rsig R wr
          = Inr (wr\<lparr>events := events wr @
                   [RfqOrderFilled (getRfqOrderHash env rord) (RfqOrder.maker rord)
                      (msg_sender cx) (RfqOrder.makerToken rord) (RfqOrder.takerToken rord)
                      0 0 (RfqOrder.pool rord)]\<rparr>, 0, 0))
   \<and> (limitOrderChecksPass env cx (limitFillParams cx lord lsig L) wl
    \<and> (clampedFillAmount L (LimitOrder.takerAmount lord)
          (OrderInfo.takerTokenFilledAmount (getLimitOrderInfo env cx (stor wl) lord)) = 0
       \<or> unat (clampedFillAmount L (LimitOrder.takerAmount lord)
                 (OrderInfo.takerTokenFilledAmount (getLimitOrderInfo env cx (stor wl) lord)))
           * unat (LimitOrder.makerAmount lord) div unat (LimitOrder.takerAmount lord) = 0)
    \<longrightarrow> fillLimitOrder env cx lord lsig L wl
          = bindE (if 0 < takerTokenFeeAmount lord
                   then safeCall env
                          (TransferFrom (LimitOrder.takerToken lord) (msg_sender cx)
                             (feeRecipient lord) 0) wl
                   else Inr wl)
              (\<lambda>w2. Inr (w2\<lparr>events := events w2 @
                   [LimitOrderFilled (getLimitOrderHash env lord) (LimitOrder.maker lord)
                      (msg_sender cx) (feeRecipient lord)
                      (LimitOrder.makerToken lord) (LimitOrder.takerToken lord)
                      0 0 0 0 (LimitOrder.pool lord)]\<rparr>, 0, 0)))"
proof (intro conjI impI)
  assume a: "rfqOrderChecksPass env cx (rfqFillParams cx rord rsig R) wr
    \<and> (clampedFillAmount R (RfqOrder.takerAmount rord)
          (OrderInfo.takerTokenFilledAmount (getRfqOrderInfo env cx (stor wr) rord)) = 0
       \<or> unat (clampedFillAmount R (RfqOrder.takerAmount rord)
                 (OrderInfo.takerTokenFilledAmount (getRfqOrderInfo env cx (stor wr) rord)))
           * unat (RfqOrder.makerAmount rord) div unat (RfqOrder.takerAmount rord) = 0)"
  let ?p = "rfqFillParams cx rord rsig R"
  have o: "FillRfqOrderPrivateParams.order ?p = rord"
    "FillRfqOrderPrivateParams.takerTokenFillAmount ?p = R"
    "FillRfqOrderPrivateParams.taker ?p = msg_sender cx"
    by (simp_all add: rfqFillParams_def)
  let ?si = "rfqSettleInfo env (getRfqOrderInfo env cx (stor wr) rord) ?p"
  from a have pass: "rfqOrderChecksPass env cx ?p wr" by simp
  from a have z: "unat (clampedFillAmount (siR ?si) (siT ?si) (siF ?si)) * unat (siM ?si)
                    div unat (siT ?si) = 0"
    by (auto simp: o)
  have s: "settleOrder env ?si wr = Inr (wr, 0, 0)"
    using rfq_FILLABLE_D [OF pass] z by (intro settleOrder_noop) (simp_all add: o)
  show "fillRfqOrder env cx rord rsig R wr
          = Inr (wr\<lparr>events := events wr @
                   [RfqOrderFilled (getRfqOrderHash env rord) (RfqOrder.maker rord)
                      (msg_sender cx) (RfqOrder.makerToken rord) (RfqOrder.takerToken rord)
                      0 0 (RfqOrder.pool rord)]\<rparr>, 0, 0)"
    using fillRfqOrderPrivate_pass [OF pass] s
    by (simp add: fillRfqOrder_unfold o getRfqOrderInfo_def)
next
  assume a: "limitOrderChecksPass env cx (limitFillParams cx lord lsig L) wl
    \<and> (clampedFillAmount L (LimitOrder.takerAmount lord)
          (OrderInfo.takerTokenFilledAmount (getLimitOrderInfo env cx (stor wl) lord)) = 0
       \<or> unat (clampedFillAmount L (LimitOrder.takerAmount lord)
                 (OrderInfo.takerTokenFilledAmount (getLimitOrderInfo env cx (stor wl) lord)))
           * unat (LimitOrder.makerAmount lord) div unat (LimitOrder.takerAmount lord) = 0)"
  let ?p = "limitFillParams cx lord lsig L"
  have o: "FillLimitOrderPrivateParams.order ?p = lord"
    "FillLimitOrderPrivateParams.takerTokenFillAmount ?p = L"
    "FillLimitOrderPrivateParams.taker ?p = msg_sender cx"
    by (simp_all add: limitFillParams_def)
  let ?si = "limitSettleInfo (getLimitOrderInfo env cx (stor wl) lord) ?p"
  from a have pass: "limitOrderChecksPass env cx ?p wl" by simp
  from a have z: "unat (clampedFillAmount (siR ?si) (siT ?si) (siF ?si)) * unat (siM ?si)
                    div unat (siT ?si) = 0"
    by (auto simp: o)
  have s: "settleOrder env ?si wl = Inr (wl, 0, 0)"
    using limit_FILLABLE_D [OF pass] z by (intro settleOrder_noop) (simp_all add: o)
  have T: "LimitOrder.takerAmount (FillLimitOrderPrivateParams.order ?p) \<noteq> 0"
    by (rule limit_FILLABLE_D(2) [OF pass])
  show "fillLimitOrder env cx lord lsig L wl
          = bindE (if 0 < takerTokenFeeAmount lord
                   then safeCall env
                          (TransferFrom (LimitOrder.takerToken lord) (msg_sender cx)
                             (feeRecipient lord) 0) wl
                   else Inr wl)
              (\<lambda>w2. Inr (w2\<lparr>events := events w2 @
                   [LimitOrderFilled (getLimitOrderHash env lord) (LimitOrder.maker lord)
                      (msg_sender cx) (feeRecipient lord)
                      (LimitOrder.makerToken lord) (LimitOrder.takerToken lord)
                      0 0 0 0 (LimitOrder.pool lord)]\<rparr>, 0, 0))"
    using fillLimitOrderPrivate_pass [OF pass] s limitFinish_noop [OF T, of env _ wl]
    by (cases "safeCall env (TransferFrom (LimitOrder.takerToken lord) (msg_sender cx)
                             (feeRecipient lord) 0) wl")
      (simp_all add: fillLimitOrder_unfold o getLimitOrderInfo_def feeCall_def)
qed

theorem C9_noop_fill_witness:
  "rfqOrderChecksPass demo_env demo_ctx (rfqFillParams demo_ctx (demo_rfq_order 1 3) [170] 1)
     demo_world
   \<and> unat (clampedFillAmount 1 3 0) * unat (1 :: uint128) div unat (3 :: uint128) = 0
   \<and> fillRfqOrder demo_env demo_ctx (demo_rfq_order 1 3) [170] 1 demo_world
       = Inr (demo_world\<lparr>events := [RfqOrderFilled 9 170 187 1 2 0 0 0]\<rparr>, 0, 0)
   \<and> limitOrderChecksPass demo_env demo_ctx
       (limitFillParams demo_ctx (demo_limit_order 1 3 5) [170] 1) demo_world
   \<and> fillLimitOrder demo_env demo_ctx (demo_limit_order 1 3 5) [170] 1 demo_world
       = Inr (demo_world
                \<lparr>ledger := [TransferFrom 2 187 254 0],
                 calls := [(TransferFrom 2 187 254 0, demo_storage)],
                 events := [LimitOrderFilled 7 170 187 254 1 2 0 0 0 0 0]\<rparr>, 0, 0)"
proof -
  have r: "rfqOrderChecksPass demo_env demo_ctx
             (rfqFillParams demo_ctx (demo_rfq_order 1 3) [170] 1) demo_world"
    by (simp add: rfqOrderChecksPass_def rfqFillParams_def getRfqOrderInfo_def
        resolveOrderInfo_def HIGH_BIT_def isValidOrderSigner_def Let_def demo_defs)
  have l: "limitOrderChecksPass demo_env demo_ctx
             (limitFillParams demo_ctx (demo_limit_order 1 3 5) [170] 1) demo_world"
    by (simp add: limitOrderChecksPass_def limitFillParams_def getLimitOrderInfo_def
        resolveOrderInfo_def HIGH_BIT_def isValidOrderSigner_def Let_def demo_defs)
  have f: "OrderInfo.takerTokenFilledAmount
             (getRfqOrderInfo demo_env demo_ctx (stor demo_world) (demo_rfq_order 1 3)) = 0"
    "OrderInfo.takerTokenFilledAmount
             (getLimitOrderInfo demo_env demo_ctx (stor demo_world) (demo_limit_order 1 3 5)) = 0"
    by (simp_all add: getRfqOrderInfo_def getLimitOrderInfo_def resolveOrderInfo_def Let_def
        demo_defs)
  have z: "unat (clampedFillAmount 1 3 0) * unat (1 :: uint128) div unat (3 :: uint128) = 0"
    by (simp add: clampedFillAmount_def)
  have v: "RfqOrder.takerAmount (demo_rfq_order 1 3) = 3"
    "RfqOrder.makerAmount (demo_rfq_order 1 3) = 1"
    "LimitOrder.takerAmount (demo_limit_order 1 3 5) = 3"
    "LimitOrder.makerAmount (demo_limit_order 1 3 5) = 1"
    by (simp_all add: demo_defs)
  from C9_noop_fill [of demo_env demo_ctx "demo_rfq_order 1 3" "[170]" 1 demo_world
        "demo_limit_order 1 3 5" "[170]" 1 demo_world] r l z
  have "fillRfqOrder demo_env demo_ctx (demo_rfq_order 1 3) [170] 1 demo_world
       = Inr (demo_world\<lparr>events := [RfqOrderFilled 9 170 187 1 2 0 0 0]\<rparr>, 0, 0)
     \<and> fillLimitOrder demo_env demo_ctx (demo_limit_order 1 3 5) [170] 1 demo_world
       = Inr (demo_world
                \<lparr>ledger := [TransferFrom 2 187 254 0],
                 calls := [(TransferFrom 2 187 254 0, demo_storage)],
                 events := [LimitOrderFilled 7 170 187 254 1 2 0 0 0 0 0]\<rparr>, 0, 0)"
    by (simp add: f v) (simp add: demo_defs safeCall_def)
  with r l z show ?thesis by simp
qed

section \<open>Claim C4: the record is written before the transfers\<close>

lemma ucast_recorded:
  fixes x :: uint128
  shows "(ucast (take_bit 255 (ucast x :: uint256)) :: uint128) = x"
proof -
  have "unat x < 2 ^ 128"
    using unsigned_less [of x, where 'a = nat] by simp
  then have "unat (ucast (take_bit 255 (ucast x :: uint256)) :: uint128) = unat x"
    by (simp add: unsigned_ucast_eq unsigned_take_bit_eq take_bit_nat_eq_self)
  then show ?thesis by (simp add: word_unat_eq_iff)
qed

lemma settled_record_differs:
  fixes F t :: uint128
  assumes "F = ucast (take_bit 255 raw)" "t \<noteq> 0"
  shows "(ucast (F + t) :: uint256) \<noteq> raw"
proof
  assume "(ucast (F + t) :: uint256) = raw"
  with assms(1) have "F = ucast (take_bit 255 (ucast (F + t) :: uint256))" by simp
  then have "F = F + t" by (simp add: ucast_recorded)
  with assms(2) show False by simp
qed

lemma fillLimitOrderPrivate_calls:
  assumes a: "fillLimitOrderPrivate env cx params w = Inr (w', res)"
    and nz: "FillNativeOrderResults.takerTokenFilledAmount res \<noteq> 0"
  shows "\<exists>cs. calls w' = calls w @ cs \<and> cs \<noteq> []
     \<and> (\<forall>(c, st) \<in> set cs.
          orderHashToTakerTokenFilledAmount st
              (getLimitOrderHash env (FillLimitOrderPrivateParams.order params))
            = ucast (OrderInfo.takerTokenFilledAmount (getLimitOrderInfo env cx (stor w)
                       (FillLimitOrderPrivateParams.order params))
                     + FillNativeOrderResults.takerTokenFilledAmount res))"
proof -
  let ?ord = "FillLimitOrderPrivateParams.order params"
  let ?info = "getLimitOrderInfo env cx (stor w) ?ord"
  let ?si = "limitSettleInfo ?info params"
  from a fillLimitOrderPrivate_pass [OF fillLimitOrderPrivate_Inr_pass [OF a]]
  obtain w1 t m where s: "settleOrder env ?si w = Inr (w1, t, m)"
    and f: "limitFinish env params (OrderInfo.orderHash ?info) (w1, t, m) = Inr (w', res)"
    by (auto simp: bindE_Inr_iff)
  note F = limitFinish_Inr_D [OF f]
  from nz F(1) have tnz: "t \<noteq> 0" by simp
  have ns: "unat (clampedFillAmount (siR ?si) (siT ?si) (siF ?si)) * unat (siM ?si)
              div unat (siT ?si) \<noteq> 0"
    using settleOrder_Inr_noop [OF s] tnz by auto
  note S = settleOrder_Inr_settle [OF s ns]
  let ?S = "settleWrite ?si t (stor w)"
  let ?cs = "[(takerCall env ?si t, ?S), (makerCall ?si m, ?S)]
             @ (if 0 < takerTokenFeeAmount ?ord
                then [(feeCall params (takerTokenFeeFilledAmount res), ?S)] else [])"
  have "calls w' = calls w @ ?cs" using F(5) S(3,4) by simp
  moreover have "?cs \<noteq> []" by simp
  moreover have "\<forall>(c, st) \<in> set ?cs.
      orderHashToTakerTokenFilledAmount st (getLimitOrderHash env ?ord)
        = ucast (OrderInfo.takerTokenFilledAmount ?info + rTaken res)"
    using F(1) by (simp add: settleWrite_def getLimitOrderInfo_def)
  ultimately show ?thesis by blast
qed

lemma fillRfqOrderPrivate_calls:
  assumes a: "fillRfqOrderPrivate env cx params w = Inr (w', res)"
    and nz: "FillNativeOrderResults.takerTokenFilledAmount res \<noteq> 0"
  shows "\<exists>cs. calls w' = calls w @ cs \<and> cs \<noteq> []
     \<and> (\<forall>(c, st) \<in> set cs.
          orderHashToTakerTokenFilledAmount st
              (getRfqOrderHash env (FillRfqOrderPrivateParams.order params))
            = ucast (OrderInfo.takerTokenFilledAmount (getRfqOrderInfo env cx (stor w)
                       (FillRfqOrderPrivateParams.order params))
                     + FillNativeOrderResults.takerTokenFilledAmount res))"
proof -
  let ?ord = "FillRfqOrderPrivateParams.order params"
  let ?info = "getRfqOrderInfo env cx (stor w) ?ord"
  let ?si = "rfqSettleInfo env ?info params"
  from fillRfqOrderPrivate_Inr_D(2) [OF a]
  obtain w1 where s: "settleOrder env ?si w
       = Inr (w1, rTaken res, makerTokenFilledAmount res)" and c: "calls w' = calls w1"
    by auto
  have ns: "unat (clampedFillAmount (siR ?si) (siT ?si) (siF ?si)) * unat (siM ?si)
              div unat (siT ?si) \<noteq> 0"
    using settleOrder_Inr_noop [OF s] nz by auto
  note S = settleOrder_Inr_settle [OF s ns]
  let ?S = "settleWrite ?si (rTaken res) (stor w)"
  let ?cs = "[(takerCall env ?si (rTaken res), ?S), (makerCall ?si (makerTokenFilledAmount res), ?S)]"
  have "calls w' = calls w @ ?cs" using c S(4) by simp
  moreover have "?cs \<noteq> []" by simp
  moreover have "\<forall>(c, st) \<in> set ?cs.
      orderHashToTakerTokenFilledAmount st (getRfqOrderHash env ?ord)
        = ucast (OrderInfo.takerTokenFilledAmount ?info + rTaken res)"
    by (simp add: settleWrite_def getRfqOrderInfo_def)
  ultimately show ?thesis by blast
qed

text \<open>
  Claim C4. In a fill that returns a non-zero taker amount, every token call that the fill
  makes (at least one) is made when the fill record of the order already holds the
  updated cumulative amount, filled plus settled, which differs from the record the fill
  started from: the storage that a callee can observe during any transfer of the fill is
  never the pre-fill one. This holds for limit-order fills, the fee transfer included, and
  for RFQ fills.
\<close>

theorem C4_write_before_transfer:
  "(fillLimitOrder env cx lord lsig L wl = Inr (wl', t, m) \<and> t \<noteq> 0 \<longrightarrow>
      length (calls wl) < length (calls wl')
    \<and> take (length (calls wl)) (calls wl') = calls wl
    \<and> (\<forall>(c, st) \<in> set (drop (length (calls wl)) (calls wl')).
          orderHashToTakerTokenFilledAmount st (getLimitOrderHash env lord)
            = ucast (OrderInfo.takerTokenFilledAmount
                       (getLimitOrderInfo env cx (stor wl) lord) + t)
        \<and> orderHashToTakerTokenFilledAmount st (getLimitOrderHash env lord)
            \<noteq> orderHashToTakerTokenFilledAmount (stor wl) (getLimitOrderHash env lord)))
   \<and> (fillRfqOrder env cx rord rsig R wr = Inr (wr', tr, mr) \<and> tr \<noteq> 0 \<longrightarrow>
      length (calls wr) < length (calls wr')
    \<and> take (length (calls wr)) (calls wr') = calls wr
    \<and> (\<forall>(c, st) \<in> set (drop (length (calls wr)) (calls wr')).
          orderHashToTakerTokenFilledAmount st (getRfqOrderHash env rord)
            = ucast (OrderInfo.takerTokenFilledAmount
                       (getRfqOrderInfo env cx (stor wr) rord) + tr)
        \<and> orderHashToTakerTokenFilledAmount st (getRfqOrderHash env rord)
            \<noteq> orderHashToTakerTokenFilledAmount (stor wr) (getRfqOrderHash env rord)))"
proof -
  have limit: "length (calls wl) < length (calls wl')
    \<and> take (length (calls wl)) (calls wl') = calls wl
    \<and> (\<forall>(c, st) \<in> set (drop (length (calls wl)) (calls wl')).
          orderHashToTakerTokenFilledAmount st (getLimitOrderHash env lord)
            = ucast (OrderInfo.takerTokenFilledAmount
                       (getLimitOrderInfo env cx (stor wl) lord) + t)
        \<and> orderHashToTakerTokenFilledAmount st (getLimitOrderHash env lord)
            \<noteq> orderHashToTakerTokenFilledAmount (stor wl) (getLimitOrderHash env lord))"
    if a: "fillLimitOrder env cx lord lsig L wl = Inr (wl', t, m)" and nz: "t \<noteq> 0"
  proof -
    let ?p = "limitFillParams cx lord lsig L"
    have o: "FillLimitOrderPrivateParams.order ?p = lord" by (simp add: limitFillParams_def)
    from fillLimitOrder_Inr_D [OF a] obtain res
      where p: "fillLimitOrderPrivate env cx ?p wl = Inr (wl', res)"
        and t: "FillNativeOrderResults.takerTokenFilledAmount res = t" by blast
    from fillLimitOrderPrivate_calls [OF p] t nz o obtain cs
      where cs: "calls wl' = calls wl @ cs" "cs \<noteq> []"
        and st: "\<forall>(c, st) \<in> set cs.
          orderHashToTakerTokenFilledAmount st (getLimitOrderHash env lord)
            = ucast (OrderInfo.takerTokenFilledAmount
                       (getLimitOrderInfo env cx (stor wl) lord) + t)"
      by auto
    have "OrderInfo.status (getLimitOrderInfo env cx (stor wl) lord) = FILLABLE"
      using fillLimitOrderPrivate_Inr_pass [OF p] o
      by (simp add: limitOrderChecksPass_def Let_def)
    from resolve_FILLABLE_D(4) [OF this [unfolded getLimitOrderInfo_def]]
    have "ucast (OrderInfo.takerTokenFilledAmount (getLimitOrderInfo env cx (stor wl) lord) + t)
            \<noteq> orderHashToTakerTokenFilledAmount (stor wl) (getLimitOrderHash env lord)"
      using nz by (intro settled_record_differs) (simp_all add: getLimitOrderInfo_def)
    with cs st show ?thesis by auto
  qed
  have rfq: "length (calls wr) < length (calls wr')
    \<and> take (length (calls wr)) (calls wr') = calls wr
    \<and> (\<forall>(c, st) \<in> set (drop (length (calls wr)) (calls wr')).
          orderHashToTakerTokenFilledAmount st (getRfqOrderHash env rord)
            = ucast (OrderInfo.takerTokenFilledAmount
                       (getRfqOrderInfo env cx (stor wr) rord) + tr)
        \<and> orderHashToTakerTokenFilledAmount st (getRfqOrderHash env rord)
            \<noteq> orderHashToTakerTokenFilledAmount (stor wr) (getRfqOrderHash env rord))"
    if a: "fillRfqOrder env cx rord rsig R wr = Inr (wr', tr, mr)" and nz: "tr \<noteq> 0"
  proof -
    let ?p = "rfqFillParams cx rord rsig R"
    have o: "FillRfqOrderPrivateParams.order ?p = rord" by (simp add: rfqFillParams_def)
    from fillRfqOrder_Inr_D [OF a] obtain res
      where p: "fillRfqOrderPrivate env cx ?p wr = Inr (wr', res)"
        and t: "FillNativeOrderResults.takerTokenFilledAmount res = tr" by blast
    from fillRfqOrderPrivate_calls [OF p] t nz o obtain cs
      where cs: "calls wr' = calls wr @ cs" "cs \<noteq> []"
        and st: "\<forall>(c, st) \<in> set cs.
          orderHashToTakerTokenFilledAmount st (getRfqOrderHash env rord)
            = ucast (OrderInfo.takerTokenFilledAmount
                       (getRfqOrderInfo env cx (stor wr) rord) + tr)"
      by auto
    have "OrderInfo.status (getRfqOrderInfo env cx (stor wr) rord) = FILLABLE"
      using fillRfqOrderPrivate_Inr_D(1) [OF p] o
      by (simp add: rfqOrderChecksPass_def Let_def)
    from resolve_FILLABLE_D(4) [OF this [unfolded getRfqOrderInfo_def]]
    have "ucast (OrderInfo.takerTokenFilledAmount (getRfqOrderInfo env cx (stor wr) rord) + tr)
            \<noteq> orderHashToTakerTokenFilledAmount (stor wr) (getRfqOrderHash env rord)"
      using nz by (intro settled_record_differs) (simp_all add: getRfqOrderInfo_def)
    with cs st show ?thesis by auto
  qed
  from limit rfq show ?thesis by blast
qed

theorem C4_write_before_transfer_witness:
  "(case fillLimitOrder demo_env demo_ctx (demo_limit_order 10 3 5) [170] 1 demo_world of
      Inl e \<Rightarrow> False
    | Inr (w', t, m) \<Rightarrow>
        t = 1
        \<and> map (\<lambda>(c, st). (c, orderHashToTakerTokenFilledAmount st 7)) (calls w')
            = [(TransferFrom 2 187 170 1, 1), (TransferFrom 1 170 187 3, 1),
               (TransferFrom 2 187 254 1, 1)])
   \<and> orderHashToTakerTokenFilledAmount (stor demo_world) 7 = 0
   \<and> (case fillRfqOrder demo_env demo_ctx (demo_rfq_order 10 4) [170] 3 demo_world of
      Inl e \<Rightarrow> False
    | Inr (w', t, m) \<Rightarrow>
        t = 3
        \<and> map (\<lambda>(c, st). (c, orderHashToTakerTokenFilledAmount st 9)) (calls w')
            = [(TransferFrom 2 187 170 3, 3), (TransferFrom 1 170 187 7, 3)])
   \<and> orderHashToTakerTokenFilledAmount (stor demo_world) 9 = 0"
proof -
  let ?l = "fillLimitOrder demo_env demo_ctx (demo_limit_order 10 3 5) [170] 1 demo_world"
  let ?r = "fillRfqOrder demo_env demo_ctx (demo_rfq_order 10 4) [170] 3 demo_world"
  have l: "?l = Inr (fst (projr ?l), 1, 3)"
    by (simp add: eval_defs demo_defs)
  have r: "?r = Inr (fst (projr ?r), 3, 7)"
    by (simp add: eval_defs demo_defs)
  have cl: "map fst (calls (fst (projr ?l)))
      = [TransferFrom 2 187 170 1, TransferFrom 1 170 187 3, TransferFrom 2 187 254 1]"
    and cr: "map fst (calls (fst (projr ?r)))
      = [TransferFrom 2 187 170 3, TransferFrom 1 170 187 7]"
    by (simp_all add: eval_defs demo_defs)
  have f: "OrderInfo.takerTokenFilledAmount
             (getRfqOrderInfo demo_env demo_ctx (stor demo_world) (demo_rfq_order 10 4)) = 0"
    "OrderInfo.takerTokenFilledAmount
             (getLimitOrderInfo demo_env demo_ctx (stor demo_world) (demo_limit_order 10 3 5)) = 0"
    "getLimitOrderHash demo_env (demo_limit_order 10 3 5) = 7"
    "getRfqOrderHash demo_env (demo_rfq_order 10 4) = 9"
    "calls demo_world = []"
    "orderHashToTakerTokenFilledAmount (stor demo_world) 7 = 0"
    "orderHashToTakerTokenFilledAmount (stor demo_world) 9 = 0"
    by (simp_all add: getRfqOrderInfo_def getLimitOrderInfo_def resolveOrderInfo_def Let_def
        demo_defs)
  from C4_write_before_transfer [of demo_env demo_ctx "demo_limit_order 10 3 5" "[170]" 1
        demo_world "fst (projr ?l)" 1 3 "demo_rfq_order 10 4" "[170]" 3 demo_world
        "fst (projr ?r)" 3 7] l r
  have s: "\<forall>(c, st) \<in> set (calls (fst (projr ?l))).
             orderHashToTakerTokenFilledAmount st 7 = 1"
    "\<forall>(c, st) \<in> set (calls (fst (projr ?r))).
             orderHashToTakerTokenFilledAmount st 9 = 3"
    by (auto simp: f)
  have m: "map (\<lambda>(c, st). (c, v)) cs = map (\<lambda>c. (c, v)) (map fst cs)" for v :: uint256
    and cs :: "(token_call \<times> Storage) list"
    by (induction cs) auto
  have "map (\<lambda>(c, st). (c, orderHashToTakerTokenFilledAmount st 7)) (calls (fst (projr ?l)))
          = map (\<lambda>(c, st). (c, 1)) (calls (fst (projr ?l)))"
    using s(1) by (intro map_cong) auto
  moreover have "map (\<lambda>(c, st). (c, orderHashToTakerTokenFilledAmount st 9)) (calls (fst (projr ?r)))
          = map (\<lambda>(c, st). (c, 3)) (calls (fst (projr ?r)))"
    using s(2) by (intro map_cong) auto
  ultimately show ?thesis
    by (subst l, subst r) (simp add: f m cl cr)
qed

section \<open>Claim C6: rejections\<close>

text \<open>
  Claim C6. Each rejection of steps 1 to 3 aborts the fill with its own error, which
  carries the order hash and the status, or the actual and the expected identity: a status
  other than \<open>Fillable\<close>; then, for a limit order, a taker restriction and a sender
  restriction that the caller does not meet, and for an RFQ order a transaction origin that
  is neither the order's nor registered for it, and a taker restriction; then a recovered
  signer that is neither the maker nor a valid order signer of the maker. A fill call that
  aborts, for whatever reason, leaves the world exactly as it was.
\<close>

theorem C6_rejections:
  "(OrderInfo.status (getLimitOrderInfo env cx (stor w) (FillLimitOrderPrivateParams.order lp))
      \<noteq> FILLABLE \<longrightarrow>
    fillLimitOrderPrivate env cx lp w
      = Inl (OrderNotFillableError
               (getLimitOrderHash env (FillLimitOrderPrivateParams.order lp))
               (status_uint8 (OrderInfo.status
                  (getLimitOrderInfo env cx (stor w) (FillLimitOrderPrivateParams.order lp))))))
   \<and> (OrderInfo.status (getLimitOrderInfo env cx (stor w) (FillLimitOrderPrivateParams.order lp))
        = FILLABLE
      \<and> LimitOrder.taker (FillLimitOrderPrivateParams.order lp) \<noteq> 0
      \<and> LimitOrder.taker (FillLimitOrderPrivateParams.order lp)
          \<noteq> FillLimitOrderPrivateParams.taker lp \<longrightarrow>
    fillLimitOrderPrivate env cx lp w
      = Inl (OrderNotFillableByTakerError
               (getLimitOrderHash env (FillLimitOrderPrivateParams.order lp))
               (FillLimitOrderPrivateParams.taker lp)
               (LimitOrder.taker (FillLimitOrderPrivateParams.order lp))))
   \<and> (OrderInfo.status (getLimitOrderInfo env cx (stor w) (FillLimitOrderPrivateParams.order lp))
        = FILLABLE
      \<and> (LimitOrder.taker (FillLimitOrderPrivateParams.order lp) = 0
         \<or> LimitOrder.taker (FillLimitOrderPrivateParams.order lp)
             = FillLimitOrderPrivateParams.taker lp)
      \<and> LimitOrder.sender (FillLimitOrderPrivateParams.order lp) \<noteq> 0
      \<and> LimitOrder.sender (FillLimitOrderPrivateParams.order lp)
          \<noteq> FillLimitOrderPrivateParams.sender lp \<longrightarrow>
    fillLimitOrderPrivate env cx lp w
      = Inl (OrderNotFillableBySenderError
               (getLimitOrderHash env (FillLimitOrderPrivateParams.order lp))
               (FillLimitOrderPrivateParams.sender lp)
               (LimitOrder.sender (FillLimitOrderPrivateParams.order lp))))
   \<and> (OrderInfo.status (getLimitOrderInfo env cx (stor w) (FillLimitOrderPrivateParams.order lp))
        = FILLABLE
      \<and> (LimitOrder.taker (FillLimitOrderPrivateParams.order lp) = 0
         \<or> LimitOrder.taker (FillLimitOrderPrivateParams.order lp)
             = FillLimitOrderPrivateParams.taker lp)
      \<and> (LimitOrder.sender (FillLimitOrderPrivateParams.order lp) = 0
         \<or> LimitOrder.sender (FillLimitOrderPrivateParams.order lp)
             = FillLimitOrderPrivateParams.sender lp)
      \<and> ECDSA_recover env (getLimitOrderHash env (FillLimitOrderPrivateParams.order lp))
            (FillLimitOrderPrivateParams.signature lp) = Some lsigner
      \<and> lsigner \<noteq> LimitOrder.maker (FillLimitOrderPrivateParams.order lp)
      \<and> \<not> isValidOrderSigner (stor w)
             (LimitOrder.maker (FillLimitOrderPrivateParams.order lp)) lsigner \<longrightarrow>
    fillLimitOrderPrivate env cx lp w
      = Inl (OrderNotSignedByMakerError
               (getLimitOrderHash env (FillLimitOrderPrivateParams.order lp))
               lsigner (LimitOrder.maker (FillLimitOrderPrivateParams.order lp))))
   \<and> (OrderInfo.status (getRfqOrderInfo env cx (stor w) (FillRfqOrderPrivateParams.order rp))
      \<noteq> FILLABLE \<longrightarrow>
    fillRfqOrderPrivate env cx rp w
      = Inl (OrderNotFillableError
               (getRfqOrderHash env (FillRfqOrderPrivateParams.order rp))
               (status_uint8 (OrderInfo.status
                  (getRfqOrderInfo env cx (stor w) (FillRfqOrderPrivateParams.order rp))))))
   \<and> (OrderInfo.status (getRfqOrderInfo env cx (stor w) (FillRfqOrderPrivateParams.order rp))
        = FILLABLE
      \<and> txOrigin (FillRfqOrderPrivateParams.order rp) \<noteq> tx_origin cx
      \<and> \<not> originRegistry (stor w) (txOrigin (FillRfqOrderPrivateParams.order rp))
             (tx_origin cx) \<longrightarrow>
    fillRfqOrderPrivate env cx rp w
      = Inl (OrderNotFillableByOriginError
               (getRfqOrderHash env (FillRfqOrderPrivateParams.order rp))
               (tx_origin cx) (txOrigin (FillRfqOrderPrivateParams.order rp))))
   \<and> (OrderInfo.status (getRfqOrderInfo env cx (stor w) (FillRfqOrderPrivateParams.order rp))
        = FILLABLE
      \<and> (txOrigin (FillRfqOrderPrivateParams.order rp) = tx_origin cx
         \<or> originRegistry (stor w) (txOrigin (FillRfqOrderPrivateParams.order rp))
             (tx_origin cx))
      \<and> RfqOrder.taker (FillRfqOrderPrivateParams.order rp) \<noteq> 0
      \<and> RfqOrder.taker (FillRfqOrderPrivateParams.order rp)
          \<noteq> FillRfqOrderPrivateParams.taker rp \<longrightarrow>
    fillRfqOrderPrivate env cx rp w
      = Inl (OrderNotFillableByTakerError
               (getRfqOrderHash env (FillRfqOrderPrivateParams.order rp))
               (FillRfqOrderPrivateParams.taker rp)
               (RfqOrder.taker (FillRfqOrderPrivateParams.order rp))))
   \<and> (OrderInfo.status (getRfqOrderInfo env cx (stor w) (FillRfqOrderPrivateParams.order rp))
        = FILLABLE
      \<and> (txOrigin (FillRfqOrderPrivateParams.order rp) = tx_origin cx
         \<or> originRegistry (stor w) (txOrigin (FillRfqOrderPrivateParams.order rp))
             (tx_origin cx))
      \<and> (RfqOrder.taker (FillRfqOrderPrivateParams.order rp) = 0
         \<or> RfqOrder.taker (FillRfqOrderPrivateParams.order rp)
             = FillRfqOrderPrivateParams.taker rp)
      \<and> ECDSA_recover env (getRfqOrderHash env (FillRfqOrderPrivateParams.order rp))
            (FillRfqOrderPrivateParams.signature rp) = Some rsigner
      \<and> rsigner \<noteq> RfqOrder.maker (FillRfqOrderPrivateParams.order rp)
      \<and> \<not> isValidOrderSigner (stor w)
             (RfqOrder.maker (FillRfqOrderPrivateParams.order rp)) rsigner \<longrightarrow>
    fillRfqOrderPrivate env cx rp w
      = Inl (OrderNotSignedByMakerError
               (getRfqOrderHash env (FillRfqOrderPrivateParams.order rp))
               rsigner (RfqOrder.maker (FillRfqOrderPrivateParams.order rp))))
   \<and> (fillLimitOrderPrivate env cx (limitFillParams cx lord lsig lamt) w = Inl e \<longrightarrow>
        fillLimitOrder env cx lord lsig lamt w = Inl e
        \<and> transact env (cx, FillLimitOrder lord lsig lamt) w = w)
   \<and> (fillRfqOrderPrivate env cx (rfqFillParams cx rord rsig ramt) w = Inl e' \<longrightarrow>
        fillRfqOrder env cx rord rsig ramt w = Inl e'
        \<and> transact env (cx, FillRfqOrder rord rsig ramt) w = w)"
proof -
  have lh: "OrderInfo.orderHash (getLimitOrderInfo env cx (stor w) ord) = getLimitOrderHash env ord"
    for ord by (simp add: getLimitOrderInfo_def)
  have rh: "OrderInfo.orderHash (getRfqOrderInfo env cx (stor w) ord) = getRfqOrderHash env ord"
    for ord by (simp add: getRfqOrderInfo_def)
  show ?thesis
    apply (intro conjI impI)
             apply (simp add: fillLimitOrderPrivate_def Let_def lh)
            apply (simp add: fillLimitOrderPrivate_def Let_def lh)
           apply (auto simp add: fillLimitOrderPrivate_def Let_def lh)[1]
          apply (auto simp add: fillLimitOrderPrivate_def Let_def lh)[1]
         apply (simp add: fillRfqOrderPrivate_def Let_def rh)
        apply (simp add: fillRfqOrderPrivate_def Let_def rh)
       apply (auto simp add: fillRfqOrderPrivate_def Let_def rh)[1]
      apply (auto simp add: fillRfqOrderPrivate_def Let_def rh)[1]
     apply (simp add: fillLimitOrder_unfold)
    apply (simp add: transact_def fillLimitOrder_unfold)
     apply (simp add: fillRfqOrder_unfold)
    apply (simp add: transact_def fillRfqOrder_unfold)
    done
qed

theorem C6_rejections_witness:
  "fillLimitOrderPrivate demo_env late_ctx
        (limitFillParams late_ctx (demo_limit_order 10 3 0) [170] 1)
        demo_world
      = Inl (OrderNotFillableError 7 4)
   \<and> fillRfqOrderPrivate demo_env late_ctx
         (rfqFillParams late_ctx (demo_rfq_order 10 3) [170] 1)
         demo_world
       = Inl (OrderNotFillableError 9 4)
   \<and> transact demo_env (late_ctx, FillLimitOrder (demo_limit_order 10 3 0) [170] 1)
         demo_world
       = demo_world
   \<and> transact demo_env (late_ctx, FillRfqOrder (demo_rfq_order 10 3) [170] 1)
         demo_world
       = demo_world
   \<and> fillLimitOrderPrivate demo_env demo_ctx
         (limitFillParams demo_ctx ((demo_limit_order 10 3 0)\<lparr>LimitOrder.taker := 99\<rparr>) [170] 1)
         demo_world
       = Inl (OrderNotFillableByTakerError 7 187 99)
   \<and> fillRfqOrderPrivate demo_env demo_ctx
         (rfqFillParams demo_ctx ((demo_rfq_order 10 3)\<lparr>RfqOrder.taker := 99\<rparr>) [170] 1)
         demo_world
       = Inl (OrderNotFillableByTakerError 9 187 99)
   \<and> fillLimitOrderPrivate demo_env (demo_ctx\<lparr>tx_origin := 200\<rparr>)
         (limitFillParams (demo_ctx\<lparr>tx_origin := 200\<rparr>) ((demo_limit_order 10 3 0)\<lparr>LimitOrder.sender := 98\<rparr>) [170] 1)
         demo_world
       = Inl (OrderNotFillableBySenderError 7 187 98)
   \<and> fillRfqOrderPrivate demo_env (demo_ctx\<lparr>tx_origin := 200\<rparr>)
         (rfqFillParams (demo_ctx\<lparr>tx_origin := 200\<rparr>) (demo_rfq_order 10 3) [170] 1)
         demo_world
       = Inl (OrderNotFillableByOriginError 9 200 187)
   \<and> fillLimitOrderPrivate demo_env demo_ctx
         (limitFillParams demo_ctx (demo_limit_order 10 3 0) [171] 1)
         demo_world
       = Inl (OrderNotSignedByMakerError 7 171 170)
   \<and> fillRfqOrderPrivate demo_env demo_ctx
         (rfqFillParams demo_ctx (demo_rfq_order 10 3) [171] 1)
         demo_world
       = Inl (OrderNotSignedByMakerError 9 171 170)"
proof -
  note ev = getLimitOrderInfo_def getRfqOrderInfo_def resolveOrderInfo_def HIGH_BIT_def
    isValidOrderSigner_def Let_def limitFillParams_def rfqFillParams_def late_ctx_def
    demo_env_def demo_storage_def demo_world_def demo_ctx_def demo_limit_order_def
    demo_rfq_order_def
  have i1: "fillLimitOrderPrivate demo_env late_ctx
        (limitFillParams late_ctx (demo_limit_order 10 3 0) [170] 1)
        demo_world
      = Inl (OrderNotFillableError 7 4)
     \<and> fillRfqOrderPrivate demo_env late_ctx
           (rfqFillParams late_ctx (demo_rfq_order 10 3) [170] 1)
           demo_world
         = Inl (OrderNotFillableError 9 4)
     \<and> transact demo_env (late_ctx, FillLimitOrder (demo_limit_order 10 3 0) [170] 1)
           demo_world
         = demo_world
     \<and> transact demo_env (late_ctx, FillRfqOrder (demo_rfq_order 10 3) [170] 1)
           demo_world
         = demo_world"
    using C6_rejections [where env = demo_env and cx = "late_ctx" and w = demo_world
        and lp = "limitFillParams (late_ctx) (demo_limit_order 10 3 0) [170] 1" and lsigner = 170
        and rp = "rfqFillParams (late_ctx) (demo_rfq_order 10 3) [170] 1" and rsigner = 170
        and lord = "demo_limit_order 10 3 0" and lsig = "[170]" and lamt = 1
        and e = "OrderNotFillableError 7 4"
        and rord = "demo_rfq_order 10 3" and rsig = "[170]" and ramt = 1
        and e' = "OrderNotFillableError 9 4"]
    by (simp add: ev)
  have i2: "fillLimitOrderPrivate demo_env demo_ctx
        (limitFillParams demo_ctx ((demo_limit_order 10 3 0)\<lparr>LimitOrder.taker := 99\<rparr>) [170] 1)
        demo_world
      = Inl (OrderNotFillableByTakerError 7 187 99)
     \<and> fillRfqOrderPrivate demo_env demo_ctx
           (rfqFillParams demo_ctx ((demo_rfq_order 10 3)\<lparr>RfqOrder.taker := 99\<rparr>) [170] 1)
           demo_world
         = Inl (OrderNotFillableByTakerError 9 187 99)"
    using C6_rejections [where env = demo_env and cx = "demo_ctx" and w = demo_world
        and lp = "limitFillParams (demo_ctx) ((demo_limit_order 10 3 0)\<lparr>LimitOrder.taker := 99\<rparr>) [170] 1"
        and lsigner = 170
        and rp = "rfqFillParams (demo_ctx) ((demo_rfq_order 10 3)\<lparr>RfqOrder.taker := 99\<rparr>) [170] 1"
        and rsigner = 170
        and lord = "(demo_limit_order 10 3 0)\<lparr>LimitOrder.taker := 99\<rparr>" and lsig = "[170]" and lamt = 1
        and e = "OrderNotFillableByTakerError 7 187 99"
        and rord = "(demo_rfq_order 10 3)\<lparr>RfqOrder.taker := 99\<rparr>" and rsig = "[170]" and ramt = 1
        and e' = "OrderNotFillableByTakerError 9 187 99"]
    by (simp add: ev)
  have i3: "fillLimitOrderPrivate demo_env (demo_ctx\<lparr>tx_origin := 200\<rparr>)
        (limitFillParams (demo_ctx\<lparr>tx_origin := 200\<rparr>) ((demo_limit_order 10 3 0)\<lparr>LimitOrder.sender := 98\<rparr>) [170] 1)
        demo_world
      = Inl (OrderNotFillableBySenderError 7 187 98)
     \<and> fillRfqOrderPrivate demo_env (demo_ctx\<lparr>tx_origin := 200\<rparr>)
           (rfqFillParams (demo_ctx\<lparr>tx_origin := 200\<rparr>) (demo_rfq_order 10 3) [170] 1)
           demo_world
         = Inl (OrderNotFillableByOriginError 9 200 187)"
    using C6_rejections [where env = demo_env and cx = "demo_ctx\<lparr>tx_origin := 200\<rparr>"
        and w = demo_world
        and lp = "limitFillParams (demo_ctx\<lparr>tx_origin := 200\<rparr>) ((demo_limit_order 10 3 0)\<lparr>LimitOrder.sender := 98\<rparr>) [170] 1"
        and lsigner = 170
        and rp = "rfqFillParams (demo_ctx\<lparr>tx_origin := 200\<rparr>) (demo_rfq_order 10 3) [170] 1"
        and rsigner = 170
        and lord = "(demo_limit_order 10 3 0)\<lparr>LimitOrder.sender := 98\<rparr>" and lsig = "[170]" and lamt = 1
        and e = "OrderNotFillableBySenderError 7 187 98"
        and rord = "demo_rfq_order 10 3" and rsig = "[170]" and ramt = 1
        and e' = "OrderNotFillableByOriginError 9 200 187"]
    by (simp add: ev)
  have i4: "fillLimitOrderPrivate demo_env demo_ctx
        (limitFillParams demo_ctx (demo_limit_order 10 3 0) [171] 1)
        demo_world
      = Inl (OrderNotSignedByMakerError 7 171 170)
     \<and> fillRfqOrderPrivate demo_env demo_ctx
           (rfqFillParams demo_ctx (demo_rfq_order 10 3) [171] 1)
           demo_world
         = Inl (OrderNotSignedByMakerError 9 171 170)"
    using C6_rejections [where env = demo_env and cx = "demo_ctx" and w = demo_world
        and lp = "limitFillParams (demo_ctx) (demo_limit_order 10 3 0) [171] 1" and lsigner = 171
        and rp = "rfqFillParams (demo_ctx) (demo_rfq_order 10 3) [171] 1" and rsigner = 171
        and lord = "demo_limit_order 10 3 0" and lsig = "[171]" and lamt = 1
        and e = "OrderNotSignedByMakerError 7 171 170"
        and rord = "demo_rfq_order 10 3" and rsig = "[171]" and ramt = 1
        and e' = "OrderNotSignedByMakerError 9 171 170"]
    by (simp add: ev)
  from i1 i2 i3 i4 show ?thesis by simp
qed

section \<open>Claim C8: who may cancel\<close>

lemma cancelLimitOrder_eq:
  "cancelLimitOrder env cx ord w =
     (if authorizedToCancel (stor w) (msg_sender cx) (LimitOrder.maker ord)
      then Inr (cancelOrderHash (getLimitOrderHash env ord) (LimitOrder.maker ord) w)
      else Inl (OnlyOrderMakerAllowed (getLimitOrderHash env ord) (msg_sender cx)
                  (LimitOrder.maker ord)))"
  by (auto simp: cancelLimitOrder_def authorizedToCancel_def Let_def)

lemma cancelRfqOrder_eq:
  "cancelRfqOrder env cx ord w =
     (if authorizedToCancel (stor w) (msg_sender cx) (RfqOrder.maker ord)
      then Inr (cancelOrderHash (getRfqOrderHash env ord) (RfqOrder.maker ord) w)
      else Inl (OnlyOrderMakerAllowed (getRfqOrderHash env ord) (msg_sender cx)
                  (RfqOrder.maker ord)))"
  by (auto simp: cancelRfqOrder_def authorizedToCancel_def Let_def)

lemma authorized_after_cancel [simp]:
  "authorizedToCancel (stor (cancelOrderHash h mk w)) caller mk' = authorizedToCancel (stor w) caller mk'"
  by (simp add: authorizedToCancel_def cancelOrderHash_def isValidOrderSigner_def)

lemma batchCancelLimitOrders_eq:
  "batchCancelLimitOrders env cx orders w =
     (case find (\<lambda>ord. \<not> authorizedToCancel (stor w) (msg_sender cx) (LimitOrder.maker ord)) orders of
        Some ord \<Rightarrow> Inl (OnlyOrderMakerAllowed (getLimitOrderHash env ord) (msg_sender cx)
                          (LimitOrder.maker ord))
      | None \<Rightarrow> Inr (foldl (\<lambda>w' ord. cancelOrderHash (getLimitOrderHash env ord)
                                     (LimitOrder.maker ord) w') w orders))"
proof (induction orders arbitrary: w)
  case Nil
  show ?case by simp
next
  case (Cons ord orders)
  show ?case
    by (simp add: cancelLimitOrder_eq Cons.IH split: option.splits)
qed

lemma batchCancelRfqOrders_eq:
  "batchCancelRfqOrders env cx orders w =
     (case find (\<lambda>ord. \<not> authorizedToCancel (stor w) (msg_sender cx) (RfqOrder.maker ord)) orders of
        Some ord \<Rightarrow> Inl (OnlyOrderMakerAllowed (getRfqOrderHash env ord) (msg_sender cx)
                          (RfqOrder.maker ord))
      | None \<Rightarrow> Inr (foldl (\<lambda>w' ord. cancelOrderHash (getRfqOrderHash env ord)
                                     (RfqOrder.maker ord) w') w orders))"
proof (induction orders arbitrary: w)
  case Nil
  show ?case by simp
next
  case (Cons ord orders)
  show ?case
    by (simp add: cancelRfqOrder_eq Cons.IH split: option.splits)
qed

text \<open>
  Claim C8. \<open>cancelLimitOrder\<close> and \<open>cancelRfqOrder\<close> revert, with \<open>OnlyOrderMakerAllowed\<close>
  carrying the order hash, the caller and the maker, exactly when the caller is neither the
  maker nor a valid order signer of the maker, and cancel the order hash otherwise. A batch
  cancellation checks the orders in sequence: it reverts with the error of the first order
  that the caller may not cancel, and the world is then exactly as before the call, no
  order of the batch cancelled; when the caller may cancel every order, all are cancelled
  in order.
\<close>

theorem C8_cancel_authorization:
  "cancelLimitOrder env cx lord w =
     (if msg_sender cx \<noteq> LimitOrder.maker lord
         \<and> \<not> isValidOrderSigner (stor w) (LimitOrder.maker lord) (msg_sender cx)
      then Inl (OnlyOrderMakerAllowed (getLimitOrderHash env lord) (msg_sender cx)
                  (LimitOrder.maker lord))
      else Inr (cancelOrderHash (getLimitOrderHash env lord) (LimitOrder.maker lord) w))
   \<and> cancelRfqOrder env cx rord w =
     (if msg_sender cx \<noteq> RfqOrder.maker rord
         \<and> \<not> isValidOrderSigner (stor w) (RfqOrder.maker rord) (msg_sender cx)
      then Inl (OnlyOrderMakerAllowed (getRfqOrderHash env rord) (msg_sender cx)
                  (RfqOrder.maker rord))
      else Inr (cancelOrderHash (getRfqOrderHash env rord) (RfqOrder.maker rord) w))
   \<and> batchCancelLimitOrders env cx lords w =
     (case find (\<lambda>ord. msg_sender cx \<noteq> LimitOrder.maker ord
                   \<and> \<not> isValidOrderSigner (stor w) (LimitOrder.maker ord) (msg_sender cx))
             lords of
        Some ord \<Rightarrow> Inl (OnlyOrderMakerAllowed (getLimitOrderHash env ord) (msg_sender cx)
                          (LimitOrder.maker ord))
      | None \<Rightarrow> Inr (foldl (\<lambda>w' ord. cancelOrderHash (getLimitOrderHash env ord)
                                     (LimitOrder.maker ord) w') w lords))
   \<and> batchCancelRfqOrders env cx rords w =
     (case find (\<lambda>ord. msg_sender cx \<noteq> RfqOrder.maker ord
                   \<and> \<not> isValidOrderSigner (stor w) (RfqOrder.maker ord) (msg_sender cx))
             rords of
        Some ord \<Rightarrow> Inl (OnlyOrderMakerAllowed (getRfqOrderHash env ord) (msg_sender cx)
                          (RfqOrder.maker ord))
      | None \<Rightarrow> Inr (foldl (\<lambda>w' ord. cancelOrderHash (getRfqOrderHash env ord)
                                     (RfqOrder.maker ord) w') w rords))
   \<and> ((\<exists>ord \<in> set lords. msg_sender cx \<noteq> LimitOrder.maker ord
          \<and> \<not> isValidOrderSigner (stor w) (LimitOrder.maker ord) (msg_sender cx))
        \<longrightarrow> transact env (cx, BatchCancelLimitOrders lords) w = w)
   \<and> ((\<exists>ord \<in> set rords. msg_sender cx \<noteq> RfqOrder.maker ord
          \<and> \<not> isValidOrderSigner (stor w) (RfqOrder.maker ord) (msg_sender cx))
        \<longrightarrow> transact env (cx, BatchCancelRfqOrders rords) w = w)"
proof -
  have n: "(\<lambda>ord. msg_sender cx \<noteq> LimitOrder.maker ord
                   \<and> \<not> isValidOrderSigner (stor w) (LimitOrder.maker ord) (msg_sender cx))
           = (\<lambda>ord. \<not> authorizedToCancel (stor w) (msg_sender cx) (LimitOrder.maker ord))"
    "(\<lambda>ord. msg_sender cx \<noteq> RfqOrder.maker ord
                   \<and> \<not> isValidOrderSigner (stor w) (RfqOrder.maker ord) (msg_sender cx))
           = (\<lambda>ord. \<not> authorizedToCancel (stor w) (msg_sender cx) (RfqOrder.maker ord))"
    by (simp_all add: authorizedToCancel_def)
  have bl: "transact env (cx, BatchCancelLimitOrders lords) w = w"
    if "\<exists>ord \<in> set lords. \<not> authorizedToCancel (stor w) (msg_sender cx) (LimitOrder.maker ord)"
  proof -
    from that obtain ord where
      "find (\<lambda>ord. \<not> authorizedToCancel (stor w) (msg_sender cx) (LimitOrder.maker ord)) lords
         = Some ord"
      by (cases "find (\<lambda>ord. \<not> authorizedToCancel (stor w) (msg_sender cx) (LimitOrder.maker ord)) lords")
        (auto simp: find_None_iff)
    then show ?thesis by (simp add: transact_def batchCancelLimitOrders_eq)
  qed
  have br: "transact env (cx, BatchCancelRfqOrders rords) w = w"
    if "\<exists>ord \<in> set rords. \<not> authorizedToCancel (stor w) (msg_sender cx) (RfqOrder.maker ord)"
  proof -
    from that obtain ord where
      "find (\<lambda>ord. \<not> authorizedToCancel (stor w) (msg_sender cx) (RfqOrder.maker ord)) rords
         = Some ord"
      by (cases "find (\<lambda>ord. \<not> authorizedToCancel (stor w) (msg_sender cx) (RfqOrder.maker ord)) rords")
        (auto simp: find_None_iff)
    then show ?thesis by (simp add: transact_def batchCancelRfqOrders_eq)
  qed
  have cl: "cancelLimitOrder env cx lord w =
     (if msg_sender cx \<noteq> LimitOrder.maker lord
         \<and> \<not> isValidOrderSigner (stor w) (LimitOrder.maker lord) (msg_sender cx)
      then Inl (OnlyOrderMakerAllowed (getLimitOrderHash env lord) (msg_sender cx)
                  (LimitOrder.maker lord))
      else Inr (cancelOrderHash (getLimitOrderHash env lord) (LimitOrder.maker lord) w))"
    by (simp add: cancelLimitOrder_def Let_def)
  have cr: "cancelRfqOrder env cx rord w =
     (if msg_sender cx \<noteq> RfqOrder.maker rord
         \<and> \<not> isValidOrderSigner (stor w) (RfqOrder.maker rord) (msg_sender cx)
      then Inl (OnlyOrderMakerAllowed (getRfqOrderHash env rord) (msg_sender cx)
                  (RfqOrder.maker rord))
      else Inr (cancelOrderHash (getRfqOrderHash env rord) (RfqOrder.maker rord) w))"
    by (simp add: cancelRfqOrder_def Let_def)
  show ?thesis
    unfolding n
    apply (intro conjI)
         apply (rule cl)
        apply (rule cr)
       apply (rule batchCancelLimitOrders_eq)
      apply (rule batchCancelRfqOrders_eq)
     apply (rule impI, erule bl)
    apply (rule impI, erule br)
    done
qed

theorem C8_cancel_authorization_witness:
  "cancelLimitOrder demo_env demo_ctx (demo_limit_order 10 3 0) demo_world
     = Inl (OnlyOrderMakerAllowed 7 187 170)
   \<and> cancelRfqOrder demo_env demo_ctx (demo_rfq_order 10 3) demo_world
     = Inl (OnlyOrderMakerAllowed 9 187 170)
   \<and> cancelLimitOrder demo_env maker_ctx (demo_limit_order 10 3 0) demo_world
     = Inr (cancelOrderHash 7 170 demo_world)
   \<and> cancelRfqOrder demo_env maker_ctx (demo_rfq_order 10 3) demo_world
     = Inr (cancelOrderHash 9 170 demo_world)
   \<and> batchCancelLimitOrders demo_env maker_ctx
       [demo_limit_order 10 3 0,
        (demo_limit_order 10 3 0)\<lparr>LimitOrder.maker := 171, LimitOrder.salt := 8\<rparr>] demo_world
     = Inl (OnlyOrderMakerAllowed 8 170 171)
   \<and> transact demo_env (maker_ctx, BatchCancelLimitOrders
       [demo_limit_order 10 3 0,
        (demo_limit_order 10 3 0)\<lparr>LimitOrder.maker := 171, LimitOrder.salt := 8\<rparr>]) demo_world
     = demo_world
   \<and> batchCancelRfqOrders demo_env maker_ctx
       [demo_rfq_order 10 3,
        (demo_rfq_order 10 3)\<lparr>RfqOrder.maker := 171, RfqOrder.salt := 10\<rparr>] demo_world
     = Inl (OnlyOrderMakerAllowed 10 170 171)
   \<and> transact demo_env (maker_ctx, BatchCancelRfqOrders
       [demo_rfq_order 10 3,
        (demo_rfq_order 10 3)\<lparr>RfqOrder.maker := 171, RfqOrder.salt := 10\<rparr>]) demo_world
     = demo_world"
proof -
  note ev = isValidOrderSigner_def demo_env_def demo_storage_def demo_world_def demo_ctx_def
    maker_ctx_def demo_limit_order_def demo_rfq_order_def
  have a: "cancelLimitOrder demo_env demo_ctx (demo_limit_order 10 3 0) demo_world
     = Inl (OnlyOrderMakerAllowed 7 187 170)
   \<and> cancelRfqOrder demo_env demo_ctx (demo_rfq_order 10 3) demo_world
     = Inl (OnlyOrderMakerAllowed 9 187 170)"
    using C8_cancel_authorization [where env = demo_env and cx = demo_ctx and w = demo_world
        and lord = "demo_limit_order 10 3 0" and rord = "demo_rfq_order 10 3"
        and lords = "[]" and rords = "[]"]
    by (simp add: ev)
  let ?LO2 = "(demo_limit_order 10 3 0)\<lparr>LimitOrder.maker := 171, LimitOrder.salt := 8\<rparr>"
  let ?RO2 = "(demo_rfq_order 10 3)\<lparr>RfqOrder.maker := 171, RfqOrder.salt := 10\<rparr>"
  note C = C8_cancel_authorization [where env = demo_env and cx = maker_ctx and w = demo_world
        and lord = "demo_limit_order 10 3 0" and rord = "demo_rfq_order 10 3"
        and lords = "[demo_limit_order 10 3 0, ?LO2]"
        and rords = "[demo_rfq_order 10 3, ?RO2]"]
  have fl: "find (\<lambda>ord. msg_sender maker_ctx \<noteq> LimitOrder.maker ord
                   \<and> \<not> isValidOrderSigner (stor demo_world) (LimitOrder.maker ord)
                        (msg_sender maker_ctx))
             [demo_limit_order 10 3 0, ?LO2] = Some ?LO2"
    and fr: "find (\<lambda>ord. msg_sender maker_ctx \<noteq> RfqOrder.maker ord
                   \<and> \<not> isValidOrderSigner (stor demo_world) (RfqOrder.maker ord)
                        (msg_sender maker_ctx))
             [demo_rfq_order 10 3, ?RO2] = Some ?RO2"
    by (simp_all add: ev)
  have el: "\<exists>ord \<in> set [demo_limit_order 10 3 0, ?LO2].
              msg_sender maker_ctx \<noteq> LimitOrder.maker ord
              \<and> \<not> isValidOrderSigner (stor demo_world) (LimitOrder.maker ord)
                   (msg_sender maker_ctx)"
    and er: "\<exists>ord \<in> set [demo_rfq_order 10 3, ?RO2].
              msg_sender maker_ctx \<noteq> RfqOrder.maker ord
              \<and> \<not> isValidOrderSigner (stor demo_world) (RfqOrder.maker ord)
                   (msg_sender maker_ctx)"
    by (simp_all add: ev)
  have v: "OnlyOrderMakerAllowed (getLimitOrderHash demo_env ?LO2) (msg_sender maker_ctx)
             (LimitOrder.maker ?LO2) = OnlyOrderMakerAllowed 8 170 171"
    "OnlyOrderMakerAllowed (getRfqOrderHash demo_env ?RO2) (msg_sender maker_ctx)
             (RfqOrder.maker ?RO2) = OnlyOrderMakerAllowed 10 170 171"
    by (simp_all add: ev)
  have b1: "cancelLimitOrder demo_env maker_ctx (demo_limit_order 10 3 0) demo_world
     = Inr (cancelOrderHash 7 170 demo_world)"
    using C [THEN conjunct1] by (simp add: ev)
  have b2: "cancelRfqOrder demo_env maker_ctx (demo_rfq_order 10 3) demo_world
     = Inr (cancelOrderHash 9 170 demo_world)"
    using C [THEN conjunct2, THEN conjunct1] by (simp add: ev)
  have b3: "batchCancelLimitOrders demo_env maker_ctx [demo_limit_order 10 3 0, ?LO2] demo_world
     = Inl (OnlyOrderMakerAllowed 8 170 171)"
    using C [THEN conjunct2, THEN conjunct2, THEN conjunct1]
    by (simp only: fl option.case v)
  have b4: "batchCancelRfqOrders demo_env maker_ctx [demo_rfq_order 10 3, ?RO2] demo_world
     = Inl (OnlyOrderMakerAllowed 10 170 171)"
    using C [THEN conjunct2, THEN conjunct2, THEN conjunct2, THEN conjunct1]
    by (simp only: fr option.case v)
  have b5: "transact demo_env (maker_ctx, BatchCancelLimitOrders [demo_limit_order 10 3 0, ?LO2])
              demo_world = demo_world"
    using C [THEN conjunct2, THEN conjunct2, THEN conjunct2, THEN conjunct2, THEN conjunct1] el
    by (rule mp)
  have b6: "transact demo_env (maker_ctx, BatchCancelRfqOrders [demo_rfq_order 10 3, ?RO2])
              demo_world = demo_world"
    using C [THEN conjunct2, THEN conjunct2, THEN conjunct2, THEN conjunct2, THEN conjunct2] er
    by (rule mp)
  note b = b1 b2 b3 b4 b5 b6
  from a b show ?thesis by (simp only: simp_thms)
qed

section \<open>Claim C5: cancellation is permanent\<close>

lemma HIGH_BIT_nonzero [simp]: "HIGH_BIT \<noteq> 0"
  by (simp add: HIGH_BIT_def)

lemma HIGH_BIT_set [simp]: "(x OR HIGH_BIT) AND HIGH_BIT \<noteq> 0"
  by simp

lemma cancelOrderHash_record:
  "orderHashToTakerTokenFilledAmount (stor (cancelOrderHash h mk w)) h' =
     (if h' = h then orderHashToTakerTokenFilledAmount (stor w) h OR HIGH_BIT
      else orderHashToTakerTokenFilledAmount (stor w) h')"
  by (simp add: cancelOrderHash_def)

lemma cancelOrderHash_keeps_bit:
  assumes "orderHashToTakerTokenFilledAmount (stor w) h AND HIGH_BIT \<noteq> 0"
  shows "orderHashToTakerTokenFilledAmount (stor (cancelOrderHash h' mk w)) h AND HIGH_BIT \<noteq> 0"
  using assms by (simp add: cancelOrderHash_record)

lemma settleOrder_other_records:
  assumes "settleOrder env si w = Inr (w', t, m)" "h \<noteq> SettleOrderInfo.orderHash si"
  shows "orderHashToTakerTokenFilledAmount (stor w') h = orderHashToTakerTokenFilledAmount (stor w) h"
proof (cases "unat (clampedFillAmount (siR si) (siT si) (siF si)) * unat (siM si)
               div unat (siT si) = 0")
  case True
  then show ?thesis using settleOrder_Inr_noop [OF assms(1)] by simp
next
  case False
  from settleOrder_Inr_settle(3) [OF assms(1) False] assms(2)
  show ?thesis by (simp add: settleWrite_def)
qed

lemma fillLimit_keeps_bit:
  assumes "orderHashToTakerTokenFilledAmount (stor w) h AND HIGH_BIT \<noteq> 0"
    and "fillLimitOrderPrivate env cx params w = Inr (w', res)"
  shows "orderHashToTakerTokenFilledAmount (stor w') h = orderHashToTakerTokenFilledAmount (stor w) h"
proof -
  let ?ord = "FillLimitOrderPrivateParams.order params"
  let ?info = "getLimitOrderInfo env cx (stor w) ?ord"
  let ?si = "limitSettleInfo ?info params"
  from assms(2) fillLimitOrderPrivate_pass [OF fillLimitOrderPrivate_Inr_pass [OF assms(2)]]
  obtain w1 t m where s: "settleOrder env ?si w = Inr (w1, t, m)"
    and f: "limitFinish env params (OrderInfo.orderHash ?info) (w1, t, m) = Inr (w', res)"
    by (auto simp: bindE_Inr_iff)
  have "OrderInfo.status ?info = FILLABLE"
    using fillLimitOrderPrivate_Inr_pass [OF assms(2)]
    by (simp add: limitOrderChecksPass_def Let_def)
  from resolve_FILLABLE_D(2) [OF this [unfolded getLimitOrderInfo_def]] assms(1)
  have "h \<noteq> SettleOrderInfo.orderHash ?si"
    by (auto simp: getLimitOrderInfo_def)
  from settleOrder_other_records [OF s this] limitFinish_Inr_D(3) [OF f]
  show ?thesis by simp
qed

lemma fillRfq_keeps_bit:
  assumes "orderHashToTakerTokenFilledAmount (stor w) h AND HIGH_BIT \<noteq> 0"
    and "fillRfqOrderPrivate env cx params w = Inr (w', res)"
  shows "orderHashToTakerTokenFilledAmount (stor w') h = orderHashToTakerTokenFilledAmount (stor w) h"
proof -
  let ?ord = "FillRfqOrderPrivateParams.order params"
  let ?info = "getRfqOrderInfo env cx (stor w) ?ord"
  let ?si = "rfqSettleInfo env ?info params"
  from fillRfqOrderPrivate_Inr_D(2) [OF assms(2)]
  obtain w1 where s: "settleOrder env ?si w
       = Inr (w1, rTaken res, makerTokenFilledAmount res)" and c: "stor w' = stor w1"
    by auto
  have "OrderInfo.status ?info = FILLABLE"
    using fillRfqOrderPrivate_Inr_D(1) [OF assms(2)]
    by (simp add: rfqOrderChecksPass_def Let_def)
  from resolve_FILLABLE_D(2) [OF this [unfolded getRfqOrderInfo_def]] assms(1)
  have "h \<noteq> SettleOrderInfo.orderHash ?si"
    by (auto simp: getRfqOrderInfo_def)
  from settleOrder_other_records [OF s this] c
  show ?thesis by simp
qed

lemma batchLimit_keeps_bit:
  assumes "orderHashToTakerTokenFilledAmount (stor w) h AND HIGH_BIT \<noteq> 0"
    and "batchCancelLimitOrders env cx orders w = Inr w'"
  shows "orderHashToTakerTokenFilledAmount (stor w') h AND HIGH_BIT \<noteq> 0"
  using assms
proof (induction orders arbitrary: w)
  case Nil
  then show ?case by simp
next
  case (Cons ord orders)
  from Cons.prems(2) obtain w1 where c: "cancelLimitOrder env cx ord w = Inr w1"
    and b: "batchCancelLimitOrders env cx orders w1 = Inr w'"
    by (auto simp: bindE_Inr_iff)
  from c have "w1 = cancelOrderHash (getLimitOrderHash env ord) (LimitOrder.maker ord) w"
    by (auto simp: cancelLimitOrder_eq split: if_splits)
  with Cons.prems(1) have "orderHashToTakerTokenFilledAmount (stor w1) h AND HIGH_BIT \<noteq> 0"
    by (simp add: cancelOrderHash_keeps_bit)
  from Cons.IH [OF this b] show ?case .
qed

lemma batchRfq_keeps_bit:
  assumes "orderHashToTakerTokenFilledAmount (stor w) h AND HIGH_BIT \<noteq> 0"
    and "batchCancelRfqOrders env cx orders w = Inr w'"
  shows "orderHashToTakerTokenFilledAmount (stor w') h AND HIGH_BIT \<noteq> 0"
  using assms
proof (induction orders arbitrary: w)
  case Nil
  then show ?case by simp
next
  case (Cons ord orders)
  from Cons.prems(2) obtain w1 where c: "cancelRfqOrder env cx ord w = Inr w1"
    and b: "batchCancelRfqOrders env cx orders w1 = Inr w'"
    by (auto simp: bindE_Inr_iff)
  from c have "w1 = cancelOrderHash (getRfqOrderHash env ord) (RfqOrder.maker ord) w"
    by (auto simp: cancelRfqOrder_eq split: if_splits)
  with Cons.prems(1) have "orderHashToTakerTokenFilledAmount (stor w1) h AND HIGH_BIT \<noteq> 0"
    by (simp add: cancelOrderHash_keeps_bit)
  from Cons.IH [OF this b] show ?case .
qed

lemma execute_keeps_bit:
  assumes "orderHashToTakerTokenFilledAmount (stor w) h AND HIGH_BIT \<noteq> 0"
    and "execute env cx c w = Inr w'"
  shows "orderHashToTakerTokenFilledAmount (stor w') h AND HIGH_BIT \<noteq> 0"
proof (cases c)
  case (FillLimitOrder ord sig amt)
  with assms(2) obtain res where
    "fillLimitOrderPrivate env cx (limitFillParams cx ord sig amt) w = Inr (w', res)"
    by (auto simp: fillLimitOrder_unfold bindE_Inr_iff)
  from fillLimit_keeps_bit [OF assms(1) this] assms(1) show ?thesis by simp
next
  case (FillRfqOrder ord sig amt)
  with assms(2) obtain res where
    "fillRfqOrderPrivate env cx (rfqFillParams cx ord sig amt) w = Inr (w', res)"
    by (auto simp: fillRfqOrder_unfold bindE_Inr_iff)
  from fillRfq_keeps_bit [OF assms(1) this] assms(1) show ?thesis by simp
next
  case (CancelLimitOrder ord)
  with assms(2) have "w' = cancelOrderHash (getLimitOrderHash env ord) (LimitOrder.maker ord) w"
    by (auto simp: cancelLimitOrder_eq split: if_splits)
  with assms(1) show ?thesis by (simp add: cancelOrderHash_keeps_bit)
next
  case (CancelRfqOrder ord)
  with assms(2) have "w' = cancelOrderHash (getRfqOrderHash env ord) (RfqOrder.maker ord) w"
    by (auto simp: cancelRfqOrder_eq split: if_splits)
  with assms(1) show ?thesis by (simp add: cancelOrderHash_keeps_bit)
next
  case (BatchCancelLimitOrders orders)
  with assms(2) batchLimit_keeps_bit [OF assms(1)] show ?thesis by simp
next
  case (BatchCancelRfqOrders orders)
  with assms(2) batchRfq_keeps_bit [OF assms(1)] show ?thesis by simp
next
  case (RegisterAllowedRfqOrigins origins allowed)
  with assms show ?thesis
    by (auto simp: registerAllowedRfqOrigins_def split: if_splits)
qed

lemma transact_keeps_bit:
  assumes "orderHashToTakerTokenFilledAmount (stor w) h AND HIGH_BIT \<noteq> 0"
  shows "orderHashToTakerTokenFilledAmount (stor (transact env tx w)) h AND HIGH_BIT \<noteq> 0"
proof (cases "execute env (fst tx) (snd tx) w")
  case (Inl e)
  with assms show ?thesis by (simp add: transact_def)
next
  case (Inr w')
  with execute_keeps_bit [OF assms Inr] show ?thesis by (simp add: transact_def)
qed

lemma transactAll_keeps_bit:
  assumes "orderHashToTakerTokenFilledAmount (stor w) h AND HIGH_BIT \<noteq> 0"
  shows "orderHashToTakerTokenFilledAmount (stor (transactAll env txs w)) h AND HIGH_BIT \<noteq> 0"
  using assms
proof (induction txs arbitrary: w)
  case Nil
  then show ?case by (simp add: transactAll_def)
next
  case (Cons tx txs)
  from Cons.IH [OF transact_keeps_bit [OF Cons.prems, of env tx]]
  show ?case by (simp add: transactAll_def)
qed

lemma resolve_cancelled:
  assumes "orderHashToTakerTokenFilledAmount st h AND HIGH_BIT \<noteq> 0"
  shows "OrderInfo.status (resolveOrderInfo h T e cx st) = (if T = 0 then INVALID else CANCELLED)"
  using assms by (simp add: resolveOrderInfo_def Let_def)

lemma cancel_twice:
  "stor (cancelOrderHash h mk (cancelOrderHash h mk w)) = stor (cancelOrderHash h mk w)"
  by (simp add: cancelOrderHash_def)

lemma fillLimitOrder_cancelled:
  assumes "orderHashToTakerTokenFilledAmount (stor w) (getLimitOrderHash env ord) AND HIGH_BIT \<noteq> 0"
  shows "OrderInfo.status (getLimitOrderInfo env cx (stor w) ord)
           = (if LimitOrder.takerAmount ord = 0 then INVALID else CANCELLED)"
    and "fillLimitOrder env cx ord sig amt w
           = Inl (OrderNotFillableError (getLimitOrderHash env ord)
                    (if LimitOrder.takerAmount ord = 0 then 0 else 3))"
proof -
  show s: "OrderInfo.status (getLimitOrderInfo env cx (stor w) ord)
           = (if LimitOrder.takerAmount ord = 0 then INVALID else CANCELLED)"
    using resolve_cancelled [OF assms] by (simp add: getLimitOrderInfo_def)
  have "fillLimitOrderPrivate env cx (limitFillParams cx ord sig amt) w
          = Inl (OrderNotFillableError (getLimitOrderHash env ord)
                    (if LimitOrder.takerAmount ord = 0 then 0 else 3))"
    using s by (simp add: fillLimitOrderPrivate_def limitFillParams_def Let_def)
      (simp add: getLimitOrderInfo_def)
  then show "fillLimitOrder env cx ord sig amt w
           = Inl (OrderNotFillableError (getLimitOrderHash env ord)
                    (if LimitOrder.takerAmount ord = 0 then 0 else 3))"
    by (simp add: fillLimitOrder_unfold)
qed

lemma fillRfqOrder_cancelled:
  assumes "orderHashToTakerTokenFilledAmount (stor w) (getRfqOrderHash env ord) AND HIGH_BIT \<noteq> 0"
  shows "OrderInfo.status (getRfqOrderInfo env cx (stor w) ord)
           = (if RfqOrder.takerAmount ord = 0 then INVALID else CANCELLED)"
    and "fillRfqOrder env cx ord sig amt w
           = Inl (OrderNotFillableError (getRfqOrderHash env ord)
                    (if RfqOrder.takerAmount ord = 0 then 0 else 3))"
proof -
  show s: "OrderInfo.status (getRfqOrderInfo env cx (stor w) ord)
           = (if RfqOrder.takerAmount ord = 0 then INVALID else CANCELLED)"
    using resolve_cancelled [OF assms] by (simp add: getRfqOrderInfo_def)
  have "fillRfqOrderPrivate env cx (rfqFillParams cx ord sig amt) w
          = Inl (OrderNotFillableError (getRfqOrderHash env ord)
                    (if RfqOrder.takerAmount ord = 0 then 0 else 3))"
    using s by (simp add: fillRfqOrderPrivate_def rfqFillParams_def Let_def)
      (simp add: getRfqOrderInfo_def)
  then show "fillRfqOrder env cx ord sig amt w
           = Inl (OrderNotFillableError (getRfqOrderHash env ord)
                    (if RfqOrder.takerAmount ord = 0 then 0 else 3))"
    by (simp add: fillRfqOrder_unfold)
qed

text \<open>
  Claim C5 as stated fails for an order whose taker amount is zero: the resolver reports
  \<open>Invalid\<close> before it looks at the fill record, so after the maker has cancelled such an
  order its top bit is set but its status is \<open>Invalid\<close>, not \<open>Cancelled\<close>.
\<close>

theorem C5_counterexample:
  "cancelLimitOrder demo_env maker_ctx (demo_limit_order 10 0 0) demo_world
     = Inr (cancelOrderHash 7 170 demo_world)
   \<and> orderHashToTakerTokenFilledAmount (stor (cancelOrderHash 7 170 demo_world)) 7 AND HIGH_BIT
       \<noteq> 0
   \<and> OrderInfo.status (getLimitOrderInfo demo_env demo_ctx
        (stor (cancelOrderHash 7 170 demo_world)) (demo_limit_order 10 0 0)) = INVALID"
  by (simp add: cancelLimitOrder_def cancelOrderHash_def getLimitOrderInfo_def
      resolveOrderInfo_def isValidOrderSigner_def Let_def demo_env_def demo_storage_def
      demo_world_def demo_ctx_def maker_ctx_def demo_limit_order_def)

text \<open>
  Claim C5, amended. Cancelling an order hash sets the top bit of its fill record and
  leaves the other bits; cancelling twice gives the same storage as cancelling once; and a
  cancellation by the maker or a valid order signer succeeds whatever the record holds,
  also for an order already cancelled or fully filled. Once the top bit of a record is
  set, no sequence of calls of the contract clears it. From then on every fill of the
  order, by anyone and at any time, aborts with \<open>OrderNotFillableError\<close>, and the order
  never resolves to \<open>Fillable\<close> again: its status is \<open>Cancelled\<close>, unless its taker amount is
  zero, in which case it is \<open>Invalid\<close>.
\<close>

theorem C5_cancel_permanent:
  "orderHashToTakerTokenFilledAmount (stor (cancelOrderHash h mk w)) h
     = orderHashToTakerTokenFilledAmount (stor w) h OR HIGH_BIT
   \<and> stor (cancelOrderHash h mk (cancelOrderHash h mk w)) = stor (cancelOrderHash h mk w)
   \<and> (msg_sender cx = LimitOrder.maker lord
        \<or> isValidOrderSigner (stor w) (LimitOrder.maker lord) (msg_sender cx) \<longrightarrow>
       cancelLimitOrder env cx lord w
         = Inr (cancelOrderHash (getLimitOrderHash env lord) (LimitOrder.maker lord) w))
   \<and> (msg_sender cx = RfqOrder.maker rord
        \<or> isValidOrderSigner (stor w) (RfqOrder.maker rord) (msg_sender cx) \<longrightarrow>
       cancelRfqOrder env cx rord w
         = Inr (cancelOrderHash (getRfqOrderHash env rord) (RfqOrder.maker rord) w))
   \<and> (orderHashToTakerTokenFilledAmount (stor w) h AND HIGH_BIT \<noteq> 0 \<longrightarrow>
       orderHashToTakerTokenFilledAmount (stor (transactAll env txs w)) h AND HIGH_BIT \<noteq> 0)
   \<and> (orderHashToTakerTokenFilledAmount (stor w) (getLimitOrderHash env lord) AND HIGH_BIT \<noteq> 0
       \<longrightarrow>
       OrderInfo.status (getLimitOrderInfo env cx' (stor (transactAll env txs w)) lord)
         = (if LimitOrder.takerAmount lord = 0 then INVALID else CANCELLED)
       \<and> fillLimitOrder env cx' lord sig amt (transactAll env txs w)
         = Inl (OrderNotFillableError (getLimitOrderHash env lord)
                  (if LimitOrder.takerAmount lord = 0 then 0 else 3)))
   \<and> (orderHashToTakerTokenFilledAmount (stor w) (getRfqOrderHash env rord) AND HIGH_BIT \<noteq> 0
       \<longrightarrow>
       OrderInfo.status (getRfqOrderInfo env cx' (stor (transactAll env txs w)) rord)
         = (if RfqOrder.takerAmount rord = 0 then INVALID else CANCELLED)
       \<and> fillRfqOrder env cx' rord sig amt (transactAll env txs w)
         = Inl (OrderNotFillableError (getRfqOrderHash env rord)
                  (if RfqOrder.takerAmount rord = 0 then 0 else 3)))"
proof (intro conjI impI)
  show "orderHashToTakerTokenFilledAmount (stor (cancelOrderHash h mk w)) h
     = orderHashToTakerTokenFilledAmount (stor w) h OR HIGH_BIT"
    by (simp add: cancelOrderHash_record)
  show "stor (cancelOrderHash h mk (cancelOrderHash h mk w)) = stor (cancelOrderHash h mk w)"
    by (rule cancel_twice)
next
  assume "msg_sender cx = LimitOrder.maker lord
        \<or> isValidOrderSigner (stor w) (LimitOrder.maker lord) (msg_sender cx)"
  then show "cancelLimitOrder env cx lord w
         = Inr (cancelOrderHash (getLimitOrderHash env lord) (LimitOrder.maker lord) w)"
    by (simp add: cancelLimitOrder_eq authorizedToCancel_def)
next
  assume "msg_sender cx = RfqOrder.maker rord
        \<or> isValidOrderSigner (stor w) (RfqOrder.maker rord) (msg_sender cx)"
  then show "cancelRfqOrder env cx rord w
         = Inr (cancelOrderHash (getRfqOrderHash env rord) (RfqOrder.maker rord) w)"
    by (simp add: cancelRfqOrder_eq authorizedToCancel_def)
next
  assume "orderHashToTakerTokenFilledAmount (stor w) h AND HIGH_BIT \<noteq> 0"
  then show "orderHashToTakerTokenFilledAmount (stor (transactAll env txs w)) h AND HIGH_BIT \<noteq> 0"
    by (rule transactAll_keeps_bit)
next
  assume "orderHashToTakerTokenFilledAmount (stor w) (getLimitOrderHash env lord) AND HIGH_BIT \<noteq> 0"
  then have b: "orderHashToTakerTokenFilledAmount (stor (transactAll env txs w))
                  (getLimitOrderHash env lord) AND HIGH_BIT \<noteq> 0"
    by (rule transactAll_keeps_bit)
  show "OrderInfo.status (getLimitOrderInfo env cx' (stor (transactAll env txs w)) lord)
         = (if LimitOrder.takerAmount lord = 0 then INVALID else CANCELLED)"
    by (rule fillLimitOrder_cancelled(1) [OF b])
  show "fillLimitOrder env cx' lord sig amt (transactAll env txs w)
         = Inl (OrderNotFillableError (getLimitOrderHash env lord)
                  (if LimitOrder.takerAmount lord = 0 then 0 else 3))"
    by (rule fillLimitOrder_cancelled(2) [OF b])
next
  assume "orderHashToTakerTokenFilledAmount (stor w) (getRfqOrderHash env rord) AND HIGH_BIT \<noteq> 0"
  then have b: "orderHashToTakerTokenFilledAmount (stor (transactAll env txs w))
                  (getRfqOrderHash env rord) AND HIGH_BIT \<noteq> 0"
    by (rule transactAll_keeps_bit)
  show "OrderInfo.status (getRfqOrderInfo env cx' (stor (transactAll env txs w)) rord)
         = (if RfqOrder.takerAmount rord = 0 then INVALID else CANCELLED)"
    by (rule fillRfqOrder_cancelled(1) [OF b])
  show "fillRfqOrder env cx' rord sig amt (transactAll env txs w)
         = Inl (OrderNotFillableError (getRfqOrderHash env rord)
                  (if RfqOrder.takerAmount rord = 0 then 0 else 3))"
    by (rule fillRfqOrder_cancelled(2) [OF b])
qed

theorem C5_cancel_permanent_witness:
  "cancelLimitOrder demo_env maker_ctx (demo_limit_order 10 3 0) demo_cancelled_world
     = Inr (cancelOrderHash 7 170 demo_cancelled_world)
   \<and> cancelRfqOrder demo_env maker_ctx (demo_rfq_order 10 3) demo_cancelled_world
     = Inr (cancelOrderHash 9 170 demo_cancelled_world)
   \<and> orderHashToTakerTokenFilledAmount (stor demo_cancelled_world) 7 AND HIGH_BIT \<noteq> 0
   \<and> orderHashToTakerTokenFilledAmount (stor demo_cancelled_world) 9 AND HIGH_BIT \<noteq> 0
   \<and> orderHashToTakerTokenFilledAmount
        (stor (transactAll demo_env demo_txs demo_cancelled_world)) 7 AND HIGH_BIT \<noteq> 0
   \<and> OrderInfo.status (getLimitOrderInfo demo_env demo_ctx
        (stor (transactAll demo_env demo_txs demo_cancelled_world)) (demo_limit_order 10 3 0))
       = CANCELLED
   \<and> fillLimitOrder demo_env demo_ctx (demo_limit_order 10 3 0) [170] 1
        (transactAll demo_env demo_txs demo_cancelled_world)
       = Inl (OrderNotFillableError 7 3)
   \<and> OrderInfo.status (getRfqOrderInfo demo_env demo_ctx
        (stor (transactAll demo_env demo_txs demo_cancelled_world)) (demo_rfq_order 10 3))
       = CANCELLED
   \<and> fillRfqOrder demo_env demo_ctx (demo_rfq_order 10 3) [170] 1
        (transactAll demo_env demo_txs demo_cancelled_world)
       = Inl (OrderNotFillableError 9 3)"
proof -
  have b: "orderHashToTakerTokenFilledAmount (stor demo_cancelled_world) 7 AND HIGH_BIT \<noteq> 0"
    "orderHashToTakerTokenFilledAmount (stor demo_cancelled_world) 9 AND HIGH_BIT \<noteq> 0"
    by (simp_all add: demo_cancelled_world_def cancelOrderHash_record)
  have v: "getLimitOrderHash demo_env (demo_limit_order 10 3 0) = 7"
    "getRfqOrderHash demo_env (demo_rfq_order 10 3) = 9"
    "LimitOrder.maker (demo_limit_order 10 3 0) = 170"
    "RfqOrder.maker (demo_rfq_order 10 3) = 170"
    "LimitOrder.takerAmount (demo_limit_order 10 3 0) = 3"
    "RfqOrder.takerAmount (demo_rfq_order 10 3) = 3"
    "msg_sender maker_ctx = 170"
    by (simp_all add: demo_env_def demo_limit_order_def demo_rfq_order_def maker_ctx_def)
  from C5_cancel_permanent [where env = demo_env and cx = maker_ctx and cx' = demo_ctx
      and w = demo_cancelled_world and h = 7 and mk = 170
      and lord = "demo_limit_order 10 3 0" and rord = "demo_rfq_order 10 3"
      and txs = demo_txs and sig = "[170]" and amt = 1] b
  show ?thesis by (simp add: v)
qed

section \<open>Claim C7: the off-chain and the on-chain hash\<close>

lemma typehash_string:
  "concat [''EIP712Domain('',
        join '','' [''string name'', ''string version'', ''uint256 chainId'',
                  ''address verifyingContract''],
        '')'']
   = ''EIP712Domain('' @ ''string name,'' @ ''string version,'' @ ''uint256 chainId,''
             @ ''address verifyingContract'' @ '')''"
  by simp

lemma be_bytes_zero: "be_bytes n 0 = replicate n 0"
  by (simp add: be_bytes_def map_replicate_const)

lemma length_be_bytes [simp]: "length (be_bytes n w) = n"
  by (simp add: be_bytes_def)

lemma hexDigit_zero [simp]: "hexDigit (CHR ''0'') = Some 0"
  by (simp add: hexDigit_def)

lemma hexBytes_zero_pad:
  "hexBytes (replicate (2 * k) (CHR ''0'') @ ds) = map_option ((@) (replicate k 0)) (hexBytes ds)"
proof (induction k)
  case 0
  show ?case by (simp add: option.map_ident)
next
  case (Suc k)
  show ?case
    by (cases "hexBytes ds") (simp_all add: Suc.IH)
qed

lemma hexBytes_length: "hexBytes ds = Some bs \<Longrightarrow> length ds = 2 * length bs"
  by (induction ds arbitrary: bs rule: hexBytes.induct) (auto split: option.splits)

lemma arrayify_Some_D:
  assumes "arrayify v = Some bs"
  shows "isHexString v" "hexBytes (drop 2 v) = Some bs" "length v = 2 + 2 * length bs"
proof -
  show h: "isHexString v" and b: "hexBytes (drop 2 v) = Some bs"
    using assms by (auto simp: arrayify_def split: if_splits)
  from h have "take 2 v = ''0x''" by (simp add: isHexString_def)
  then have "2 \<le> length v"
    by (cases v; cases "tl v") auto
  with hexBytes_length [OF b] show "length v = 2 + 2 * length bs" by simp
qed

lemma hexZeroPad_arrayify:
  assumes "arrayify v = Some bs" "length bs \<le> n"
  shows "\<exists>p. hexZeroPad v n = Some p \<and> arrayify p = Some (replicate (n - length bs) 0 @ bs)"
proof -
  note D = arrayify_Some_D [OF assms(1)]
  let ?p = "''0x'' @ replicate (2 * (n - length bs)) (CHR ''0'') @ drop 2 v"
  have k: "2 * n + 2 - length v = 2 * (n - length bs)"
    using D(3) assms(2) by simp
  have "hexZeroPad v n
          = Some (''0x'' @ replicate (2 * n + 2 - length v) (CHR ''0'') @ drop 2 v)"
    using D(1,3) assms(2) by (simp add: hexZeroPad_def)
  then have p: "hexZeroPad v n = Some ?p"
    unfolding k .
  have h: "isHexString ?p"
    using D(1) by (auto simp: isHexString_def list_all_iff)
  have "drop 2 ?p = replicate (2 * (n - length bs)) (CHR ''0'') @ drop 2 v"
    by simp
  with h have "arrayify ?p = Some (replicate (n - length bs) 0 @ bs)"
    using D(2) by (simp only: arrayify_def if_True hexBytes_zero_pad) simp
  with p show ?thesis by blast
qed

lemma be_bytes_append:
  "be_bytes (m + n) w = map (\<lambda>i. ucast (drop_bit (8 * i) w)) (rev [n..<m + n]) @ be_bytes n w"
proof -
  have "[0..<m + n] = [0..<n] @ [n..<m + n]"
    by (metis add.commute upt_add_eq_append zero_le)
  then show ?thesis by (simp add: be_bytes_def)
qed

lemma map_high_zero:
  assumes "\<And>i. n \<le> i \<Longrightarrow> f i = (0 :: 8 word)"
  shows "map f (rev [n..<m + n]) = replicate m 0"
proof -
  have "map f (rev [n..<m + n]) = map (\<lambda>i. 0) (rev [n..<m + n])"
    by (rule map_cong) (auto simp: assms)
  then show ?thesis by (simp add: map_replicate_const)
qed

lemma address_slot:
  fixes a :: address
  shows "be_bytes 32 (ucast a :: uint256) = replicate 12 0 @ be_bytes 20 a"
proof -
  have hi: "(ucast (drop_bit (8 * i) (ucast a :: uint256)) :: 8 word) = 0" if "20 \<le> i" for i
  proof (rule bit_word_eqI)
    fix k assume "k < LENGTH(8)"
    from that have "160 \<le> k + 8 * i" by simp
    then show "bit (ucast (drop_bit (8 * i) (ucast a :: uint256)) :: 8 word) k
        = bit (0 :: 8 word) k"
      by (auto simp: bit_ucast_iff bit_drop_bit_eq dest: bit_imp_le_length)
  qed
  have lo: "(ucast (drop_bit (8 * i) (ucast a :: uint256)) :: 8 word)
              = ucast (drop_bit (8 * i) a)" for i
  proof (rule bit_word_eqI)
    fix k assume "k < LENGTH(8)"
    then show "bit (ucast (drop_bit (8 * i) (ucast a :: uint256)) :: 8 word) k
        = bit (ucast (drop_bit (8 * i) a) :: 8 word) k"
      by (auto simp: bit_ucast_iff bit_drop_bit_eq dest: bit_imp_le_length)
  qed
  have "map (\<lambda>i. ucast (drop_bit (8 * i) (ucast a :: uint256)) :: 8 word) (rev [20..<12 + 20])
          = replicate 12 0"
    by (rule map_high_zero) (simp add: hi)
  moreover have "be_bytes 20 (ucast a :: uint256) = be_bytes 20 a"
    by (simp add: be_bytes_def lo)
  ultimately show ?thesis
    using be_bytes_append [of 12 20 "ucast a :: uint256"] by simp
qed

lemma domainHash_eq:
  assumes "arrayify v = Some (be_bytes 20 a)" "c \<noteq> 0" "unat c < 9007199254740991"
  shows "getExchangeProxyEIP712DomainHash H (Some (unat c)) (Some v)
           = Some (EIP712_DOMAIN_SEPARATOR H c a)"
proof -
  from assms(1) have vn: "v \<noteq> []"
    by (auto simp: arrayify_def isHexString_def)
  from assms(2) have cn: "unat c \<noteq> 0"
    by (simp add: unat_eq_0)
  have d: "createExchangeProxyEIP712Domain (Some (unat c)) (Some v)
             = \<lparr>name = ''Exchange'', version = ''1.0.0'', chainId = unat c,
                verifyingContract = v\<rparr>"
    using vn cn
    by (simp add: createExchangeProxyEIP712Domain_def EXCHANGE_PROXY_EIP712_DOMAIN_DEFAULT_def
        Let_def)
  from hexZeroPad_arrayify [OF assms(1), of 32] obtain p
    where p: "hexZeroPad v 32 = Some p"
      and ap: "arrayify p = Some (replicate 12 0 @ be_bytes 20 a)"
    by auto
  show ?thesis
    using p ap assms(3)
    by (simp add: getExchangeProxyEIP712DomainHash_def d solidityKeccak256_def
        EXCHANGE_PROXY_DOMAIN_TYPEHASH_def EIP712_DOMAIN_SEPARATOR_def address_slot
        del: concat.simps join.simps)
      simp
qed

lemma domain_chain_zero:
  "createExchangeProxyEIP712Domain (Some 0) vc = createExchangeProxyEIP712Domain (Some 1) vc"
  "createExchangeProxyEIP712Domain (Some 0) vc = createExchangeProxyEIP712Domain None vc"
  by (simp_all add: createExchangeProxyEIP712Domain_def
      EXCHANGE_PROXY_EIP712_DOMAIN_DEFAULT_def Let_def split: option.splits)

lemma AddressZero_nonempty: "AddressZero \<noteq> []"
  by (simp add: AddressZero_def)

lemma domain_contract_empty:
  "createExchangeProxyEIP712Domain ci (Some [])
     = createExchangeProxyEIP712Domain ci (Some AddressZero)"
  "createExchangeProxyEIP712Domain ci (Some []) = createExchangeProxyEIP712Domain ci None"
  using AddressZero_nonempty
  by (simp_all add: createExchangeProxyEIP712Domain_def
      EXCHANGE_PROXY_EIP712_DOMAIN_DEFAULT_def Let_def split: option.splits)

lemma domainHash_chain_zero:
  "getExchangeProxyEIP712DomainHash H (Some 0) vc = getExchangeProxyEIP712DomainHash H (Some 1) vc"
  by (simp only: getExchangeProxyEIP712DomainHash_def domain_chain_zero(1))

lemma domainHash_contract_empty:
  "getExchangeProxyEIP712DomainHash H ci (Some [])
     = getExchangeProxyEIP712DomainHash H ci (Some AddressZero)"
  by (simp only: getExchangeProxyEIP712DomainHash_def domain_contract_empty(1))

lemma arrayify_AddressZero: "arrayify AddressZero = Some (be_bytes 20 (0 :: address))"
  by (simp add: arrayify_def isHexString_def hexDigit_def AddressZero_def be_bytes_zero
      eval_nat_numeral)

text \<open>
  Claim C7 as stated fails at chain id 0: the off-chain hasher replaces a chain id of 0 by
  the default 1, while the contract hashes the chain id it runs on. With the ideal hash
  the two byte strings that are hashed differ, for the zero address and an empty struct
  hash as for any other.
\<close>

theorem C7_counterexample:
  "getExchangeProxyEIP712Hash ideal_hasher [] (Some (unat (0 :: uint256))) (Some AddressZero)
     \<noteq> Some (getEIP712Hash ideal_hasher (EIP712_DOMAIN_SEPARATOR ideal_hasher 0 0) [])"
proof -
  have "getExchangeProxyEIP712DomainHash ideal_hasher (Some (unat (1 :: uint256)))
          (Some AddressZero) = Some (EIP712_DOMAIN_SEPARATOR ideal_hasher 1 0)"
    by (rule domainHash_eq [OF arrayify_AddressZero]) simp_all
  then have "getExchangeProxyEIP712DomainHash ideal_hasher (Some 0) (Some AddressZero)
          = Some (EIP712_DOMAIN_SEPARATOR ideal_hasher 1 0)"
    by (simp add: domainHash_chain_zero)
  then have l: "getExchangeProxyEIP712Hash ideal_hasher [] (Some (unat (0 :: uint256)))
                  (Some AddressZero)
         = Some (getEIP712Hash ideal_hasher (EIP712_DOMAIN_SEPARATOR ideal_hasher 1 0) [])"
    by (simp add: getExchangeProxyEIP712Hash_def getEIP712Hash_def)
  have "be_bytes 32 (1 :: uint256) \<noteq> be_bytes 32 (0 :: uint256)"
    by (simp add: be_bytes_def)
  then have "getEIP712Hash ideal_hasher (EIP712_DOMAIN_SEPARATOR ideal_hasher 1 0) []
         \<noteq> getEIP712Hash ideal_hasher (EIP712_DOMAIN_SEPARATOR ideal_hasher 0 0) []"
    by (simp add: getEIP712Hash_def EIP712_DOMAIN_SEPARATOR_def ideal_hasher_def)
  with l show ?thesis by simp
qed

text \<open>
  Claim C7, amended. For every hash function, every struct hash, every chain id other
  than 0 that the off-chain library accepts as a number (a safe integer) and every
  verifying-contract address, given off-chain as a hex string of its 20 bytes,
  \<open>getExchangeProxyEIP712Hash\<close> returns the hash that \<open>_getEIP712Hash\<close> computes in a
  contract deployed on that chain at that address: the hash of \<open>0x1901\<close>, the domain
  separator and the struct hash, where both sides hash the same domain type string, the
  name \<open>Exchange\<close>, the version \<open>1.0.0\<close>, the chain id and the address in five 32-byte slots.
\<close>

theorem C7_hash_agreement:
  "arrayify v = Some (be_bytes 20 a) \<and> c \<noteq> 0 \<and> unat c < 9007199254740991 \<longrightarrow>
     getExchangeProxyEIP712Hash H structHash (Some (unat c)) (Some v)
       = Some (getEIP712Hash H (EIP712_DOMAIN_SEPARATOR H c a) structHash)
     \<and> getEIP712Hash H (EIP712_DOMAIN_SEPARATOR H c a) structHash
         = keccak256 H ([25, 1] @ bytes32_bytes H (EIP712_DOMAIN_SEPARATOR H c a)
                        @ bytes32_bytes H structHash)
     \<and> getExchangeProxyEIP712DomainHash H (Some (unat c)) (Some v)
         = Some (EIP712_DOMAIN_SEPARATOR H c a)"
proof (intro impI, elim conjE)
  assume a: "arrayify v = Some (be_bytes 20 a)" and c: "c \<noteq> 0"
    and b: "unat c < 9007199254740991"
  note d = domainHash_eq [OF a c b, of H]
  show "getExchangeProxyEIP712Hash H structHash (Some (unat c)) (Some v)
       = Some (getEIP712Hash H (EIP712_DOMAIN_SEPARATOR H c a) structHash)
     \<and> getEIP712Hash H (EIP712_DOMAIN_SEPARATOR H c a) structHash
         = keccak256 H ([25, 1] @ bytes32_bytes H (EIP712_DOMAIN_SEPARATOR H c a)
                        @ bytes32_bytes H structHash)
     \<and> getExchangeProxyEIP712DomainHash H (Some (unat c)) (Some v)
         = Some (EIP712_DOMAIN_SEPARATOR H c a)"
    using d by (simp add: getExchangeProxyEIP712Hash_def getEIP712Hash_def)
qed

theorem C7_hash_agreement_witness:
  "arrayify ''0x00000000000000000000000000000000000000Ee'' = Some (be_bytes 20 (238 :: address))
   \<and> (31337 :: uint256) \<noteq> 0
   \<and> unat (31337 :: uint256) < 9007199254740991
   \<and> getExchangeProxyEIP712Hash ideal_hasher [7] (Some 31337)
        (Some ''0x00000000000000000000000000000000000000Ee'')
       = Some (getEIP712Hash ideal_hasher (EIP712_DOMAIN_SEPARATOR ideal_hasher 31337 238) [7])"
proof -
  have b: "be_bytes 20 (238 :: address)
             = [0, 0, 0, 0, 0, 0, 0, 0, 0, 0, 0, 0, 0, 0, 0, 0, 0, 0, 0, 238]"
    by (simp add: be_bytes_def upt_rec drop_bit_eq_div)
  have a: "arrayify ''0x00000000000000000000000000000000000000Ee''
             = Some (be_bytes 20 (238 :: address))"
    by (simp add: arrayify_def isHexString_def hexDigit_def b)
  have u: "unat (31337 :: uint256) = 31337" by simp
  from C7_hash_agreement [of "''0x00000000000000000000000000000000000000Ee''" 238 31337
      ideal_hasher "[7]"] a
  show ?thesis by (simp only: u) simp
qed

section \<open>Claim C10: falsy arguments fall back to the defaults\<close>

text \<open>
  Claim C10. The off-chain hasher treats a chain id of 0 and an empty verifying-contract
  string like absent arguments: the domain it builds, the domain hash and the final hash
  are those of chain id 1, respectively of the zero address. Nothing is rejected: with
  chain id 0 and the empty string the functions return the domain of the defaults and the
  hashes that a contract on chain 1 at the zero address computes.
\<close>

theorem C10_falsy_defaults:
  "createExchangeProxyEIP712Domain (Some 0) vc = createExchangeProxyEIP712Domain (Some 1) vc
   \<and> createExchangeProxyEIP712Domain (Some 0) vc = createExchangeProxyEIP712Domain None vc
   \<and> createExchangeProxyEIP712Domain ci (Some [])
       = createExchangeProxyEIP712Domain ci (Some AddressZero)
   \<and> createExchangeProxyEIP712Domain ci (Some []) = createExchangeProxyEIP712Domain ci None
   \<and> createExchangeProxyEIP712Domain (Some 0) (Some [])
       = \<lparr>name = ''Exchange'', version = ''1.0.0'', chainId = 1,
          verifyingContract = ''0x0000000000000000000000000000000000000000''\<rparr>
   \<and> getExchangeProxyEIP712DomainHash H (Some 0) vc
       = getExchangeProxyEIP712DomainHash H (Some 1) vc
   \<and> getExchangeProxyEIP712DomainHash H ci (Some [])
       = getExchangeProxyEIP712DomainHash H ci (Some AddressZero)
   \<and> getExchangeProxyEIP712Hash H structHash (Some 0) vc
       = getExchangeProxyEIP712Hash H structHash (Some 1) vc
   \<and> getExchangeProxyEIP712Hash H structHash ci (Some [])
       = getExchangeProxyEIP712Hash H structHash ci (Some AddressZero)
   \<and> getExchangeProxyEIP712DomainHash H (Some 0) (Some [])
       = Some (EIP712_DOMAIN_SEPARATOR H 1 0)
   \<and> getExchangeProxyEIP712Hash H structHash (Some 0) (Some [])
       = Some (getEIP712Hash H (EIP712_DOMAIN_SEPARATOR H 1 0) structHash)"
proof -
  have d5: "createExchangeProxyEIP712Domain (Some 0) (Some [])
       = \<lparr>name = ''Exchange'', version = ''1.0.0'', chainId = 1,
          verifyingContract = ''0x0000000000000000000000000000000000000000''\<rparr>"
    by (simp add: createExchangeProxyEIP712Domain_def
        EXCHANGE_PROXY_EIP712_DOMAIN_DEFAULT_def AddressZero_def)
  have "getExchangeProxyEIP712DomainHash H (Some (unat (1 :: uint256))) (Some AddressZero)
          = Some (EIP712_DOMAIN_SEPARATOR H 1 0)"
    by (rule domainHash_eq [OF arrayify_AddressZero]) simp_all
  then have h3: "getExchangeProxyEIP712DomainHash H (Some 0) (Some [])
       = Some (EIP712_DOMAIN_SEPARATOR H 1 0)"
    by (simp add: domainHash_chain_zero domainHash_contract_empty)
  have f8: "getExchangeProxyEIP712Hash H structHash (Some 0) vc
       = getExchangeProxyEIP712Hash H structHash (Some 1) vc"
    by (simp only: getExchangeProxyEIP712Hash_def domainHash_chain_zero)
  have f9: "getExchangeProxyEIP712Hash H structHash ci (Some [])
       = getExchangeProxyEIP712Hash H structHash ci (Some AddressZero)"
    by (simp only: getExchangeProxyEIP712Hash_def domainHash_contract_empty)
  have f11: "getExchangeProxyEIP712Hash H structHash (Some 0) (Some [])
       = Some (getEIP712Hash H (EIP712_DOMAIN_SEPARATOR H 1 0) structHash)"
    by (simp add: getExchangeProxyEIP712Hash_def getEIP712Hash_def h3)
  show ?thesis
    by (intro conjI domain_chain_zero domain_contract_empty d5 domainHash_chain_zero
        domainHash_contract_empty f8 f9 h3 f11)
qed

end
